(* ===== verification/Prelude.thy ===== *)
theory Prelude
  imports Main "HOL-Library.Word"
begin

text \<open>
  Shared material: the effects of the Python programs (exceptions and mutable state), the
  integer and string conversions of the language that the sources use, little-endian byte
  strings, and the automation the component theories build on.

  A Python computation over a state \<open>'s\<close> is a function from the state to an outcome and a new
  state: \<open>Inl e\<close> is an exception that escapes (the state keeps the effects made before it),
  \<open>Inr v\<close> a returned value. Strings are byte strings (\<open>char list\<close>), as in Python 2.
\<close>

named_theorems py_simps \<open>unfolding of the effect combinators\<close>
named_theorems word_views \<open>reading words through narrower views\<close>

section \<open>Outcomes and effects\<close>

text \<open>The exceptions the sources raise or let escape. \<open>Blocks\<close> is not a Python exception: it is
  the outcome of a call that never returns (a wait for an interrupt that does not come).
  \<open>MemoryCorruption\<close> is a write past the end of a foreign buffer.\<close>

datatype exn =
    KeyError | AttributeError | ValueError | IndexError | TypeError | NameError
  | EOFError | IOError | AssertionError | VersionMismatch | OSError int | OverflowError | StructError | RuntimeError | SystemExit
  | Blocks | MemoryCorruption

type_synonym ('s, 'a) py = "'s \<Rightarrow> (exn + 'a) \<times> 's"

definition py_ret :: "'a \<Rightarrow> ('s, 'a) py" where
  "py_ret v s = (Inr v, s)"

definition py_raise :: "exn \<Rightarrow> ('s, 'a) py" where
  "py_raise e s = (Inl e, s)"

definition py_bind :: "('s, 'a) py \<Rightarrow> ('a \<Rightarrow> ('s, 'b) py) \<Rightarrow> ('s, 'b) py" where
  "py_bind m f s = (case m s of (Inl e, t) \<Rightarrow> (Inl e, t) | (Inr v, t) \<Rightarrow> f v t)"

definition py_seq :: "('s, 'a) py \<Rightarrow> ('s, 'b) py \<Rightarrow> ('s, 'b) py" where
  "py_seq m n = py_bind m (\<lambda>_. n)"

definition py_get :: "('s \<Rightarrow> 'a) \<Rightarrow> ('s, 'a) py" where
  "py_get f s = (Inr (f s), s)"

definition py_modify :: "('s \<Rightarrow> 's) \<Rightarrow> ('s, unit) py" where
  "py_modify f s = (Inr (), f s)"

text \<open>A computed value that may have failed, inside an effectful computation.\<close>

definition py_lift :: "exn + 'a \<Rightarrow> ('s, 'a) py" where
  "py_lift r s = (r, s)"

text \<open>A sequence of statements.\<close>

fun py_block :: "('s, 'a) py list \<Rightarrow> ('s, unit) py" where
  "py_block [] s = (Inr (), s)"
| "py_block (m # ms) s = py_bind m (\<lambda>_. py_block ms) s"

lemma py_ret_apply [simp, py_simps]: "py_ret v s = (Inr v, s)"
  by (simp add: py_ret_def)

lemma py_raise_apply [simp, py_simps]: "py_raise e s = (Inl e, s)"
  by (simp add: py_raise_def)

lemma py_get_apply [simp, py_simps]: "py_get f s = (Inr (f s), s)"
  by (simp add: py_get_def)

lemma py_modify_apply [simp, py_simps]: "py_modify f s = (Inr (), f s)"
  by (simp add: py_modify_def)

lemma py_lift_apply [simp, py_simps]: "py_lift r s = (r, s)"
  by (simp add: py_lift_def)

lemma py_bind_Inr: "m s = (Inr v, t) \<Longrightarrow> py_bind m f s = f v t"
  by (simp add: py_bind_def)

lemma py_bind_Inl: "m s = (Inl e, t) \<Longrightarrow> py_bind m f s = (Inl e, t)"
  by (simp add: py_bind_def)

lemma py_seq_Inr: "m s = (Inr v, t) \<Longrightarrow> py_seq m n s = n t"
  by (simp add: py_seq_def py_bind_Inr)

lemma py_seq_Inl: "m s = (Inl e, t) \<Longrightarrow> py_seq m n s = (Inl e, t)"
  by (simp add: py_seq_def py_bind_Inl)

lemma py_bind_cases:
  assumes "py_bind m f s = (r, u)"
  obtains (exn) e where "m s = (Inl e, u)" and "r = Inl e"
    | (val) v t where "m s = (Inr v, t)" and "f v t = (r, u)"
  using assms by (cases "m s") (auto simp: py_bind_def split: sum.splits)

lemma py_bind_InrE:
  assumes "py_bind m f s = (Inr r, u)"
  obtains v t where "m s = (Inr v, t)" and "f v t = (Inr r, u)"
  using assms by (auto elim: py_bind_cases)

lemma py_bind_assoc: "py_bind (py_bind m f) g = py_bind m (\<lambda>v. py_bind (f v) g)"
  by (rule ext) (simp add: py_bind_def split: prod.splits sum.splits)

lemma py_bind_ret_left: "py_bind (py_ret v) f = f v"
  by (rule ext) (simp add: py_bind_def)

lemma py_bind_ret_right: "py_bind m py_ret = m"
  by (rule ext) (simp add: py_bind_def split: prod.splits sum.splits)

lemma py_seq_bind: "py_seq m (py_bind n f) = py_bind (py_seq m n) f"
  by (simp add: py_seq_def py_bind_assoc)

lemma py_bind_cong [fundef_cong]:
  assumes "m s = m' s'"
    and "\<And>v t. m' s' = (Inr v, t) \<Longrightarrow> f v t = f' v t"
  shows "py_bind m f s = py_bind m' f' s'"
  using assms by (cases "m' s'") (auto simp: py_bind_def split: sum.splits)

lemma py_block_append: "py_block (ms @ ns) s = py_bind (py_block ms) (\<lambda>_. py_block ns) s"
proof (induction ms arbitrary: s)
  case Nil
  show ?case by (simp add: py_bind_def)
next
  case (Cons m ms)
  show ?case by (simp add: py_bind_def Cons.IH split: prod.splits sum.splits)
qed

text \<open>A block of statements none of which raises folds their effects.\<close>

lemma py_block_fold:
  assumes "\<And>m t. m \<in> set ms \<Longrightarrow> I t \<Longrightarrow> \<exists>v. m t = (Inr v, step m t) \<and> I (step m t)" and "I s"
  shows "py_block ms s = (Inr (), fold step ms s) \<and> I (fold step ms s)"
  using assms
proof (induction ms arbitrary: s)
  case Nil
  then show ?case by simp
next
  case (Cons m ms)
  from Cons.prems obtain v where "m s = (Inr v, step m s)" and "I (step m s)"
    by (metis list.set_intros(1))
  with Cons show ?case by (simp add: py_bind_def)
qed

section \<open>What a computation leaves alone\<close>

text \<open>\<open>keeps R m\<close>: the states before and after \<open>m\<close> are related by \<open>R\<close>, however \<open>m\<close> ends.\<close>

definition keeps :: "('s \<Rightarrow> 's \<Rightarrow> bool) \<Rightarrow> ('s, 'a) py \<Rightarrow> bool" where
  "keeps R m = (\<forall>s. R s (snd (m s)))"

lemma keepsD: "keeps R m \<Longrightarrow> m s = (r, t) \<Longrightarrow> R s t"
  unfolding keeps_def by (metis snd_conv)

lemma keeps_bind:
  assumes "transp R" "keeps R m" "\<And>v. keeps R (f v)"
  shows "keeps R (py_bind m f)"
proof -
  have "R s (snd (py_bind m f s))" for s
  proof -
    obtain r t where m: "m s = (r, t)" by force
    have st: "R s t" using assms(2) m unfolding keeps_def by (metis snd_conv)
    show ?thesis
    proof (cases r)
      case (Inl e)
      with m st show ?thesis by (simp add: py_bind_Inl)
    next
      case (Inr v)
      have "R t (snd (f v t))" using assms(3) unfolding keeps_def by blast
      then have "R s (snd (f v t))" by (rule transpD [OF assms(1) st])
      moreover have "py_bind m f s = f v t" using m Inr by (simp add: py_bind_Inr)
      ultimately show ?thesis by simp
    qed
  qed
  then show ?thesis by (simp add: keeps_def)
qed

lemma keeps_block:
  assumes "reflp R" "transp R" "\<And>m. m \<in> set ms \<Longrightarrow> keeps R m"
  shows "keeps R (py_block ms)"
  using assms(3)
proof (induction ms)
  case Nil
  then show ?case using assms(1) by (simp add: keeps_def reflpD)
next
  case (Cons m ms)
  then have "keeps R (py_bind m (\<lambda>_. py_block ms))"
    by (intro keeps_bind [OF assms(2)]) auto
  then show ?case by (simp add: keeps_def)
qed

lemma keeps_weaken: "keeps R m \<Longrightarrow> (\<And>s t. R s t \<Longrightarrow> R' s t) \<Longrightarrow> keeps R' m"
  by (simp add: keeps_def)

section \<open>Which exceptions escape\<close>

definition escapes :: "exn set \<Rightarrow> ('s, 'a) py \<Rightarrow> bool" where
  "escapes E m = (\<forall>s e t. m s = (Inl e, t) \<longrightarrow> e \<in> E)"

lemma escapesD: "escapes E m \<Longrightarrow> m s = (Inl e, t) \<Longrightarrow> e \<in> E"
  unfolding escapes_def by blast

lemma escapes_bind: "escapes E m \<Longrightarrow> (\<And>v. escapes E (f v)) \<Longrightarrow> escapes E (py_bind m f)"
proof -
  assume "escapes E m" "\<And>v. escapes E (f v)"
  then have "e \<in> E" if "py_bind m f s = (Inl e, t)" for s e t
    using that by (elim py_bind_cases) (auto dest: escapesD)
  then show ?thesis by (simp add: escapes_def)
qed

lemma escapes_seq: "escapes E m \<Longrightarrow> escapes E n \<Longrightarrow> escapes E (py_seq m n)"
  unfolding py_seq_def by (rule escapes_bind)

lemma escapes_pure: "escapes E (py_ret v)" "escapes E (py_modify g)" "escapes E (py_get h)"
  by (auto simp: escapes_def)

lemma escapes_block: "(\<And>m. m \<in> set ms \<Longrightarrow> escapes E m) \<Longrightarrow> escapes E (py_block ms)"
proof (induction ms)
  case Nil
  then show ?case by (simp add: escapes_def)
next
  case (Cons m ms)
  then have "escapes E (py_bind m (\<lambda>_. py_block ms))" by (intro escapes_bind) auto
  then show ?case by (simp add: escapes_def)
qed

lemma escapes_mono: "escapes D m \<Longrightarrow> D \<subseteq> E \<Longrightarrow> escapes E m"
  unfolding escapes_def by blast

lemmas escapes_steps = escapes_bind escapes_seq escapes_pure

section \<open>Lists: Python indexing and slicing\<close>

definition py_index :: "'a list \<Rightarrow> int \<Rightarrow> exn + 'a" where
  "py_index xs i =
     (if i < - int (length xs) \<or> int (length xs) \<le> i then Inl IndexError
      else if i < 0 then Inr (xs ! (length xs - nat (- i)))
      else Inr (xs ! nat i))"

lemma py_index_in [simp]: "0 \<le> i \<Longrightarrow> i < int (length xs) \<Longrightarrow> py_index xs i = Inr (xs ! nat i)"
  by (auto simp: py_index_def)

lemma py_index_beyond [simp]: "int (length xs) \<le> i \<Longrightarrow> py_index xs i = Inl IndexError"
  by (simp add: py_index_def)

text \<open>\<open>s[i:j]\<close> for \<open>0 \<le> i \<le> j\<close>: out-of-range bounds are clipped.\<close>

definition py_slice :: "'a list \<Rightarrow> nat \<Rightarrow> nat \<Rightarrow> 'a list" where
  "py_slice xs i j = take (j - i) (drop i xs)"

section \<open>Little-endian byte strings\<close>

type_synonym byte = "8 word"

text \<open>\<open>le_enc n v\<close> is the low \<open>n\<close> bytes of \<open>v\<close>, least significant first.\<close>

fun le_enc :: "nat \<Rightarrow> nat \<Rightarrow> nat list" where
  "le_enc 0 v = []"
| "le_enc (Suc n) v = v mod 256 # le_enc n (v div 256)"

fun le_dec :: "nat list \<Rightarrow> nat" where
  "le_dec [] = 0"
| "le_dec (b # bs) = b + 256 * le_dec bs"

lemma length_le_enc [simp]: "length (le_enc n v) = n"
  by (induction n arbitrary: v) auto

lemma le_enc_bytes: "b \<in> set (le_enc n v) \<Longrightarrow> b < 256"
  by (induction n arbitrary: v) auto

lemma le_dec_enc: "le_dec (le_enc n v) = v mod 256 ^ n"
proof (induction n arbitrary: v)
  case 0
  show ?case by simp
next
  case (Suc n)
  have "v mod 256 + 256 * (v div 256 mod 256 ^ n) = v mod (256 * 256 ^ n)"
    by (simp add: mod_mult2_eq)
  then show ?case by (simp add: Suc.IH)
qed

lemma le_dec_bound: "\<forall>b \<in> set bs. b < 256 \<Longrightarrow> le_dec bs < 256 ^ length bs"
proof (induction bs)
  case Nil
  show ?case by simp
next
  case (Cons b bs)
  then have "b \<le> 255" "Suc (le_dec bs) \<le> 256 ^ length bs" by auto
  then have "256 * Suc (le_dec bs) \<le> 256 * 256 ^ length bs"
    by (metis mult_le_mono2)
  with \<open>b \<le> 255\<close> show ?case by simp
qed

lemma le_enc_dec: "\<forall>b \<in> set bs. b < 256 \<Longrightarrow> length bs = n \<Longrightarrow> le_enc n (le_dec bs) = bs"
proof (induction bs arbitrary: n)
  case Nil
  then show ?case by simp
next
  case (Cons b bs)
  then obtain m where "n = Suc m" "length bs = m" by auto
  with Cons show ?case by simp
qed

lemma le_enc_mod: "le_enc n (v mod 256 ^ n) = le_enc n v"
proof -
  have "le_enc n (le_dec (le_enc n v)) = le_enc n v"
    using le_enc_bytes by (intro le_enc_dec) auto
  then show ?thesis by (simp add: le_dec_enc)
qed

section \<open>Reading and overwriting a run of a list\<close>

definition read_run :: "'a list \<Rightarrow> nat \<Rightarrow> nat \<Rightarrow> 'a list" where
  "read_run xs i n = take n (drop i xs)"

definition write_run :: "'a list \<Rightarrow> nat \<Rightarrow> 'a list \<Rightarrow> 'a list" where
  "write_run xs i ys = take i xs @ ys @ drop (i + length ys) xs"

lemma length_write_run [simp]:
  "i + length ys \<le> length xs \<Longrightarrow> length (write_run xs i ys) = length xs"
  by (simp add: write_run_def)

lemma length_read_run [simp]: "i + n \<le> length xs \<Longrightarrow> length (read_run xs i n) = n"
  by (simp add: read_run_def)

lemma nth_write_run:
  assumes "i + length ys \<le> length xs" and "j < length xs"
  shows "write_run xs i ys ! j = (if i \<le> j \<and> j < i + length ys then ys ! (j - i) else xs ! j)"
  using assms by (auto simp: write_run_def nth_append min_def)

lemma read_write_run_same:
  "i + length ys \<le> length xs \<Longrightarrow> read_run (write_run xs i ys) i (length ys) = ys"
  by (simp add: read_run_def write_run_def)

lemma read_write_run_other:
  assumes "i + length ys \<le> length xs" and "j + n \<le> length xs"
    and "j + n \<le> i \<or> i + length ys \<le> j"
  shows "read_run (write_run xs i ys) j n = read_run xs j n"
proof (rule nth_equalityI)
  show "length (read_run (write_run xs i ys) j n) = length (read_run xs j n)"
    using assms by simp
  fix k assume "k < length (read_run (write_run xs i ys) j n)"
  with assms have "k < n" by simp
  with assms show "read_run (write_run xs i ys) j n ! k = read_run xs j n ! k"
    by (auto simp: read_run_def nth_write_run)
qed

end
