(* ===== verification/Interfaces.thy ===== *)
theory Interfaces
  imports Prelude
begin

text \<open>
  The interfaces between the components, each a locale: \<open>word_store\<close>, a store of words read and
  written one at a time (what the DMA buffer is to a script); \<open>reg_port\<close>, a bank of device
  registers whose accesses are recorded in order (what BAR 4 is to the EEPROM utility);
  \<open>memo_table\<close>, a table that computes an entry on its first use (the type caches of module
  ctypes); \<open>finder\<close>, a search for a file. Each law is a promise of the provider, discharged where
  the provider is modelled; the lemmas in the locales are what the clients build on.
\<close>

section \<open>A store of words\<close>

locale word_store =
  fixes good :: "'s \<Rightarrow> bool"
    and valid :: "nat \<Rightarrow> bool"
    and word :: "'s \<Rightarrow> nat \<Rightarrow> int"
    and ld :: "nat \<Rightarrow> ('s, int) py"
    and st :: "nat \<Rightarrow> int \<Rightarrow> ('s, int) py"
  assumes st_law: "good s \<Longrightarrow> valid a \<Longrightarrow> 0 \<le> v \<Longrightarrow> v < 2 ^ 32 \<Longrightarrow>
      \<exists>r t. st a v s = (Inr r, t) \<and> good t \<and> word t a = v
        \<and> (\<forall>b. valid b \<longrightarrow> b \<noteq> a \<longrightarrow> word t b = word s b)"
    and ld_law: "good s \<Longrightarrow> valid a \<Longrightarrow>
      \<exists>t. ld a s = (Inr (word s a), t) \<and> good t \<and> (\<forall>b. valid b \<longrightarrow> word t b = word s b)"
begin

lemma ld_after_st:
  assumes "good s" "valid a" "0 \<le> v" "v < 2 ^ 32"
  shows "\<exists>t. py_seq (st a v) (ld a) s = (Inr v, t)"
proof -
  from st_law [OF assms] obtain r t where t: "st a v s = (Inr r, t)" "good t" "word t a = v"
    by blast
  from ld_law [OF t(2) assms(2)] t obtain u where "ld a t = (Inr v, u)" by auto
  with t(1) show ?thesis by (simp add: py_seq_Inr)
qed

text \<open>A block of stores to distinct addresses leaves each word stored, and no other changed.\<close>

lemma store_block:
  assumes "good s" "distinct (map fst ps)"
    and "\<And>a v. (a, v) \<in> set ps \<Longrightarrow> valid a \<and> 0 \<le> v \<and> v < 2 ^ 32"
  shows "\<exists>t. py_block (map (\<lambda>(a, v). st a v) ps) s = (Inr (), t) \<and> good t
    \<and> (\<forall>(a, v) \<in> set ps. word t a = v)
    \<and> (\<forall>b. valid b \<longrightarrow> b \<notin> fst ` set ps \<longrightarrow> word t b = word s b)"
  using assms
proof (induction ps arbitrary: s)
  case Nil
  then show ?case by simp
next
  case (Cons p ps)
  obtain a v where p: "p = (a, v)" by force
  with Cons.prems(3) have av: "valid a" "0 \<le> v" "v < 2 ^ 32" by auto
  from st_law [OF Cons.prems(1) av] obtain r u where
    u: "st a v s = (Inr r, u)" "good u" "word u a = v"
       "\<forall>b. valid b \<longrightarrow> b \<noteq> a \<longrightarrow> word u b = word s b"
    by blast
  from Cons.IH [OF u(2)] Cons.prems(2,3) p obtain t where
    t: "py_block (map (\<lambda>(a, v). st a v) ps) u = (Inr (), t)" "good t"
       "\<forall>(a, v) \<in> set ps. word t a = v"
       "\<forall>b. valid b \<longrightarrow> b \<notin> fst ` set ps \<longrightarrow> word t b = word u b"
    by auto
  from Cons.prems(2) p have "a \<notin> fst ` set ps" by auto
  with t(4) u(3) av(1) have "word t a = v" by simp
  with t u p show ?case by (auto simp: py_bind_Inr)
qed

end

section \<open>A bank of registers\<close>

text \<open>An access to a register and the value read or written. \<open>resp s a\<close> is what the device answers
  to a read of \<open>a\<close> in state \<open>s\<close>.\<close>

datatype reg_event = Rd int int | Wr int int

locale reg_port =
  fixes good :: "'s \<Rightarrow> bool"
    and reg :: "int \<Rightarrow> bool"
    and trace :: "'s \<Rightarrow> reg_event list"
    and resp :: "'s \<Rightarrow> int \<Rightarrow> int"
    and rd :: "int \<Rightarrow> ('s, int) py"
    and wr :: "int \<Rightarrow> int \<Rightarrow> ('s, int) py"
  assumes rd_law: "good s \<Longrightarrow> reg a \<Longrightarrow>
      \<exists>t. rd a s = (Inr (resp s a), t) \<and> good t \<and> trace t = trace s @ [Rd a (resp s a)]"
    and resp_law: "good s \<Longrightarrow> reg a \<Longrightarrow> 0 \<le> resp s a \<and> resp s a < 2 ^ 32"
    and wr_law: "good s \<Longrightarrow> reg a \<Longrightarrow> 0 \<le> v \<Longrightarrow> v < 2 ^ 32 \<Longrightarrow>
      \<exists>r t. wr a v s = (Inr r, t) \<and> good t \<and> trace t = trace s @ [Wr a v]"
begin

lemma rd_obtain:
  assumes "good s" "reg a"
  obtains v t where "v = resp s a" "rd a s = (Inr v, t)" "good t" "0 \<le> v" "v < 2 ^ 32"
    "trace t = trace s @ [Rd a v]"
  using rd_law [OF assms] resp_law [OF assms] by blast

lemma wr_obtain:
  assumes "good s" "reg a" "0 \<le> v" "v < 2 ^ 32"
  obtains r t where "wr a v s = (Inr r, t)" "good t" "trace t = trace s @ [Wr a v]"
  using wr_law [OF assms] by blast

end

section \<open>A table filled on demand\<close>

text \<open>A request may raise an exception instead, and then leaves no entry.\<close>

locale memo_table =
  fixes inv :: "'s \<Rightarrow> bool"
    and entry :: "'s \<Rightarrow> 'k \<Rightarrow> 'v option"
    and get :: "'k \<Rightarrow> ('s, 'v) py"
  assumes get_hit: "inv s \<Longrightarrow> entry s k = Some v \<Longrightarrow> get k s = (Inr v, s)"
    and get_entry: "inv s \<Longrightarrow> get k s = (Inr v, t) \<Longrightarrow> entry t k = Some v"
    and get_frame: "inv s \<Longrightarrow> get k s = (r, t) \<Longrightarrow> l \<noteq> k \<Longrightarrow> entry t l = entry s l"
    and get_inv: "inv s \<Longrightarrow> get k s = (r, t) \<Longrightarrow> inv t"
    and entry_inj: "inv s \<Longrightarrow> entry s k = Some v \<Longrightarrow> entry s l = Some v \<Longrightarrow> k = l"
begin

lemma entry_mono: "inv s \<Longrightarrow> get k s = (r, t) \<Longrightarrow> entry s l = Some w \<Longrightarrow> entry t l = Some w"
proof (cases "l = k")
  case True
  assume a: "inv s" "get k s = (r, t)" "entry s l = Some w"
  with True have "get k s = (Inr w, s)" by (simp add: get_hit)
  with a show ?thesis by simp
next
  case False
  assume "inv s" "get k s = (r, t)" "entry s l = Some w"
  with False show ?thesis by (simp add: get_frame)
qed

text \<open>The second request for a key returns the first one's result and changes nothing.\<close>

lemma get_idem: "inv s \<Longrightarrow> get k s = (Inr v, t) \<Longrightarrow> get k t = (Inr v, t)"
  by (meson get_entry get_hit get_inv)

lemma get_distinct:
  assumes "inv s" "get k s = (Inr v, t)" "get l t = (Inr w, u)"
  shows "v = w \<longleftrightarrow> k = l"
proof -
  from assms(1,2) have t: "inv t" "entry t k = Some v" by (auto dest: get_inv get_entry)
  with assms(3) have u: "inv u" "entry u l = Some w" by (auto dest: get_inv get_entry)
  from t assms(3) have "entry u k = Some v" by (blast intro: entry_mono)
  with u show ?thesis by (auto dest: entry_inj)
qed

end

text \<open>The same table among other operations, which may fill it too but never change an entry.\<close>

locale memo_world = memo_table inv entry get
  for inv :: "'s \<Rightarrow> bool" and entry :: "'s \<Rightarrow> 'k \<Rightarrow> 'v option" and get :: "'k \<Rightarrow> ('s, 'v) py" +
  fixes step :: "'r \<Rightarrow> 's \<Rightarrow> 's"
  assumes step_inv: "inv s \<Longrightarrow> inv (step r s)"
    and step_entry: "inv s \<Longrightarrow> entry s k = Some v \<Longrightarrow> entry (step r s) k = Some v"
begin

lemma run_inv: "inv s \<Longrightarrow> inv (fold step rs s)"
  by (induction rs arbitrary: s) (auto intro: step_inv)

lemma run_entry: "inv s \<Longrightarrow> entry s k = Some v \<Longrightarrow> entry (fold step rs s) k = Some v"
  by (induction rs arbitrary: s) (auto intro: step_inv step_entry)

text \<open>A key keeps its object whatever happens in between, and no other key gets it.\<close>

lemma get_stable:
  assumes "inv s" "get k s = (Inr v, t)"
  shows "get k (fold step rs t) = (Inr v, fold step rs t)"
proof -
  from assms have "inv t" "entry t k = Some v" by (auto dest: get_inv get_entry)
  then show ?thesis by (intro get_hit run_inv run_entry)
qed

lemma get_separate:
  assumes "inv s" "get k s = (Inr v, t)"
  shows "fst (get l (fold step rs t)) = Inr v \<longleftrightarrow> l = k"
proof
  from assms have t: "inv t" by (blast intro: get_inv)
  have k: "get k (fold step rs t) = (Inr v, fold step rs t)" by (rule get_stable [OF assms])
  assume "fst (get l (fold step rs t)) = Inr v"
  then have "get l (fold step rs t) = (Inr v, snd (get l (fold step rs t)))" by (simp add: prod_eq_iff)
  with get_distinct [OF run_inv [OF t] k] show "l = k" by blast
next
  assume "l = k"
  with get_stable [OF assms] show "fst (get l (fold step rs t)) = Inr v" by simp
qed

end

section \<open>A search for a file\<close>

locale finder =
  fixes exists :: "'p \<Rightarrow> bool"
    and candidates :: "'n \<Rightarrow> 'p list"
    and find :: "'n \<Rightarrow> 'p option"
  assumes find_law: "find n = List.find exists (candidates n)"
begin

lemma find_exists: "find n = Some p \<Longrightarrow> exists p \<and> p \<in> set (candidates n)"
  unfolding find_law by (auto simp: find_Some_iff)

lemma find_none: "find n = None \<longleftrightarrow> (\<forall>p \<in> set (candidates n). \<not> exists p)"
  unfolding find_law by (auto simp: find_None_iff)

text \<open>The first candidate wins.\<close>

lemma find_first:
  assumes "candidates n = ps @ p # qs" "exists p" "\<forall>q \<in> set ps. \<not> exists q"
  shows "find n = Some p"
proof -
  from assms(3) have "List.find exists (ps @ p # qs) = List.find exists (p # qs)"
    by (induction ps) auto
  with assms(1,2) show ?thesis by (simp add: find_law)
qed

end

end
