(* ===== verification/PyText.thy ===== *)
theory PyText
  imports Prelude
begin

text \<open>
  The text operations of Python 2 the programs use: hexadecimal formatting (\<open>'%04x'\<close>,
  \<open>'%.8X'\<close>, \<open>hex\<close>), \<open>int(s, base)\<close>, \<open>str.split\<close>, the lines of a file, and a console and
  file system (\<open>print\<close>, \<open>raw_input\<close>, \<open>open\<close>). The lemmas show that fixed-width
  hexadecimal text is read back by \<open>int(s, 16)\<close> digit by digit, and that \<open>split\<close> and the
  iteration over a file undo joining with blanks and line ends.
\<close>

section \<open>Characters\<close>

definition is_space :: "char \<Rightarrow> bool" where
  "is_space c = (let n = of_char c :: nat in n = 32 \<or> (9 \<le> n \<and> n \<le> 13))"

definition newline :: char where
  "newline = char_of (10 :: nat)"

text \<open>The value of a character as a digit of a base up to 36.\<close>

definition digit_val :: "char \<Rightarrow> nat option" where
  "digit_val c =
     (let n = of_char c :: nat
      in if 48 \<le> n \<and> n \<le> 57 then Some (n - 48)
         else if 97 \<le> n \<and> n \<le> 122 then Some (n - 87)
         else if 65 \<le> n \<and> n \<le> 90 then Some (n - 55)
         else None)"

definition hexd :: "bool \<Rightarrow> nat \<Rightarrow> char" where
  "hexd up d = char_of ((if d < 10 then 48 + d else if up then 55 + d else 87 + d) :: nat)"

lemma of_char_hexd: "d < 16 \<Longrightarrow>
    (of_char (hexd up d) :: nat) = (if d < 10 then 48 + d else if up then 55 + d else 87 + d)"
  by (simp add: hexd_def)

lemma digit_val_hexd [simp]: "d < 16 \<Longrightarrow> digit_val (hexd up d) = Some d"
  by (auto simp: digit_val_def of_char_hexd Let_def)

lemma not_space_hexd [simp]: "d < 16 \<Longrightarrow> \<not> is_space (hexd up d)"
  by (auto simp: is_space_def of_char_hexd Let_def)

lemma hexd_neq:
  assumes "d < 16" and "(of_char c :: nat) < 48 \<or> 103 \<le> (of_char c :: nat)"
  shows "hexd up d \<noteq> c" and "c \<noteq> hexd up d"
  using assms of_char_hexd [OF assms(1), of up] by (auto split: if_splits)

section \<open>Formatting integers\<close>

fun hexnum :: "bool \<Rightarrow> nat \<Rightarrow> string" where
  "hexnum up n = (if n < 16 then [hexd up n] else hexnum up (n div 16) @ [hexd up (n mod 16)])"

declare hexnum.simps [simp del]

definition pad0 :: "nat \<Rightarrow> string \<Rightarrow> string" where
  "pad0 w s = replicate (w - length s) (CHR ''0'') @ s"

text \<open>\<open>'%.wX' % z\<close> and \<open>'%.wx' % z\<close>: the precision counts digits, the sign comes first.\<close>

definition fmt_hex :: "bool \<Rightarrow> nat \<Rightarrow> int \<Rightarrow> string" where
  "fmt_hex up w z = (if z < 0 then ''-'' else []) @ pad0 w (hexnum up (nat \<bar>z\<bar>))"

text \<open>\<open>'%0wx' % z\<close>: the width counts the sign.\<close>

definition fmt_hexw :: "nat \<Rightarrow> int \<Rightarrow> string" where
  "fmt_hexw w z = (if z < 0 then ''-'' @ pad0 (w - 1) (hexnum False (nat (- z)))
                   else pad0 w (hexnum False (nat z)))"

text \<open>\<open>hex(z)\<close>: a value above \<open>sys.maxint\<close> is a \<open>long\<close> and prints with a trailing L.\<close>

definition py_hex :: "int \<Rightarrow> string" where
  "py_hex z = (if z < 0 then ''-'' else []) @ ''0x'' @ hexnum False (nat \<bar>z\<bar>)
     @ (if z < - (2 ^ 63) \<or> 2 ^ 63 \<le> z then ''L'' else [])"

fun decnum :: "nat \<Rightarrow> string" where
  "decnum n = (if n < 10 then [char_of (48 + n)] else decnum (n div 10) @ [char_of (48 + n mod 10)])"

declare decnum.simps [simp del]

text \<open>\<open>'%.wd' % n\<close> for a non-negative \<open>n\<close>.\<close>

definition fmt_dec :: "nat \<Rightarrow> nat \<Rightarrow> string" where
  "fmt_dec w n = pad0 w (decnum n)"

text \<open>Exactly \<open>w\<close> hexadecimal digits, most significant first.\<close>

fun hex_fixed :: "bool \<Rightarrow> nat \<Rightarrow> nat \<Rightarrow> string" where
  "hex_fixed up 0 n = []"
| "hex_fixed up (Suc w) n = hex_fixed up w (n div 16) @ [hexd up (n mod 16)]"

lemma length_hex_fixed [simp]: "length (hex_fixed up w n) = w"
  by (induction w arbitrary: n) auto

lemma hexd_0 [simp]: "hexd up 0 = CHR ''0''"
proof (cases up)
  case True
  have "hexd True 0 = CHR ''0''" by code_simp
  with True show ?thesis by simp
next
  case False
  have "hexd False 0 = CHR ''0''" by code_simp
  with False show ?thesis by simp
qed

lemma hex_fixed_0: "hex_fixed up w 0 = replicate w (CHR ''0'')"
proof (induction w)
  case 0
  show ?case by simp
next
  case (Suc w)
  then show ?case by (simp add: replicate_append_same)
qed

lemma length_hexnum: "n < 16 ^ Suc w \<Longrightarrow> length (hexnum up n) \<le> Suc w"
proof (induction w arbitrary: n)
  case 0
  then show ?case by (simp add: hexnum.simps)
next
  case (Suc w)
  then have "n div 16 < 16 ^ Suc w" by (simp add: less_mult_imp_div_less)
  from Suc.IH [OF this] show ?case by (subst hexnum.simps) auto
qed

lemma pad0_snoc: "pad0 (Suc w) (s @ [c]) = pad0 w s @ [c]"
  by (simp add: pad0_def)

lemma pad0_hexnum: "n < 16 ^ Suc w \<Longrightarrow> pad0 (Suc w) (hexnum up n) = hex_fixed up (Suc w) n"
proof (induction w arbitrary: n)
  case 0
  then show ?case by (simp add: hexnum.simps pad0_def)
next
  case (Suc w)
  show ?case
  proof (cases "n < 16")
    case True
    then have "n div 16 = 0" by simp
    with True show ?thesis
      by (simp add: hexnum.simps pad0_def hex_fixed_0 replicate_append_same)
  next
    case False
    from Suc.prems have "n div 16 < 16 ^ Suc w" by (simp add: less_mult_imp_div_less)
    from Suc.IH [OF this] False show ?thesis
      by (subst hexnum.simps) (simp only: pad0_snoc if_False hex_fixed.simps)
  qed
qed

lemma fmt_hex_fixed: "0 \<le> z \<Longrightarrow> z < 16 ^ Suc w \<Longrightarrow> fmt_hex up (Suc w) z = hex_fixed up (Suc w) (nat z)"
proof -
  assume "0 \<le> z" and "z < 16 ^ Suc w"
  then have "nat z < 16 ^ Suc w" by (simp add: nat_less_iff)
  then have "pad0 (Suc w) (hexnum up (nat z)) = hex_fixed up (Suc w) (nat z)" by (rule pad0_hexnum)
  with \<open>0 \<le> z\<close> show ?thesis by (simp only: fmt_hex_def abs_of_nonneg) simp
qed

lemma hex_fixed_digits: "c \<in> set (hex_fixed up w n) \<Longrightarrow> \<exists>d < 16. c = hexd up d"
proof (induction w arbitrary: n)
  case 0
  then show ?case by simp
next
  case (Suc w)
  have "n mod 16 < 16" by simp
  then have "\<exists>d < 16. hexd up (n mod 16) = hexd up d" by blast
  with Suc show ?case by auto
qed

section \<open>Reading integers\<close>

definition py_strip :: "string \<Rightarrow> string" where
  "py_strip s = rev (dropWhile is_space (rev (dropWhile is_space s)))"

fun digits_val :: "nat \<Rightarrow> nat \<Rightarrow> string \<Rightarrow> nat option" where
  "digits_val b acc [] = Some acc"
| "digits_val b acc (c # cs) =
     (case digit_val c of None \<Rightarrow> None
      | Some d \<Rightarrow> if d < b then digits_val b (acc * b + d) cs else None)"

definition drop_0x :: "nat \<Rightarrow> string \<Rightarrow> string" where
  "drop_0x b s = (if b = 16 \<and> (take 2 s = ''0x'' \<or> take 2 s = ''0X'') then drop 2 s else s)"

definition unsigned_val :: "nat \<Rightarrow> string \<Rightarrow> exn + int" where
  "unsigned_val b s =
     (let t = drop_0x b s
      in if t = [] then Inl ValueError
         else case digits_val b 0 t of None \<Rightarrow> Inl ValueError | Some n \<Rightarrow> Inr (int n))"

text \<open>\<open>int(s, b)\<close>: surrounding blanks and one sign are accepted, and \<open>0x\<close> in base 16.\<close>

definition py_int :: "nat \<Rightarrow> string \<Rightarrow> exn + int" where
  "py_int b s =
     (case py_strip s of
        [] \<Rightarrow> Inl ValueError
      | c # cs \<Rightarrow>
          if c = CHR ''-'' then (case unsigned_val b cs of Inl e \<Rightarrow> Inl e | Inr v \<Rightarrow> Inr (- v))
          else if c = CHR ''+'' then unsigned_val b cs
          else unsigned_val b (c # cs))"

lemma digits_val_append:
  "digits_val b acc (xs @ ys)
     = (case digits_val b acc xs of None \<Rightarrow> None | Some v \<Rightarrow> digits_val b v ys)"
  by (induction xs arbitrary: acc) (auto split: option.splits)

lemma digits_val_hex_fixed: "digits_val 16 0 (hex_fixed up w n) = Some (n mod 16 ^ w)"
proof (induction w arbitrary: n)
  case 0
  show ?case by simp
next
  case (Suc w)
  have "n div 16 mod 16 ^ w * 16 + n mod 16 = n mod (16 * 16 ^ w)"
    by (simp add: mod_mult2_eq mult.commute)
  then show ?case by (simp add: digits_val_append Suc.IH)
qed

text \<open>Two digits of a fixed-width number are one byte of it.\<close>

lemma py_int_two_digits:
  assumes "a < 16" and "b < 16"
  shows "py_int 16 [hexd up a, hexd up b] = Inr (int (a * 16 + b))"
proof -
  have x: "hexd up b \<noteq> CHR ''x''" "hexd up b \<noteq> CHR ''X''"
    "hexd up a \<noteq> CHR ''-''" "hexd up a \<noteq> CHR ''+''"
    using assms of_char_hexd [of b up] of_char_hexd [of a up] by (auto split: if_splits)
  have "py_strip [hexd up a, hexd up b] = [hexd up a, hexd up b]"
    using assms by (simp add: py_strip_def)
  with assms x show ?thesis
    by (simp add: py_int_def unsigned_val_def drop_0x_def)
qed

section \<open>Splitting text\<close>

text \<open>\<open>s.split()\<close>: the maximal runs of non-blank characters.\<close>

fun split_ws :: "string \<Rightarrow> string \<Rightarrow> string list" where
  "split_ws acc [] = (if acc = [] then [] else [rev acc])"
| "split_ws acc (c # cs) =
     (if is_space c then (if acc = [] then split_ws [] cs else rev acc # split_ws [] cs)
      else split_ws (c # acc) cs)"

definition py_split :: "string \<Rightarrow> string list" where
  "py_split s = split_ws [] s"

text \<open>\<open>s.split(c)\<close> with a separator character: empty fields are kept.\<close>

fun split_on_acc :: "char \<Rightarrow> string \<Rightarrow> string \<Rightarrow> string list" where
  "split_on_acc sep acc [] = [rev acc]"
| "split_on_acc sep acc (c # cs) =
     (if c = sep then rev acc # split_on_acc sep [] cs else split_on_acc sep (c # acc) cs)"

definition split_on :: "char \<Rightarrow> string \<Rightarrow> string list" where
  "split_on sep s = split_on_acc sep [] s"

text \<open>\<open>for line in file\<close>: each line with its line end.\<close>

fun lines_acc :: "string \<Rightarrow> string \<Rightarrow> string list" where
  "lines_acc acc [] = (if acc = [] then [] else [rev acc])"
| "lines_acc acc (c # cs) =
     (if c = newline then rev (c # acc) # lines_acc [] cs else lines_acc (c # acc) cs)"

definition file_lines :: "string \<Rightarrow> string list" where
  "file_lines s = lines_acc [] s"

lemma split_ws_word:
  "\<forall>c \<in> set w. \<not> is_space c \<Longrightarrow> split_ws acc (w @ cs) = split_ws (rev w @ acc) cs"
  by (induction w arbitrary: acc) auto

lemma py_split_two:
  assumes "a \<noteq> []" "b \<noteq> []" "\<forall>c \<in> set a. \<not> is_space c" "\<forall>c \<in> set b. \<not> is_space c"
    and "is_space x" "is_space y"
  shows "py_split (a @ [x] @ b @ [y]) = [a, b]"
  using assms by (simp add: py_split_def split_ws_word)

lemma lines_acc_line:
  "newline \<notin> set l \<Longrightarrow> lines_acc acc (l @ newline # cs) = (rev acc @ l @ [newline]) # lines_acc [] cs"
  by (induction l arbitrary: acc) auto

text \<open>Iterating over a file of complete lines gives back the lines.\<close>

lemma file_lines_concat:
  "\<forall>l \<in> set ls. newline \<notin> set l \<Longrightarrow>
   file_lines (concat (map (\<lambda>l. l @ [newline]) ls)) = map (\<lambda>l. l @ [newline]) ls"
  by (induction ls) (auto simp: file_lines_def lines_acc_line)

text \<open>\<open>s.endswith(suf)\<close> and \<open>s.startswith(pre)\<close>.\<close>

definition ends_with :: "string \<Rightarrow> string \<Rightarrow> bool" where
  "ends_with suf s = (length suf \<le> length s \<and> drop (length s - length suf) s = suf)"

definition starts_with :: "string \<Rightarrow> string \<Rightarrow> bool" where
  "starts_with pre s = (take (length pre) s = pre)"

section \<open>Console and files\<close>

text \<open>\<open>out\<close> is what was printed, \<open>soft\<close> the print statement's pending blank, \<open>inp\<close> the lines still
  to be typed, \<open>fls\<close> the files by name.\<close>

record console =
  out :: string
  soft :: bool
  inp :: "string list"
  fls :: "string \<Rightarrow> string option"

definition print_ln :: "string \<Rightarrow> console \<Rightarrow> console" where
  "print_ln s c = c\<lparr>out := out c @ (if soft c then '' '' else []) @ s @ [newline], soft := False\<rparr>"

text \<open>\<open>print s,\<close>: no line end; a blank is written before the next item unless the text ends in
  white space other than a blank.\<close>

definition print_comma :: "string \<Rightarrow> console \<Rightarrow> console" where
  "print_comma s c =
     c\<lparr>out := out c @ (if soft c then '' '' else []) @ s,
       soft := (s = [] \<or> \<not> is_space (last s) \<or> last s = CHR '' '')\<rparr>"

text \<open>\<open>print\<close> alone ends the line.\<close>

definition print_nl :: "console \<Rightarrow> console" where
  "print_nl c = c\<lparr>out := out c @ [newline], soft := False\<rparr>"

definition raw_input :: "string \<Rightarrow> console \<Rightarrow> (exn + string) \<times> console" where
  "raw_input prompt c =
     (case inp c of
        [] \<Rightarrow> (Inl EOFError, c\<lparr>out := out c @ prompt, soft := False\<rparr>)
      | l # ls \<Rightarrow> (Inr l, c\<lparr>out := out c @ prompt, soft := False, inp := ls\<rparr>))"

lemma print_ln_frame [simp]: "inp (print_ln s c) = inp c" "fls (print_ln s c) = fls c"
  by (simp_all add: print_ln_def)

lemma print_comma_frame [simp]: "inp (print_comma s c) = inp c" "fls (print_comma s c) = fls c"
  by (simp_all add: print_comma_def)

lemma print_nl_frame [simp]: "inp (print_nl c) = inp c" "fls (print_nl c) = fls c"
  by (simp_all add: print_nl_def)

end
