(* ===== verification/Eeprom_I2C.thy ===== *)
theory Eeprom_I2C
  imports Interfaces PyText
begin

text \<open>
  The two transfer functions of sw/gnurabbit/python/eeprom_utils.py, \<open>i2c_read\<close> and
  \<open>i2c_write\<close>: sequences of register accesses to the two-wire interface of the GN4124 with three
  kinds of polling loop. Their argument \<open>gennum\<close> is any object with the methods \<open>iread\<close> and
  \<open>iwrite\<close>; it is the record \<open>port\<close>, which also carries the print statement of the program
  that runs them. The list a caller passes to be filled is returned. The calls of
  \<open>time.sleep\<close> are left out. Every \<open>while\<close> loop is a function of its counter, which terminates.
\<close>

unbundle bit_operations_syntax

record 's port =
  iread :: "int \<Rightarrow> int \<Rightarrow> int \<Rightarrow> ('s, int) py"
  iwrite :: "int \<Rightarrow> int \<Rightarrow> int \<Rightarrow> int \<Rightarrow> ('s, int) py"
  say :: "string \<Rightarrow> ('s, unit) py"

text \<open>The bound of every polling loop.\<close>

definition i2c_timeout :: int where "i2c_timeout = 2000000"

text \<open>The registers the functions access.\<close>

definition i2c_regs :: "int set" where
  "i2c_regs = {0x804, 0x900, 0x904, 0x908, 0x90C, 0x910, 0x914}"

lemma in_i2c_regs [simp]:
  "0x804 \<in> i2c_regs" "0x900 \<in> i2c_regs" "0x904 \<in> i2c_regs" "0x908 \<in> i2c_regs"
  "0x90C \<in> i2c_regs" "0x910 \<in> i2c_regs" "0x914 \<in> i2c_regs"
  by (simp_all add: i2c_regs_def)

section \<open>Polling loops\<close>

text \<open>Shut off the EEPROM_INIT state machine if that was not done (both functions start with it).\<close>

definition shut_eeprom_init :: "'s port \<Rightarrow> ('s, unit) py" where
  "shut_eeprom_init P =
     py_bind (iread P 4 0x804 4) (\<lambda>tmp.
       if tmp AND 0x10000 = 0
       then py_seq (iwrite P 4 0x804 4 (tmp OR 0x10000)) (py_ret ()) else py_ret ())"

text \<open>Wait until the bus is idle, or give up silently.\<close>

function wait_idle :: "'s port \<Rightarrow> int \<Rightarrow> 's \<Rightarrow> (exn + unit) \<times> 's" where
  "wait_idle P i s =
     (if 0 < i then py_bind (iread P 4 0x904 4)
                      (\<lambda>tmp t. if tmp AND 0x100 = 0 then py_ret () t else wait_idle P (i - 1) t) s
      else py_ret () s)"
  by pat_completeness auto
termination by (relation "measure (\<lambda>(P, i, s). nat i)") auto

declare wait_idle.simps [simp del]

definition nack_message :: "int \<Rightarrow> string" where
  "nack_message tmp = ''NACK detected or TIMEOUT, IRT_STATUS = 0x'' @ fmt_hexw 0 tmp @ ''!!''"

definition completion_message :: string where
  "completion_message = ''ERROR, completion status not detected!!''"

text \<open>\<open>i2c_read\<close>: wait for the completion of the address phase; the value is the counter left.\<close>

function wait_done :: "'s port \<Rightarrow> int \<Rightarrow> 's \<Rightarrow> (exn + int) \<times> 's" where
  "wait_done P i s =
     (if 0 < i then py_bind (iread P 4 0x910 4)
        (\<lambda>tmp t. if tmp AND 0x1 \<noteq> 0 then py_ret i t
                 else if tmp AND 0xC \<noteq> 0 then py_seq (say P (nack_message tmp)) (py_raise SystemExit) t
                 else wait_done P (i - 1) t) s
      else py_ret i s)"
  by pat_completeness auto
termination by (relation "measure (\<lambda>(P, i, s). nat i)") auto

declare wait_done.simps [simp del]

text \<open>\<open>i2c_read\<close>: wait for the completion of one chunk; the value is the counter left.\<close>

function wait_chunk :: "'s port \<Rightarrow> int \<Rightarrow> 's \<Rightarrow> (exn + int) \<times> 's" where
  "wait_chunk P j s =
     (if 0 < j then py_bind (iread P 4 0x910 4)
        (\<lambda>tmp t. if tmp AND 0x1 \<noteq> 0 then py_ret j t else wait_chunk P (j - 1) t) s
      else py_ret j s)"
  by pat_completeness auto
termination by (relation "measure (\<lambda>(P, j, s). nat j)") auto

declare wait_chunk.simps [simp del]

text \<open>\<open>i2c_write\<close>: wait for the completion of one burst. The value tells whether the function
  returns there (a NACK or timeout flag was seen); running out of tries just goes on.\<close>

function wait_burst :: "'s port \<Rightarrow> int \<Rightarrow> 's \<Rightarrow> (exn + bool) \<times> 's" where
  "wait_burst P i s =
     (if 0 < i then py_bind (iread P 4 0x910 4)
        (\<lambda>tmp t. if tmp AND 0x1 \<noteq> 0 then py_seq (iread P 4 0x914 4) (py_ret False) t
                 else if tmp AND 0xC \<noteq> 0
                 then py_seq (say P (nack_message tmp)) (py_seq (iread P 4 0x914 4) (py_ret True)) t
                 else wait_burst P (i - 1) t) s
      else py_ret False s)"
  by pat_completeness auto
termination by (relation "measure (\<lambda>(P, i, s). nat i)") auto

declare wait_burst.simps [simp del]

section \<open>Reading\<close>

text \<open>Drain the FIFO: \<open>n\<close> bytes are appended to the data.\<close>

function read_fifo :: "'s port \<Rightarrow> int \<Rightarrow> int \<Rightarrow> int list \<Rightarrow> 's \<Rightarrow> (exn + int \<times> int list) \<times> 's" where
  "read_fifo P n tot dat s =
     (if 0 < n then py_bind (iread P 4 0x90C 4)
        (\<lambda>v t. read_fifo P (n - 1) (tot + 1) (dat @ [0xFF AND v]) t) s
      else py_ret (tot, dat) s)"
  by pat_completeness auto
termination by (relation "measure (\<lambda>(P, n, tot, dat, s). nat n)") auto

declare read_fifo.simps [simp del]

text \<open>The sequential read: chunks of at most eight bytes until the length or an error.\<close>

function read_loop ::
  "'s port \<Rightarrow> int \<Rightarrow> int \<Rightarrow> bool \<Rightarrow> int \<Rightarrow> int list \<Rightarrow> 's \<Rightarrow> (exn + int \<times> int list) \<times> 's" where
  "read_loop P i2c_addr len error_flag tot dat s =
     (if 0 < len \<and> \<not> error_flag then
        let transfer_len = (if 8 < len then 8 else len);
            len1 = (if 8 < len then len - 8 else 0)
        in py_bind (iwrite P 4 0x914 4 transfer_len) (\<lambda>_.
           py_bind (iwrite P 4 0x908 4 (0x7F AND i2c_addr)) (\<lambda>_.
           py_bind (wait_chunk P i2c_timeout) (\<lambda>j.
           py_bind (if j = 0 then say P completion_message else py_ret ()) (\<lambda>_.
           py_bind (read_fifo P transfer_len tot dat) (\<lambda>r t.
             read_loop P i2c_addr len1 (j = 0) (fst r) (snd r) t))))) s
      else py_ret (tot, dat) s)"
  by pat_completeness auto
termination
  by (relation "measure (\<lambda>(P, i2c_addr, len, error_flag, tot, dat, s). nat len)") auto

declare read_loop.simps [simp del]

definition i2c_read :: "'s port \<Rightarrow> int \<Rightarrow> int \<Rightarrow> int \<Rightarrow> int list \<Rightarrow> ('s, int \<times> int list) py" where
  "i2c_read P i2c_addr offset len read_data =
     py_seq (shut_eeprom_init P)
    (py_seq (iwrite P 4 0x900 4 0x384E)
    (py_seq (iread P 4 0x900 4)
    (py_seq (wait_idle P i2c_timeout)
    (py_seq (iread P 4 0x910 4)
    (py_seq (iwrite P 4 0x90C 4 (0xFF AND offset))
    (py_seq (iwrite P 4 0x908 4 (0x7F AND i2c_addr))
    (py_bind (wait_done P i2c_timeout) (\<lambda>i.
     py_seq (if i = 0 then py_seq (say P completion_message) (py_raise SystemExit) else py_ret ())
    (py_seq (iwrite P 4 0x900 4 0x384F)
            (read_loop P i2c_addr len False 0 read_data))))))))))"

section \<open>Writing\<close>

text \<open>One burst: at most \<open>i\<close> bytes, stopping where the next byte would start a new page. The
  values are \<open>total_transfer\<close>, \<open>offset\<close> and \<open>length\<close> after it.\<close>

function write_burst ::
  "'s port \<Rightarrow> int list \<Rightarrow> int \<Rightarrow> int \<Rightarrow> int \<Rightarrow> int \<Rightarrow> 's \<Rightarrow> (exn + int \<times> int \<times> int) \<times> 's" where
  "write_burst P write_data i tot offset len s =
     (if 0 < i \<and> 0 < len then
        py_bind (py_lift (py_index write_data tot)) (\<lambda>d.
        py_bind (iwrite P 4 0x90C 4 (0xFF AND d)) (\<lambda>_ t.
          if (offset + 1) AND 7 = 0 then py_ret (tot + 1, offset + 1, len - 1) t
          else write_burst P write_data (i - 1) (tot + 1) (offset + 1) (len - 1) t)) s
      else py_ret (tot, offset, len) s)"
  by pat_completeness auto
termination
  by (relation "measure (\<lambda>(P, write_data, i, tot, offset, len, s). nat i)") auto

declare write_burst.simps [simp del]

text \<open>The first byte of a burst is written whenever the loop is entered.\<close>

lemma write_burst_len_le:
  "write_burst P write_data i tot offset len s = (Inr (t', o', l'), u) \<Longrightarrow> l' \<le> len"
proof (induction P write_data i tot offset len s rule: write_burst.induct)
  case (1 P write_data i tot offset len s)
  show ?case
  proof (cases "0 < i \<and> 0 < len")
    case True
    with 1(2) obtain d v t where d: "py_index write_data tot = Inr d"
      "iwrite P 4 0x90C 4 (0xFF AND d) s = (Inr v, t)"
      and r: "(if (offset + 1) AND 7 = 0 then py_ret (tot + 1, offset + 1, len - 1) t
          else write_burst P write_data (i - 1) (tot + 1) (offset + 1) (len - 1) t) = (Inr (t', o', l'), u)"
      by (subst (asm) write_burst.simps) (auto elim!: py_bind_InrE)
    show ?thesis
    proof (cases "(offset + 1) AND 7 = 0")
      case True
      with r show ?thesis by auto
    next
      case False
      with r have "write_burst P write_data (i - 1) (tot + 1) (offset + 1) (len - 1) t = (Inr (t', o', l'), u)"
        by simp
      with 1(1) [OF True _ d(2) False] d(1) have "l' \<le> len - 1" by simp
      then show ?thesis by simp
    qed
  next
    case False
    with 1(2) show ?thesis by (subst (asm) write_burst.simps) auto
  qed
qed

lemma write_burst_progress:
  assumes "write_burst P write_data i tot offset len s = (Inr (t', o', l'), u)" "0 < i" "0 < len"
  shows "l' < len"
proof -
  from assms obtain d v t where
    "(if (offset + 1) AND 7 = 0 then py_ret (tot + 1, offset + 1, len - 1) t
      else write_burst P write_data (i - 1) (tot + 1) (offset + 1) (len - 1) t) = (Inr (t', o', l'), u)"
    by (subst (asm) write_burst.simps) (auto elim!: py_bind_InrE)
  then have "l' \<le> len - 1" by (auto split: if_splits dest: write_burst_len_le)
  then show ?thesis by simp
qed

function write_loop ::
  "'s port \<Rightarrow> int \<Rightarrow> int list \<Rightarrow> int \<Rightarrow> int \<Rightarrow> int \<Rightarrow> 's \<Rightarrow> (exn + int) \<times> 's" where
  "write_loop P i2c_addr write_data tot offset len s =
     (if 0 < len then
        py_bind (iwrite P 4 0x90C 4 (0xFF AND offset)) (\<lambda>_.
        py_bind (write_burst P write_data 6 tot offset len) (\<lambda>r.
        py_bind (iwrite P 4 0x908 4 (0x7F AND i2c_addr)) (\<lambda>_.
        py_bind (wait_burst P i2c_timeout) (\<lambda>nack t.
          if nack then py_ret (fst r) t
          else write_loop P i2c_addr write_data (fst r) (fst (snd r)) (snd (snd r)) t)))) s
      else py_ret tot s)"
  by pat_completeness auto
termination
  by (relation "measure (\<lambda>(P, i2c_addr, write_data, tot, offset, len, s). nat len)")
     (auto dest!: write_burst_progress)

declare write_loop.simps [simp del]

definition i2c_write :: "'s port \<Rightarrow> int \<Rightarrow> int \<Rightarrow> int \<Rightarrow> int list \<Rightarrow> ('s, int) py" where
  "i2c_write P i2c_addr offset len write_data =
     py_seq (shut_eeprom_init P)
    (py_seq (iread P 4 0x910 4)
    (py_seq (iread P 4 0x904 4)
    (py_seq (iwrite P 4 0x900 4 0x384E)
    (py_seq (iread P 4 0x900 4)
    (py_seq (wait_idle P i2c_timeout)
            (write_loop P i2c_addr write_data 0 offset len))))))"

end
