(* ===== verification/Eeprom_I2C_Props.thy ===== *)
theory Eeprom_I2C_Props
  imports Eeprom_I2C
begin

text \<open>
  What the transfer functions do on an arbitrary device. \<open>does good trace m s Q\<close> says that \<open>m\<close>
  run in \<open>s\<close> ends with an outcome \<open>r\<close> after the register accesses \<open>es\<close> with \<open>Q r es\<close>; the
  locale \<open>i2c_port\<close> derives such a statement for every loop and for \<open>i2c_read\<close> and \<open>i2c_write\<close>.
  The reference for \<open>i2c_write\<close> is \<open>bursts\<close>, the cutting of the data into page-respecting bursts;
  the last section shows that an EEPROM with eight-byte pages that receives those bursts ends up
  with the data at consecutive addresses.
\<close>

section \<open>Runs and their register accesses\<close>

definition does ::
  "('s \<Rightarrow> bool) \<Rightarrow> ('s \<Rightarrow> reg_event list) \<Rightarrow> ('s, 'a) py \<Rightarrow> 's \<Rightarrow> (exn + 'a \<Rightarrow> reg_event list \<Rightarrow> bool) \<Rightarrow> bool"
  where
  "does good trace m s Q \<longleftrightarrow>
     (\<exists>r t es. m s = (r, t) \<and> good t \<and> trace t = trace s @ es \<and> Q r es)"

lemma does_ret: "good s \<Longrightarrow> Q (Inr v) [] \<Longrightarrow> does good trace (py_ret v) s Q"
  by (simp add: does_def)

lemma does_Inr [simp]: "does good trace (\<lambda>t. (Inr v, t)) s Q \<longleftrightarrow> good s \<and> Q (Inr v) []"
  by (auto simp: does_def)

lemma does_py_ret [simp]: "does good trace (py_ret v) s Q \<longleftrightarrow> good s \<and> Q (Inr v) []"
  by (auto simp: does_def)

lemma does_raise: "good s \<Longrightarrow> Q (Inl e) [] \<Longrightarrow> does good trace (py_raise e) s Q"
  by (simp add: does_def)

lemma does_lift: "good s \<Longrightarrow> Q r [] \<Longrightarrow> does good trace (py_lift r) s Q"
  by (simp add: does_def)

lemma does_eq: "m s = m' s \<Longrightarrow> does good trace m' s Q \<Longrightarrow> does good trace m s Q"
  by (simp add: does_def)

lemma does_weaken: "does good trace m s Q \<Longrightarrow> (\<And>r es. Q r es \<Longrightarrow> Q' r es) \<Longrightarrow> does good trace m s Q'"
  by (auto simp: does_def)

lemma does_bind:
  assumes "does good trace m s Q"
    and "\<And>v t es. good t \<Longrightarrow> Q (Inr v) es \<Longrightarrow> does good trace (f v) t (\<lambda>r fs. Q' r (es @ fs))"
    and "\<And>e es. Q (Inl e) es \<Longrightarrow> Q' (Inl e) es"
  shows "does good trace (py_bind m f) s Q'"
proof -
  from assms(1) obtain r t es where m: "m s = (r, t)" "good t" "trace t = trace s @ es" "Q r es"
    by (auto simp: does_def)
  show ?thesis
  proof (cases r)
    case (Inl e)
    with m assms(3) show ?thesis by (auto simp: does_def py_bind_Inl)
  next
    case (Inr v)
    with m assms(2) [of t v es] show ?thesis by (auto simp: does_def py_bind_Inr)
  qed
qed

lemma does_seq:
  assumes "does good trace m s Q"
    and "\<And>v t es. good t \<Longrightarrow> Q (Inr v) es \<Longrightarrow> does good trace n t (\<lambda>r fs. Q' r (es @ fs))"
    and "\<And>e es. Q (Inl e) es \<Longrightarrow> Q' (Inl e) es"
  shows "does good trace (py_seq m n) s Q'"
  unfolding py_seq_def using assms by (rule does_bind)

lemma doesD:
  assumes "does good trace m s Q" "m s = (r, t)"
  obtains es where "good t" "trace t = trace s @ es" "Q r es"
  using assms by (auto simp: does_def)

text \<open>The writes among the accesses, the values read from one register, and the runs of accesses
  that only poll one register.\<close>

fun wrs :: "reg_event list \<Rightarrow> (int \<times> int) list" where
  "wrs [] = []"
| "wrs (Wr a v # es) = (a, v) # wrs es"
| "wrs (Rd a v # es) = wrs es"

fun reads_of :: "int \<Rightarrow> reg_event list \<Rightarrow> int list" where
  "reads_of a [] = []"
| "reads_of a (Rd b v # es) = (if b = a then v # reads_of a es else reads_of a es)"
| "reads_of a (Wr b v # es) = reads_of a es"

definition polls :: "int \<Rightarrow> reg_event list \<Rightarrow> bool" where
  "polls a es = (\<forall>e \<in> set es. \<exists>v. e = Rd a v)"

lemma wrs_append [simp]: "wrs (es @ fs) = wrs es @ wrs fs"
  by (induction es rule: wrs.induct) auto

lemma reads_of_append [simp]: "reads_of a (es @ fs) = reads_of a es @ reads_of a fs"
  by (induction a es rule: reads_of.induct) auto

lemma wrs_map_Wr [simp]: "wrs (map (\<lambda>(a, v). Wr a v) ps) = ps"
  by (induction ps) auto

lemma reads_of_map_Wr [simp]: "reads_of b (map (\<lambda>(a, v). Wr a v) ps) = []"
  by (induction ps) auto

lemma wrs_map_Wr_at [simp]: "wrs (map (\<lambda>d. Wr a (f d)) ds) = map (\<lambda>d. (a, f d)) ds"
  by (induction ds) auto

lemma reads_of_map_Wr_at [simp]: "reads_of b (map (\<lambda>d. Wr a (f d)) ds) = []"
  by (induction ds) auto

lemma polls_Nil [simp]: "polls a []"
  by (simp add: polls_def)

lemma polls_Cons [simp]: "polls a (e # es) \<longleftrightarrow> (\<exists>v. e = Rd a v) \<and> polls a es"
  by (simp add: polls_def)

lemma polls_wrs: "polls a es \<Longrightarrow> wrs es = []"
proof (induction es)
  case Nil
  show ?case by simp
next
  case (Cons e es)
  then show ?case by (cases e) auto
qed

lemma polls_reads: "polls a es \<Longrightarrow> b \<noteq> a \<Longrightarrow> reads_of b es = []"
proof (induction es)
  case Nil
  show ?case by simp
next
  case (Cons e es)
  then show ?case by (cases e) auto
qed

lemma length_reads_of_polls: "polls a es \<Longrightarrow> length (reads_of a es) = length es"
proof (induction es)
  case Nil
  show ?case by simp
next
  case (Cons e es)
  then show ?case by (cases e) auto
qed

text \<open>Status values of register 0x910: transfer completed; not completed but NACK or timeout.\<close>

definition done_st :: "int \<Rightarrow> bool" where
  "done_st v = (v AND 0x1 \<noteq> 0)"

definition nack_st :: "int \<Rightarrow> bool" where
  "nack_st v = (v AND 0x1 = 0 \<and> v AND 0xC \<noteq> 0)"

section \<open>Words of the protocol\<close>

lemma and_7_int: "(x :: int) AND 7 = x mod 8"
  using take_bit_eq_mask [of 3 x] by (simp add: mask_eq_exp_minus_1 take_bit_eq_mod)

lemma and_255_int: "(255 :: int) AND x = x mod 256"
  using take_bit_eq_mask [of 8 x] by (simp add: mask_eq_exp_minus_1 take_bit_eq_mod and.commute)

lemma and_127_int: "(127 :: int) AND x = x mod 128"
  using take_bit_eq_mask [of 7 x] by (simp add: mask_eq_exp_minus_1 take_bit_eq_mod and.commute)

lemma page_step:
  "(off + 1) AND (7 :: int) = 0 \<Longrightarrow> off mod 8 = 7"
  "(off + 1) AND (7 :: int) \<noteq> 0 \<Longrightarrow> (off + 1) mod 8 = off mod 8 + 1"
proof -
  have r: "0 \<le> off mod 8" "off mod 8 < 8" by simp_all
  have "(off + 1) mod 8 = (off mod 8 + 1) mod 8" by (simp only: mod_add_left_eq)
  also have "\<dots> = (if off mod 8 = 7 then 0 else off mod 8 + 1)"
    using r by (simp add: mod_pos_pos_trivial)
  finally have e: "(off + 1) mod 8 = (if off mod 8 = 7 then 0 else off mod 8 + 1)" .
  show "(off + 1) AND (7 :: int) = 0 \<Longrightarrow> off mod 8 = 7"
    using e r unfolding and_7_int by (simp split: if_splits)
  show "(off + 1) AND (7 :: int) \<noteq> 0 \<Longrightarrow> (off + 1) mod 8 = off mod 8 + 1"
    using e unfolding and_7_int by (simp split: if_splits)
qed

lemma byte_range: "0 \<le> (255 :: int) AND x" "(255 :: int) AND x < 256"
  by (simp_all add: and_255_int)

lemma masked_range [simp]:
  "0 \<le> (127 :: int) AND x" "(127 :: int) AND x < 4294967296" "(255 :: int) AND x < 4294967296"
  using pos_mod_bound [of 128 x] pos_mod_bound [of 256 x] by (simp_all add: and_127_int and_255_int)

lemma or_range: "0 \<le> v \<Longrightarrow> v < 2 ^ 32 \<Longrightarrow> 0 \<le> v OR (0x10000 :: int) \<and> v OR 0x10000 < 2 ^ 32"
  using OR_upper [of v 32 "0x10000 :: int"] by simp

section \<open>Bursts: the reference for writing\<close>

text \<open>The data cut into bursts: at most six bytes each, none crossing a multiple of eight.\<close>

function bursts :: "int \<Rightarrow> int list \<Rightarrow> (int \<times> int list) list" where
  "bursts off ds =
     (if ds = [] then []
      else let n = nat (min 6 (8 - off mod 8))
           in (off, take n ds) # bursts (off + int n) (drop n ds))"
  by pat_completeness auto
termination
  by (relation "measure (\<lambda>(off, ds). length ds)") (auto simp: min_def Let_def)

declare bursts.simps [simp del]

lemma bursts_Nil [simp]: "bursts off [] = []"
  by (subst bursts.simps) simp

lemma bursts_step:
  assumes "ds \<noteq> []" "n = min 6 (min (int (length ds)) (8 - off mod 8))"
  shows "bursts off ds = (off, take (nat n) ds) # bursts (off + n) (drop (nat n) ds)"
proof -
  let ?m = "nat (min 6 (8 - off mod 8))"
  have m: "8 - off mod 8 > 0" by simp
  have step: "bursts off ds = (off, take ?m ds) # bursts (off + int ?m) (drop ?m ds)"
    using assms(1) by (subst bursts.simps) (simp only: Let_def if_False)
  show ?thesis
  proof (cases "length ds \<le> ?m")
    case True
    then have "n = int (length ds)" using assms m by linarith
    with True step show ?thesis by simp
  next
    case False
    then have "n = int ?m" using assms m by linarith
    with step show ?thesis by simp
  qed
qed

definition burst_writes :: "int \<Rightarrow> int \<times> int list \<Rightarrow> (int \<times> int) list" where
  "burst_writes i2c_addr b =
     (0x90C, 0xFF AND fst b) # map (\<lambda>d. (0x90C, d)) (snd b) @ [(0x908, 0x7F AND i2c_addr)]"

definition burst_bytes :: "(int \<times> int list) list \<Rightarrow> int" where
  "burst_bytes bs = (\<Sum>b \<leftarrow> bs. int (length (snd b)))"

lemma burst_bytes_simps [simp]:
  "burst_bytes [] = 0" "burst_bytes (b # bs) = int (length (snd b)) + burst_bytes bs"
  by (simp_all add: burst_bytes_def)

text \<open>Chunk lengths: the reference for reading.\<close>

function chunk_sizes :: "int \<Rightarrow> int list" where
  "chunk_sizes len =
     (if 0 < len then (if 8 < len then 8 else len) # chunk_sizes (if 8 < len then len - 8 else 0) else [])"
  by pat_completeness auto
termination by (relation "measure nat") auto

declare chunk_sizes.simps [simp del]

lemma chunk_sizes_range: "c \<in> set (chunk_sizes len) \<Longrightarrow> 0 < c \<and> c \<le> 8"
proof (induction len rule: chunk_sizes.induct)
  case (1 len)
  then show ?case by (subst (asm) chunk_sizes.simps) (auto split: if_splits)
qed

lemma sum_chunk_sizes: "0 \<le> len \<Longrightarrow> sum_list (chunk_sizes len) = len"
proof (induction len rule: chunk_sizes.induct)
  case (1 len)
  show ?case
  proof (cases "0 < len")
    case True
    with 1 show ?thesis by (subst chunk_sizes.simps) auto
  next
    case False
    with 1 show ?thesis by (subst chunk_sizes.simps) auto
  qed
qed

text \<open>One chunk of the sequential read, and what it adds to the accesses.\<close>

definition chunk_writes :: "int \<Rightarrow> int \<Rightarrow> (int \<times> int) list" where
  "chunk_writes i2c_addr n = [(0x914, n), (0x908, 0x7F AND i2c_addr)]"

definition timed_out :: "reg_event list \<Rightarrow> bool" where
  "timed_out es \<longleftrightarrow> i2c_timeout \<le> int (length (filter (\<lambda>v. \<not> done_st v) (reads_of 0x910 es)))"

lemma timed_out_append: "timed_out es \<or> timed_out fs \<Longrightarrow> timed_out (es @ fs)"
  by (auto simp: timed_out_def)

lemma reads_of_map_Rd [simp]: "reads_of a (map (Rd a) vs) = vs"
  by (induction vs) auto

lemma reads_of_map_Rd_other [simp]: "a \<noteq> b \<Longrightarrow> reads_of a (map (Rd b) vs) = []"
  by (induction vs) auto

lemma wrs_map_Rd [simp]: "wrs (map (Rd b) vs) = []"
  by (induction vs) auto

text \<open>The whole loop: a prefix of the chunks is transferred, and a strict one only after a chunk
  that timed out.\<close>

definition read_post :: "int \<Rightarrow> int \<Rightarrow> int \<Rightarrow> int list \<Rightarrow> exn + int \<times> int list \<Rightarrow> reg_event list \<Rightarrow> bool" where
  "read_post i2c_addr len tot dat r es \<longleftrightarrow>
     (\<exists>k vs. r = Inr (tot + int (length vs), dat @ map (\<lambda>v. 0xFF AND v) vs)
        \<and> reads_of 0x90C es = vs \<and> int (length vs) = sum_list (take k (chunk_sizes len))
        \<and> k \<le> length (chunk_sizes len)
        \<and> wrs es = concat (map (chunk_writes i2c_addr) (take k (chunk_sizes len)))
        \<and> (k < length (chunk_sizes len) \<longrightarrow> timed_out es))"

lemma read_post_Cons:
  assumes len: "0 < len" and n: "n = (if 8 < len then 8 else len)" "len1 = (if 8 < len then len - 8 else 0)"
    and vs: "int (length vs) = n" "wrs es = chunk_writes i2c_addr n" "reads_of 0x90C es = vs"
    and rest: "if j then r = Inr (tot + n, dat @ map (\<lambda>v. 0xFF AND v) vs) \<and> fs = [] \<and> timed_out es
      else read_post i2c_addr len1 (tot + n) (dat @ map (\<lambda>v. 0xFF AND v) vs) r fs"
  shows "read_post i2c_addr len tot dat r (es @ fs)"
proof -
  have cs: "chunk_sizes len = n # chunk_sizes len1"
    using len n by (subst chunk_sizes.simps) simp
  show ?thesis
  proof (cases j)
    case True
    with rest vs show ?thesis
      unfolding read_post_def cs by (intro exI [where x = 1] exI [where x = vs]) auto
  next
    case False
    with rest obtain k ws where "r = Inr (tot + n + int (length ws), dat @ map (\<lambda>v. 0xFF AND v) (vs @ ws))"
      "reads_of 0x90C fs = ws" "int (length ws) = sum_list (take k (chunk_sizes len1))"
      "k \<le> length (chunk_sizes len1)" "wrs fs = concat (map (chunk_writes i2c_addr) (take k (chunk_sizes len1)))"
      "k < length (chunk_sizes len1) \<longrightarrow> timed_out fs"
      by (auto simp: read_post_def)
    with vs show ?thesis
      unfolding read_post_def cs
      by (intro exI [where x = "Suc k"] exI [where x = "vs @ ws"]) (auto simp: timed_out_append)
  qed
qed

text \<open>The write that shuts off the EEPROM_INIT state machine, from the value of LB_CTL.\<close>

definition init_writes :: "int \<Rightarrow> (int \<times> int) list" where
  "init_writes lb = (if lb AND 0x10000 = 0 then [(0x804, lb OR 0x10000)] else [])"

text \<open>A whole \<open>i2c_read\<close>. The address phase starts with a read of LB_CTL, polls registers and makes
  the writes below; it ends the program on a NACK or after a timeout. Otherwise the transfer
  changes to read mode and the chunks follow.\<close>

definition address_writes :: "int \<Rightarrow> int \<Rightarrow> int \<Rightarrow> (int \<times> int) list" where
  "address_writes i2c_addr offset lb =
     init_writes lb @ [(0x900, 0x384E), (0x90C, 0xFF AND offset), (0x908, 0x7F AND i2c_addr)]"

definition address_post :: "int \<Rightarrow> int \<Rightarrow> reg_event list \<Rightarrow> bool" where
  "address_post i2c_addr offset es \<longleftrightarrow>
     (\<exists>lb rest. es = Rd 0x804 lb # rest \<and> reads_of 0x90C rest = [] \<and> wrs rest = address_writes i2c_addr offset lb)"

definition i2c_read_post ::
  "int \<Rightarrow> int \<Rightarrow> int \<Rightarrow> int list \<Rightarrow> exn + int \<times> int list \<Rightarrow> reg_event list \<Rightarrow> bool" where
  "i2c_read_post i2c_addr offset len dat r es \<longleftrightarrow>
     r = Inl SystemExit \<and> address_post i2c_addr offset es
        \<and> ((\<exists>v \<in> set (reads_of 0x910 es). nack_st v) \<or> timed_out es)
     \<or> (\<exists>es1 es2. es = es1 @ Wr 0x900 0x384F # es2 \<and> address_post i2c_addr offset es1
        \<and> (\<exists>v \<in> set (reads_of 0x910 es1). done_st v) \<and> read_post i2c_addr len 0 dat r es2)"

text \<open>A whole \<open>i2c_write\<close>: a prefix of the bursts is sent, and a strict one only after a status
  with a NACK or timeout flag.\<close>

definition write_post :: "int \<Rightarrow> (int \<times> int list) list \<Rightarrow> int \<Rightarrow> exn + int \<Rightarrow> reg_event list \<Rightarrow> bool" where
  "write_post i2c_addr bs tot r es \<longleftrightarrow>
     (\<exists>k \<le> length bs. r = Inr (tot + burst_bytes (take k bs))
        \<and> wrs es = concat (map (burst_writes i2c_addr) (take k bs))
        \<and> (k < length bs \<longrightarrow> (\<exists>v \<in> set (reads_of 0x910 es). nack_st v)))"

definition i2c_write_post :: "int \<Rightarrow> int \<Rightarrow> int list \<Rightarrow> exn + int \<Rightarrow> reg_event list \<Rightarrow> bool" where
  "i2c_write_post i2c_addr offset dat r es \<longleftrightarrow>
     (\<exists>lb es1 es2. es = Rd 0x804 lb # es1 @ es2 \<and> wrs es1 = init_writes lb @ [(0x900, 0x384E)]
        \<and> write_post i2c_addr (bursts offset dat) 0 r es2)"

lemma i2c_write_postI:
  "es = Rd 0x804 lb # es1 @ es2 \<Longrightarrow> wrs es1 = init_writes lb @ [(0x900, 0x384E)] \<Longrightarrow>
   write_post i2c_addr (bursts offset dat) 0 r es2 \<Longrightarrow> i2c_write_post i2c_addr offset dat r es"
  unfolding i2c_write_post_def by blast

lemma write_post_Cons:
  assumes "wrs es = burst_writes i2c_addr b" "tot1 = tot + int (length (snd b))"
    and "if nack then r = Inr tot1 \<and> fs = [] \<and> (\<exists>v \<in> set (reads_of 0x910 es). nack_st v)
         else write_post i2c_addr bs tot1 r fs"
  shows "write_post i2c_addr (b # bs) tot r (es @ fs)"
proof (cases nack)
  case True
  with assms show ?thesis
    unfolding write_post_def by (intro exI [where x = 1]) auto
next
  case False
  with assms obtain k where "k \<le> length bs" "r = Inr (tot1 + burst_bytes (take k bs))"
    "wrs fs = concat (map (burst_writes i2c_addr) (take k bs))"
    "k < length bs \<longrightarrow> (\<exists>v \<in> set (reads_of 0x910 fs). nack_st v)"
    by (auto simp: write_post_def)
  with assms show ?thesis
    unfolding write_post_def by (intro exI [where x = "Suc k"]) auto
qed

section \<open>The loops on an arbitrary device\<close>

locale i2c_port = reg_port good reg trace resp rd wr
  for good :: "'s \<Rightarrow> bool" and reg trace resp and rd :: "int \<Rightarrow> ('s, int) py" and wr +
  fixes P :: "'s port"
  assumes iread_P: "iread P 4 a 4 = rd a"
    and iwrite_P: "iwrite P 4 a 4 v = wr a v"
    and say_law: "good s \<Longrightarrow> \<exists>t. say P x s = (Inr (), t) \<and> good t \<and> trace t = trace s"
    and regs: "a \<in> i2c_regs \<Longrightarrow> reg a"
begin

lemma does_iread:
  assumes "good s" "a \<in> i2c_regs"
    and "\<And>v. v = resp s a \<Longrightarrow> 0 \<le> v \<Longrightarrow> v < 2 ^ 32 \<Longrightarrow> Q (Inr v) [Rd a v]"
  shows "does good trace (iread P 4 a 4) s Q"
  using rd_law [OF assms(1) regs [OF assms(2)]] resp_law [OF assms(1) regs [OF assms(2)]] assms(3)
  unfolding does_def iread_P by blast

lemma does_iwrite:
  assumes "good s" "a \<in> i2c_regs" "0 \<le> v" "v < 2 ^ 32" "\<And>r. Q (Inr r) [Wr a v]"
  shows "does good trace (iwrite P 4 a 4 v) s Q"
  using wr_law [OF assms(1) regs [OF assms(2)] assms(3,4)] assms(5)
  unfolding does_def iwrite_P by blast

lemma does_say: "good s \<Longrightarrow> Q (Inr ()) [] \<Longrightarrow> does good trace (say P x) s Q"
  using say_law [of s x] unfolding does_def by fastforce

lemma does_rd_bind:
  assumes "good s" "a \<in> i2c_regs"
    and "\<And>v t. v = resp s a \<Longrightarrow> 0 \<le> v \<Longrightarrow> v < 2 ^ 32 \<Longrightarrow> good t \<Longrightarrow>
      does good trace (f v) t (\<lambda>r fs. Q r (Rd a v # fs))"
  shows "does good trace (py_bind (iread P 4 a 4) f) s Q"
proof (rule does_bind [where Q = "\<lambda>r es. r = Inr (resp s a) \<and> es = [Rd a (resp s a)]
    \<and> 0 \<le> resp s a \<and> resp s a < 2 ^ 32"])
  show "does good trace (iread P 4 a 4) s
      (\<lambda>r es. r = Inr (resp s a) \<and> es = [Rd a (resp s a)] \<and> 0 \<le> resp s a \<and> resp s a < 2 ^ 32)"
    using assms(1,2) by (rule does_iread) auto
qed (use assms(3) in auto)

lemma does_wr_bind:
  assumes "good s" "a \<in> i2c_regs" "0 \<le> v" "v < 2 ^ 32"
    and "\<And>x t. good t \<Longrightarrow> does good trace (f x) t (\<lambda>r fs. Q r (Wr a v # fs))"
  shows "does good trace (py_bind (iwrite P 4 a 4 v) f) s Q"
proof (rule does_bind [where Q = "\<lambda>r es. (\<exists>x. r = Inr x) \<and> es = [Wr a v]"])
  show "does good trace (iwrite P 4 a 4 v) s (\<lambda>r es. (\<exists>x. r = Inr x) \<and> es = [Wr a v])"
    using assms(1-4) by (rule does_iwrite) auto
qed (use assms(5) in auto)

lemma does_say_bind:
  assumes "good s" "\<And>t. good t \<Longrightarrow> does good trace (f ()) t Q"
  shows "does good trace (py_bind (say P x) f) s Q"
proof (rule does_bind [where Q = "\<lambda>r es. r = Inr () \<and> es = []"])
  show "does good trace (say P x) s (\<lambda>r es. r = Inr () \<and> es = [])"
    using assms(1) by (rule does_say) auto
qed (use assms(2) in auto)

lemmas does_rd_seq = does_rd_bind [where f = "\<lambda>_. n" for n, folded py_seq_def]
lemmas does_wr_seq = does_wr_bind [where f = "\<lambda>_. n" for n, folded py_seq_def]
lemmas does_say_seq = does_say_bind [where f = "\<lambda>_. n" for n, folded py_seq_def]

lemma does_shut_seq:
  assumes "good s"
    and "\<And>lb t. good t \<Longrightarrow>
      does good trace n t (\<lambda>r fs. Q r (Rd 0x804 lb # map (\<lambda>(a, v). Wr a v) (init_writes lb) @ fs))"
  shows "does good trace (py_seq (shut_eeprom_init P) n) s Q"
proof -
  have "does good trace (py_bind (iread P 4 0x804 4) (\<lambda>v. py_seq
      (if v AND 0x10000 = 0 then py_seq (iwrite P 4 0x804 4 (v OR 0x10000)) (py_ret ()) else py_ret ()) n)) s Q"
  proof (rule does_rd_bind [OF assms(1)])
    fix v :: int and t assume v: "0 \<le> v" "v < 2 ^ 32" and g: "good t"
    show "does good trace (py_seq (if v AND 0x10000 = 0 then py_seq (iwrite P 4 0x804 4 (v OR 0x10000)) (py_ret ())
        else py_ret ()) n) t (\<lambda>r fs. Q r (Rd 0x804 v # fs))"
    proof (cases "v AND 0x10000 = 0")
      case True
      have "py_seq (py_seq (iwrite P 4 0x804 4 (v OR 0x10000)) (py_ret ())) n
          = py_seq (iwrite P 4 0x804 4 (v OR 0x10000)) n"
        by (simp add: py_seq_def py_bind_assoc py_bind_ret_left)
      with True g or_range [OF v] assms(2) [of _ v] show ?thesis
        by (auto simp: init_writes_def intro!: does_wr_seq)
    next
      case False
      with g assms(2) [of t v] show ?thesis
        by (simp add: init_writes_def py_seq_def py_bind_ret_left)
    qed
  qed auto
  then show ?thesis by (simp add: shut_eeprom_init_def py_seq_def py_bind_assoc)
qed

text \<open>The shape all polling loops share.\<close>

lemma poll_loop:
  assumes unfold: "\<And>i s. L i s = (if 0 < i then py_bind (iread P 4 a 4) (\<lambda>v. B i v (L (i - 1))) s else E i s)"
    and a: "a \<in> i2c_regs"
    and base: "\<And>i t. good t \<Longrightarrow> \<not> 0 < i \<Longrightarrow> does good trace (E i) t (Q i)"
    and step: "\<And>i v t K. good t \<Longrightarrow> 0 < i \<Longrightarrow> (\<And>u. good u \<Longrightarrow> does good trace K u (Q (i - 1))) \<Longrightarrow>
      does good trace (B i v K) t (\<lambda>r es. Q i r (Rd a v # es))"
    and g: "good s"
  shows "does good trace (L (i :: int)) s (Q i)"
  using g
proof (induction "nat i" arbitrary: i s)
  case 0
  then have "L i s = E i s" by (simp add: unfold)
  then show ?case by (rule does_eq) (use 0 in \<open>simp add: base\<close>)
next
  case (Suc n)
  then have i: "0 < i" "n = nat (i - 1)" by auto
  then have "L i s = py_bind (iread P 4 a 4) (\<lambda>v. B i v (L (i - 1))) s" by (simp add: unfold)
  then show ?case
  proof (rule does_eq, intro does_rd_bind)
    fix v :: int and t assume "good t"
    then show "does good trace (B i v (L (i - 1))) t (\<lambda>r fs. Q i r (Rd a v # fs))"
      using i Suc.hyps(1) [OF i(2)] by (intro step) auto
  qed (use Suc.prems a in auto)
qed

lemma wait_idle_does:
  assumes "good s"
  shows "does good trace (wait_idle P i) s (\<lambda>r es. r = Inr () \<and> polls 0x904 es)"
proof (rule poll_loop [where L = "wait_idle P" and a = "0x904" and E = "\<lambda>i. py_ret ()"
      and B = "\<lambda>i v K t. if v AND 0x100 = 0 then py_ret () t else K t"])
  fix i :: int and v :: int and t and K :: "('s, unit) py"
  assume "good t" and "\<And>u. good u \<Longrightarrow> does good trace K u (\<lambda>r es. r = Inr () \<and> polls 0x904 es)"
  then show "does good trace (\<lambda>t. if v AND 0x100 = 0 then py_ret () t else K t) t
      (\<lambda>r es. r = Inr () \<and> polls 0x904 (Rd 0x904 v # es))"
    by (cases "v AND 0x100 = 0") (auto elim: does_weaken)
qed (use assms in \<open>auto simp: wait_idle.simps [of P]\<close>)

lemma does_idle_seq:
  assumes "good s"
    and "\<And>t es. good t \<Longrightarrow> polls 0x904 es \<Longrightarrow> does good trace n t (\<lambda>r fs. Q r (es @ fs))"
  shows "does good trace (py_seq (wait_idle P i) n) s Q"
  by (rule does_seq [OF wait_idle_does [OF assms(1)]]) (use assms(2) in auto)

lemma wait_chunk_does:
  assumes "good s" "0 \<le> i"
  shows "does good trace (wait_chunk P i) s
    (\<lambda>r es. polls 0x910 es \<and> (\<exists>k. r = Inr k \<and> 0 \<le> k
       \<and> (k = 0 \<longrightarrow> int (length es) = i \<and> (\<forall>v \<in> set (reads_of 0x910 es). \<not> done_st v))
       \<and> (k \<noteq> 0 \<longrightarrow> (\<exists>v \<in> set (reads_of 0x910 es). done_st v))))"
proof -
  let ?Q = "\<lambda>i r es. 0 \<le> i \<longrightarrow> polls 0x910 es \<and> (\<exists>k. r = Inr k \<and> 0 \<le> k
       \<and> (k = 0 \<longrightarrow> int (length es) = i \<and> (\<forall>v \<in> set (reads_of 0x910 es). \<not> done_st v))
       \<and> (k \<noteq> 0 \<longrightarrow> (\<exists>v \<in> set (reads_of 0x910 es). done_st v)))"
  have "does good trace (wait_chunk P i) s (?Q i)"
  proof (rule poll_loop [where a = "0x910" and E = "\<lambda>i. py_ret i" and Q = ?Q
        and B = "\<lambda>i v K t. if v AND 0x1 \<noteq> 0 then py_ret i t else K t"])
    fix i :: int and v :: int and t and K :: "('s, int) py"
    assume "good t" "0 < i" and K: "\<And>u. good u \<Longrightarrow> does good trace K u (?Q (i - 1))"
    show "does good trace (\<lambda>t. if v AND 0x1 \<noteq> 0 then py_ret i t else K t) t (\<lambda>r es. ?Q i r (Rd 0x910 v # es))"
    proof (cases "v AND 0x1 = 0")
      case True
      with K [OF \<open>good t\<close>] \<open>0 < i\<close> show ?thesis
        by (auto simp: done_st_def elim!: does_weaken)
    next
      case False
      with \<open>good t\<close> \<open>0 < i\<close> show ?thesis by (auto simp: done_st_def)
    qed
  qed (use assms in \<open>auto simp: wait_chunk.simps [of P]\<close>)
  then show ?thesis by (rule does_weaken) (use assms(2) in blast)
qed

lemma wait_done_does:
  assumes "good s" "0 \<le> i"
  shows "does good trace (wait_done P i) s
    (\<lambda>r es. polls 0x910 es
       \<and> (r = Inl SystemExit \<and> (\<exists>v \<in> set (reads_of 0x910 es). nack_st v)
          \<or> r = Inr 0 \<and> int (length es) = i \<and> (\<forall>v \<in> set (reads_of 0x910 es). \<not> done_st v)
          \<or> (\<exists>k > 0. r = Inr k) \<and> (\<exists>v \<in> set (reads_of 0x910 es). done_st v)))"
proof -
  let ?Q = "\<lambda>i r es. 0 \<le> i \<longrightarrow> polls 0x910 es
       \<and> (r = Inl SystemExit \<and> (\<exists>v \<in> set (reads_of 0x910 es). nack_st v)
          \<or> r = Inr 0 \<and> int (length es) = i \<and> (\<forall>v \<in> set (reads_of 0x910 es). \<not> done_st v)
          \<or> (\<exists>k > 0. r = Inr k) \<and> (\<exists>v \<in> set (reads_of 0x910 es). done_st v))"
  have "does good trace (wait_done P i) s (?Q i)"
  proof (rule poll_loop [where a = "0x910" and E = "\<lambda>i. py_ret i" and Q = ?Q
        and B = "\<lambda>i v K t. if v AND 0x1 \<noteq> 0 then py_ret i t
          else if v AND 0xC \<noteq> 0 then py_seq (say P (nack_message v)) (py_raise SystemExit) t else K t"])
    fix i :: int and v :: int and t and K :: "('s, int) py"
    assume g: "good t" and i: "0 < i" and K: "\<And>u. good u \<Longrightarrow> does good trace K u (?Q (i - 1))"
    show "does good trace (\<lambda>t. if v AND 0x1 \<noteq> 0 then py_ret i t
        else if v AND 0xC \<noteq> 0 then py_seq (say P (nack_message v)) (py_raise SystemExit) t else K t) t
        (\<lambda>r es. ?Q i r (Rd 0x910 v # es))"
    proof (cases "v AND 0x1 = 0")
      case True
      show ?thesis
      proof (cases "v AND 0xC = 0")
        case True
        with \<open>v AND 0x1 = 0\<close> K [OF g] i show ?thesis
          by (auto simp: done_st_def elim!: does_weaken)
      next
        case False
        with \<open>v AND 0x1 = 0\<close> g i show ?thesis
          by (auto simp: nack_st_def intro!: does_say_seq does_raise)
      qed
    next
      case False
      with g i show ?thesis by (auto simp: done_st_def)
    qed
  qed (use assms in \<open>auto simp: wait_done.simps [of P]\<close>)
  then show ?thesis by (rule does_weaken) (use assms(2) in blast)
qed

lemma wait_burst_does:
  assumes "good s"
  shows "does good trace (wait_burst P i) s
    (\<lambda>r es. wrs es = [] \<and> (\<exists>b. r = Inr b \<and> (b \<longleftrightarrow> (\<exists>v \<in> set (reads_of 0x910 es). nack_st v))))"
proof (rule poll_loop [where L = "wait_burst P" and a = "0x910" and E = "\<lambda>i. py_ret False"
      and B = "\<lambda>i v K t. if v AND 0x1 \<noteq> 0 then py_seq (iread P 4 0x914 4) (py_ret False) t
        else if v AND 0xC \<noteq> 0
        then py_seq (say P (nack_message v)) (py_seq (iread P 4 0x914 4) (py_ret True)) t else K t"])
  fix i :: int and v :: int and t and K :: "('s, bool) py"
  let ?Q = "\<lambda>r es. wrs es = [] \<and> (\<exists>b. r = Inr b \<and> (b \<longleftrightarrow> (\<exists>v \<in> set (reads_of 0x910 es). nack_st v)))"
  assume g: "good t" and K: "\<And>u. good u \<Longrightarrow> does good trace K u ?Q"
  show "does good trace (\<lambda>t. if v AND 0x1 \<noteq> 0 then py_seq (iread P 4 0x914 4) (py_ret False) t
        else if v AND 0xC \<noteq> 0
        then py_seq (say P (nack_message v)) (py_seq (iread P 4 0x914 4) (py_ret True)) t else K t) t
      (\<lambda>r es. ?Q r (Rd 0x910 v # es))"
  proof (cases "v AND 0x1 = 0")
    case True
    show ?thesis
    proof (cases "v AND 0xC = 0")
      case True
      with \<open>v AND 0x1 = 0\<close> K [OF g] show ?thesis
        by (auto simp: nack_st_def elim!: does_weaken)
    next
      case False
      with \<open>v AND 0x1 = 0\<close> g show ?thesis
        by (auto simp: nack_st_def intro!: does_say_seq does_rd_seq)
    qed
  next
    case False
    with g show ?thesis by (auto simp: nack_st_def intro!: does_rd_seq)
  qed
qed (use assms in \<open>auto simp: wait_burst.simps [of P]\<close>)

lemma read_fifo_does:
  assumes "good s" "0 \<le> n"
  shows "does good trace (read_fifo P n tot dat) s
    (\<lambda>r es. \<exists>vs. es = map (Rd 0x90C) vs \<and> int (length vs) = n
       \<and> r = Inr (tot + n, dat @ map (\<lambda>v. 0xFF AND v) vs))"
  using assms
proof (induction "nat n" arbitrary: n tot dat s)
  case 0
  then have "read_fifo P n tot dat s = py_ret (tot, dat) s" by (subst read_fifo.simps) simp
  then show ?case by (rule does_eq) (use 0 in simp)
next
  case (Suc k)
  then have n: "0 < n" "k = nat (n - 1)" "0 \<le> n - 1" by auto
  then have "read_fifo P n tot dat s = py_bind (iread P 4 0x90C 4)
      (\<lambda>v. read_fifo P (n - 1) (tot + 1) (dat @ [0xFF AND v])) s"
    by (subst read_fifo.simps) simp
  then show ?case
  proof (rule does_eq, intro does_rd_bind)
    fix v :: int and t assume "good t"
    from Suc.hyps(1) [OF n(2) this n(3)]
    show "does good trace (read_fifo P (n - 1) (tot + 1) (dat @ [0xFF AND v])) t
        (\<lambda>r es. \<exists>vs. Rd 0x90C v # es = map (Rd 0x90C) vs \<and> int (length vs) = n
           \<and> r = Inr (tot + n, dat @ map (\<lambda>v. 0xFF AND v) vs))"
    proof (rule does_weaken)
      fix r :: "exn + int \<times> int list" and es
      assume "\<exists>vs. es = map (Rd 0x90C) vs \<and> int (length vs) = n - 1
        \<and> r = Inr (tot + 1 + (n - 1), (dat @ [0xFF AND v]) @ map (\<lambda>v. 0xFF AND v) vs)"
      then obtain vs where "es = map (Rd 0x90C) vs" "int (length vs) = n - 1"
        "r = Inr (tot + n, dat @ map (\<lambda>v. 0xFF AND v) (v # vs))" by auto
      then show "\<exists>vs. Rd 0x90C v # es = map (Rd 0x90C) vs \<and> int (length vs) = n
           \<and> r = Inr (tot + n, dat @ map (\<lambda>v. 0xFF AND v) vs)"
        by (intro exI [where x = "v # vs"]) simp
    qed
  qed (use Suc.prems in auto)
qed

lemma read_tail_does:
  assumes "good s" "0 < n"
  shows "does good trace
     (py_bind (if j = (0 :: int) then say P completion_message else py_ret ()) (\<lambda>_.
      py_bind (read_fifo P n tot dat) (\<lambda>r. py_ret (j, r)))) s
     (\<lambda>r es. \<exists>vs. es = map (Rd 0x90C) vs \<and> int (length vs) = n
        \<and> r = Inr (j, (tot + n, dat @ map (\<lambda>v. 0xFF AND v) vs)))" (is "does _ _ _ _ ?Q")
proof -
  have rest: "does good trace (py_bind (read_fifo P n tot dat) (\<lambda>r. py_ret (j, r))) t ?Q" if "good t" for t
    using that assms(2) by (intro does_bind [OF read_fifo_does]) auto
  show ?thesis
  proof (cases "j = 0")
    case True
    with rest assms(1) show ?thesis by (simp add: does_say_bind)
  next
    case False
    with rest [OF assms(1)] show ?thesis by (simp add: py_bind_ret_left)
  qed
qed

lemma read_chunk_does:
  assumes "good s" "0 < n" "n \<le> 8"
  shows "does good trace
     (py_bind (iwrite P 4 0x914 4 n) (\<lambda>_.
      py_bind (iwrite P 4 0x908 4 (0x7F AND i2c_addr)) (\<lambda>_.
      py_bind (wait_chunk P i2c_timeout) (\<lambda>j.
      py_bind (if j = 0 then say P completion_message else py_ret ()) (\<lambda>_.
      py_bind (read_fifo P n tot dat) (\<lambda>r. py_ret (j, r))))))) s
     (\<lambda>r es. \<exists>j vs. r = Inr (j, (tot + n, dat @ map (\<lambda>v. 0xFF AND v) vs)) \<and> int (length vs) = n
        \<and> wrs es = chunk_writes i2c_addr n \<and> reads_of 0x90C es = vs \<and> (j = 0 \<longrightarrow> timed_out es))"
proof (intro does_wr_bind does_bind [OF wait_chunk_does] assms(1), goal_cases)
  case (10 x t y u j w es)
  then have es: "wrs es = []" "reads_of 0x90C es = []"
    using polls_wrs [of "0x910" es] polls_reads [of "0x910" es "0x90C"] by auto
  have "timed_out es" if "j = 0"
    using that 10 length_reads_of_polls [of "0x910" es] by (auto simp: timed_out_def)
  then show ?case
    using es by (intro does_weaken [OF read_tail_does [OF 10(3) assms(2)]])
      (auto simp: chunk_writes_def timed_out_def)
qed (use assms in \<open>auto simp: i2c_timeout_def\<close>)

lemma read_loop_step:
  assumes "0 < len"
  shows "read_loop P i2c_addr len False tot dat s =
    py_bind
     (py_bind (iwrite P 4 0x914 4 (if 8 < len then 8 else len)) (\<lambda>_.
      py_bind (iwrite P 4 0x908 4 (0x7F AND i2c_addr)) (\<lambda>_.
      py_bind (wait_chunk P i2c_timeout) (\<lambda>j.
      py_bind (if j = 0 then say P completion_message else py_ret ()) (\<lambda>_.
      py_bind (read_fifo P (if 8 < len then 8 else len) tot dat) (\<lambda>r. py_ret (j, r)))))))
     (\<lambda>x. read_loop P i2c_addr (if 8 < len then len - 8 else 0) (fst x = 0) (fst (snd x)) (snd (snd x))) s"
  using assms by (subst read_loop.simps) (simp add: py_bind_assoc py_bind_ret_left)

lemma read_loop_stop:
  assumes "\<not> (0 < len \<and> \<not> error_flag)"
  shows "read_loop P i2c_addr len error_flag tot dat s = py_ret (tot, dat) s"
  by (subst read_loop.simps) (simp only: assms if_False)

lemma read_loop_does:
  assumes "good s"
  shows "does good trace (read_loop P i2c_addr len False tot dat) s (read_post i2c_addr len tot dat)"
  using assms
proof (induction "nat len" arbitrary: len tot dat s rule: less_induct)
  case less
  show ?case
  proof (cases "0 < len")
    case False
    with less.prems have "does good trace (py_ret (tot, dat)) s (read_post i2c_addr len tot dat)"
      by (simp add: read_post_def chunk_sizes.simps [of len])
    with False show ?thesis by (intro does_eq [OF read_loop_stop]) auto
  next
    case True
    let ?n = "if 8 < len then 8 else len" and ?l = "if 8 < len then len - 8 else 0"
    have n: "0 < ?n" "?n \<le> 8" using True by auto
    show ?thesis
    proof (rule does_eq [OF read_loop_step [OF True]], rule does_bind [OF read_chunk_does [OF less.prems n]], goal_cases)
      case (1 x t es)
      then obtain j vs where x: "x = (j, (tot + ?n, dat @ map (\<lambda>v. 0xFF AND v) vs))" "int (length vs) = ?n"
        "wrs es = chunk_writes i2c_addr ?n" "reads_of 0x90C es = vs" "j = 0 \<longrightarrow> timed_out es"
        by auto
      show ?case
      proof (cases "j = 0")
        case True
        have "read_post i2c_addr len tot dat (Inr (snd x)) (es @ [])"
          using x True \<open>0 < len\<close> by (intro read_post_Cons [where j = True and n = ?n]) auto
        then show ?thesis
          using x(1) True 1(1) by (intro does_eq [OF read_loop_stop]) auto
      next
        case False
        have lt: "nat ?l < nat len" using \<open>0 < len\<close> by auto
        have "does good trace (read_loop P i2c_addr ?l False (tot + ?n) (dat @ map (\<lambda>v. 0xFF AND v) vs)) t
            (\<lambda>r fs. read_post i2c_addr len tot dat r (es @ fs))"
          using x(2-4) \<open>0 < len\<close>
          by (intro does_weaken [OF less.hyps [OF lt 1(1)]] read_post_Cons [where j = False and vs = vs]) auto
        with x(1) False show ?thesis by simp
      qed
    qed auto
  qed
qed

text \<open>The address phase of \<open>i2c_read\<close>, up to the wait for its completion.\<close>

lemma address_phase_does:
  assumes "good s"
  shows "does good trace
    (py_seq (shut_eeprom_init P)
    (py_seq (iwrite P 4 0x900 4 0x384E)
    (py_seq (iread P 4 0x900 4)
    (py_seq (wait_idle P i2c_timeout)
    (py_seq (iread P 4 0x910 4)
    (py_seq (iwrite P 4 0x90C 4 (0xFF AND offset))
    (py_seq (iwrite P 4 0x908 4 (0x7F AND i2c_addr))
            (wait_done P i2c_timeout)))))))) s
    (\<lambda>r es. address_post i2c_addr offset es
       \<and> (r = Inl SystemExit \<and> (\<exists>v \<in> set (reads_of 0x910 es). nack_st v)
          \<or> r = Inr 0 \<and> timed_out es
          \<or> (\<exists>k > 0. r = Inr k) \<and> (\<exists>v \<in> set (reads_of 0x910 es). done_st v)))"
proof (intro does_shut_seq does_wr_seq does_rd_seq does_idle_seq assms does_weaken [OF wait_done_does], goal_cases)
  case (20 lb t x t1 v t2 t3 es w t4 y t5 z t6 r fs)
  let ?rest = "map (\<lambda>(a, v). Wr a v) (init_writes lb) @ Wr 0x900 0x384E # Rd 0x900 v # es
      @ Rd 0x910 w # Wr 0x90C (0xFF AND offset) # Wr 0x908 (0x7F AND i2c_addr) # fs"
  from 20 have p: "polls 0x904 es" "polls 0x910 fs" by auto
  have w: "wrs ?rest = address_writes i2c_addr offset lb"
    "reads_of 0x90C ?rest = []" "reads_of 0x910 ?rest = w # reads_of 0x910 fs"
    using polls_wrs [OF p(1)] polls_wrs [OF p(2)] polls_reads [OF p(1)] polls_reads [OF p(2)] by (simp_all add: address_writes_def)
  have ap: "address_post i2c_addr offset (Rd 0x804 lb # ?rest)"
    using w(1,2) unfolding address_post_def by blast
  have r: "reads_of 0x910 (Rd 0x804 lb # ?rest) = w # reads_of 0x910 fs"
    using w(3) by simp
  have to: "timed_out (Rd 0x804 lb # ?rest)"
    if "int (length fs) = i2c_timeout" "\<forall>v \<in> set (reads_of 0x910 fs). \<not> done_st v"
    using that length_reads_of_polls [OF p(2)] unfolding timed_out_def r by simp
  have "r = Inl SystemExit \<and> (\<exists>v \<in> set (reads_of 0x910 (Rd 0x804 lb # ?rest)). nack_st v)
      \<or> r = Inr 0 \<and> timed_out (Rd 0x804 lb # ?rest)
      \<or> (\<exists>k > 0. r = Inr k) \<and> (\<exists>v \<in> set (reads_of 0x910 (Rd 0x804 lb # ?rest)). done_st v)"
    using 20(15) to unfolding r by auto
  with ap show ?case by simp
qed (auto simp: i2c_timeout_def)

lemma i2c_read_does:
  assumes "good s"
  shows "does good trace (i2c_read P i2c_addr offset len dat) s (i2c_read_post i2c_addr offset len dat)"
proof -
  let ?F = "\<lambda>i. py_seq (if i = (0 :: int) then py_seq (say P completion_message) (py_raise SystemExit) else py_ret ())
    (py_seq (iwrite P 4 0x900 4 0x384F) (read_loop P i2c_addr len False 0 dat))"
  have "does good trace (?F i) t (\<lambda>r fs. i2c_read_post i2c_addr offset len dat r (es @ fs))"
    if "good t" and ap: "address_post i2c_addr offset es"
      and o: "i = 0 \<and> timed_out es \<or> 0 < i \<and> (\<exists>v \<in> set (reads_of 0x910 es). done_st v)" for i t es
  proof (cases "i = 0")
    case True
    have "?F 0 = py_seq (say P completion_message) (py_raise SystemExit)"
      by (rule ext) (simp add: py_seq_def py_bind_assoc, simp add: py_bind_def split: prod.splits sum.splits)
    with True that show ?thesis
      by (auto simp: i2c_read_post_def intro!: does_say_seq does_raise)
  next
    case False
    have "does good trace (py_seq (iwrite P 4 0x900 4 0x384F) (read_loop P i2c_addr len False 0 dat)) t
        (\<lambda>r fs. i2c_read_post i2c_addr offset len dat r (es @ fs))"
    proof (intro does_wr_seq that(1) does_weaken [OF read_loop_does])
      fix r fs assume "read_post i2c_addr len 0 dat r fs"
      with ap o False show "i2c_read_post i2c_addr offset len dat r (es @ Wr 0x900 0x384F # fs)"
        unfolding i2c_read_post_def by blast
    qed auto
    with False show ?thesis by (simp add: py_seq_def py_bind_ret_left)
  qed
  then show ?thesis
    unfolding i2c_read_def py_seq_bind
    by (intro does_bind [OF address_phase_does [OF assms]]) (auto simp: i2c_read_post_def)
qed

text \<open>Writing: one burst sends the bytes up to the FIFO limit, the page boundary or the end.\<close>

lemma write_burst_does:
  assumes "good s" "0 \<le> i" "0 \<le> tot" "0 \<le> len" "tot + len \<le> int (length dat)"
    and "n = min i (min len (8 - off mod 8))"
  shows "does good trace (write_burst P dat i tot off len) s
    (\<lambda>r es. r = Inr (tot + n, off + n, len - n)
       \<and> es = map (\<lambda>d. Wr 0x90C (0xFF AND d)) (take (nat n) (drop (nat tot) dat)))"
  using assms
proof (induction "nat i" arbitrary: i tot off len n s)
  case 0
  have n: "n = 0" using 0 pos_mod_bound [of 8 off] by auto
  have "\<not> 0 < i" using 0(1) by simp
  then have "write_burst P dat i tot off len s = py_ret (tot, off, len) s"
    by (subst write_burst.simps) simp
  then show ?case by (rule does_eq) (simp add: 0(2) n)
next
  case (Suc m)
  have i: "0 < i" "m = nat (i - 1)" "0 \<le> i - 1" using Suc.hyps(2) by linarith+
  show ?case
  proof (cases "0 < len")
    case False
    have n: "n = 0" using False Suc.prems pos_mod_bound [of 8 off] by auto
    from False have "write_burst P dat i tot off len s = py_ret (tot, off, len) s"
      by (subst write_burst.simps) simp
    then show ?thesis by (rule does_eq) (simp add: Suc.prems(1) n)
  next
    case True
    define d where "d = dat ! nat tot"
    have tot: "0 \<le> tot" "tot < int (length dat)" using Suc.prems True by auto
    let ?body = "py_bind (iwrite P 4 0x90C 4 (0xFF AND d)) (\<lambda>_.
          if (off + 1) AND 7 = 0 then py_ret (tot + 1, off + 1, len - 1)
          else write_burst P dat (i - 1) (tot + 1) (off + 1) (len - 1))"
    have step: "write_burst P dat i tot off len s = ?body s"
      using i True tot
      by (subst write_burst.simps) (auto simp: py_bind_def d_def split: prod.splits sum.splits)
    have first: "take (nat k) (drop (nat tot) dat) = d # take (nat (k - 1)) (drop (nat (tot + 1)) dat)" if "0 < k" for k
    proof -
      have "drop (nat tot) dat = d # drop (nat (tot + 1)) dat"
        using tot by (simp add: d_def Cons_nth_drop_Suc nat_add_distrib)
      moreover have "nat k = Suc (nat (k - 1))" using that by simp
      ultimately show ?thesis by simp
    qed
    have n: "0 < n" using i True Suc.prems(6) pos_mod_bound [of 8 off] by simp
    have "does good trace ?body s (\<lambda>r es. r = Inr (tot + n, off + n, len - n)
       \<and> es = map (\<lambda>d. Wr 0x90C (0xFF AND d)) (take (nat n) (drop (nat tot) dat)))"
    proof (intro does_wr_bind, goal_cases)
      case (5 x t)
      show ?case
      proof (cases "(off + 1) AND 7 = 0")
        case True
        then have "off mod 8 = 7" by (rule page_step)
        then have n1: "n = 1" using i(1) \<open>0 < len\<close> Suc.prems(6) by linarith
        show ?thesis using True 5 first [of 1] unfolding n1 by simp
      next
        case False
        then have "(off + 1) mod 8 = off mod 8 + 1" by (rule page_step)
        with Suc.prems(6) have n1: "n - 1 = min (i - 1) (min (len - 1) (8 - (off + 1) mod 8))"
          by linarith
        have "does good trace (write_burst P dat (i - 1) (tot + 1) (off + 1) (len - 1)) t
            (\<lambda>r fs. r = Inr (tot + n, off + n, len - n)
               \<and> Wr 0x90C (0xFF AND d) # fs = map (\<lambda>d. Wr 0x90C (0xFF AND d)) (take (nat n) (drop (nat tot) dat)))"
          using Suc.prems(3,5) True 5 by (intro does_weaken [OF Suc.hyps(1) [OF i(2) _ i(3) _ _ _ n1]])
            (auto simp: first [OF n])
        with False show ?thesis by simp
      qed
    qed (use Suc.prems(1) byte_range in auto)
    with step show ?thesis by (rule does_eq [where m = "write_burst P dat i tot off len" and m' = ?body and s = s])
  qed
qed

lemma burst_phase_does:
  assumes "good s" "0 \<le> tot" "0 < len" "tot + len \<le> int (length dat)"
    and n: "n = min 6 (min len (8 - off mod 8))"
  shows "does good trace
     (py_bind (iwrite P 4 0x90C 4 (0xFF AND off)) (\<lambda>_.
      py_bind (write_burst P dat 6 tot off len) (\<lambda>r.
      py_bind (iwrite P 4 0x908 4 (0x7F AND i2c_addr)) (\<lambda>_.
      py_bind (wait_burst P i2c_timeout) (\<lambda>nack. py_ret (nack, r)))))) s
     (\<lambda>r es. \<exists>nack. r = Inr (nack, (tot + n, off + n, len - n))
        \<and> wrs es = burst_writes i2c_addr (off, map (\<lambda>d. 0xFF AND d) (take (nat n) (drop (nat tot) dat)))
        \<and> (nack \<longrightarrow> (\<exists>v \<in> set (reads_of 0x910 es). nack_st v)))"
proof (intro does_wr_bind does_bind [OF write_burst_does [OF _ _ _ _ _ n]]
    does_bind [OF wait_burst_does], goal_cases)
  case (15 x t r u es1 y w nack v es2)
  have "wrs es1 = map (\<lambda>d. (0x90C, 0xFF AND d)) (take (nat n) (drop (nat tot) dat))"
    using 15(3) by simp
  with 15 show ?case by (auto simp: burst_writes_def comp_def)
qed (use assms(1-4) byte_range in simp_all)

lemma write_loop_step:
  assumes "0 < len"
  shows "write_loop P i2c_addr dat tot off len s = py_bind
     (py_bind (iwrite P 4 0x90C 4 (0xFF AND off)) (\<lambda>_.
      py_bind (write_burst P dat 6 tot off len) (\<lambda>r.
      py_bind (iwrite P 4 0x908 4 (0x7F AND i2c_addr)) (\<lambda>_.
      py_bind (wait_burst P i2c_timeout) (\<lambda>nack. py_ret (nack, r))))))
     (\<lambda>x. if fst x then py_ret (fst (snd x))
       else write_loop P i2c_addr dat (fst (snd x)) (fst (snd (snd x))) (snd (snd (snd x)))) s"
  using assms
  by (subst write_loop.simps) (auto simp: py_bind_def split: prod.splits sum.splits)

lemma write_loop_stop: "\<not> 0 < len \<Longrightarrow> write_loop P i2c_addr dat tot off len s = py_ret tot s"
  by (subst write_loop.simps) simp

lemma write_loop_does:
  assumes "good s" "0 \<le> tot" "0 \<le> len" "tot + len \<le> int (length dat)"
  shows "does good trace (write_loop P i2c_addr dat tot off len) s
    (write_post i2c_addr (bursts off (map (\<lambda>d. 0xFF AND d) (take (nat len) (drop (nat tot) dat)))) tot)"
  using assms
proof (induction "nat len" arbitrary: len tot off s rule: less_induct)
  case less
  define ds where "ds = map (\<lambda>d. 0xFF AND d) (take (nat len) (drop (nat tot) dat))"
  have lds: "int (length ds) = len" using less.prems by (auto simp: ds_def min_def)
  show ?case
  proof (cases "0 < len")
    case False
    then have "does good trace (py_ret tot) s (write_post i2c_addr (bursts off []) tot)"
      using less.prems by (simp add: write_post_def)
    with False show ?thesis by (intro does_eq [OF write_loop_stop]) auto
  next
    case True
    define n where "n = min 6 (min len (8 - off mod 8))"
    have n: "0 < n" "n \<le> len" using True pos_mod_bound [of 8 off] unfolding n_def by linarith+
    have ds: "bursts off ds = (off, take (nat n) ds) # bursts (off + n) (drop (nat n) ds)"
      using True lds n_def by (intro bursts_step) auto
    have tl: "take (nat n) ds = map (\<lambda>d. 0xFF AND d) (take (nat n) (drop (nat tot) dat))"
      "drop (nat n) ds = map (\<lambda>d. 0xFF AND d) (take (nat (len - n)) (drop (nat (tot + n)) dat))"
      using n less.prems(2) by (auto simp: ds_def take_map drop_map drop_take nat_diff_distrib nat_add_distrib
        add.commute min_absorb1 nat_mono)
    have ln: "int (length (take (nat n) ds)) = n" using n lds by simp
    show ?thesis
      unfolding ds_def [symmetric]
    proof (rule does_eq [OF write_loop_step [OF True]],
        rule does_bind [OF burst_phase_does [OF less.prems(1,2) True less.prems(4) n_def]], goal_cases)
      case (1 x t es)
      then obtain nack where x: "x = (nack, (tot + n, off + n, len - n))"
        "wrs es = burst_writes i2c_addr (off, take (nat n) ds)"
        "nack \<longrightarrow> (\<exists>v \<in> set (reads_of 0x910 es). nack_st v)"
        by (auto simp: tl)
      show ?case
      proof (cases nack)
        case True
        with x ln 1(1) show ?thesis
          unfolding ds by (auto intro!: write_post_Cons [where nack = True, of es _ _ _ _ _ "[]", simplified])
      next
        case False
        have lt: "nat (len - n) < nat len" using n by simp
        have "does good trace (write_loop P i2c_addr dat (tot + n) (off + n) (len - n)) t
            (\<lambda>r fs. write_post i2c_addr (bursts off ds) tot r (es @ fs))"
          using less.prems n x(2) ln unfolding ds tl(2)
          by (intro does_weaken [OF less.hyps [OF lt 1(1)]] write_post_Cons [where nack = False]) auto
        with x(1) False show ?thesis by simp
      qed
    qed auto
  qed
qed

lemma i2c_write_does:
  assumes "good s" "0 \<le> len" "len \<le> int (length dat)"
  shows "does good trace (i2c_write P i2c_addr offset len dat) s
    (i2c_write_post i2c_addr offset (map (\<lambda>d. 0xFF AND d) (take (nat len) dat)))"
  unfolding i2c_write_def
proof (intro does_shut_seq does_wr_seq does_rd_seq does_idle_seq does_weaken [OF write_loop_does] assms(1), goal_cases)
  case (16 lb t v t1 w t2 x t3 y t4 t5 es r fs)
  let ?es1 = "map (\<lambda>(a, v). Wr a v) (init_writes lb)
    @ Rd 0x910 v # Rd 0x904 w # Wr 0x900 0x384E # Rd 0x900 y # es"
  have "wrs ?es1 = init_writes lb @ [(0x900, 0x384E)]"
    using polls_wrs [of "0x904" es] 16 by simp
  then show ?case
    by (intro i2c_write_postI [where lb = lb and ?es1.0 = ?es1 and ?es2.0 = fs]) (use 16 in simp_all)
qed (use assms in auto)

end

end
