(* ===== verification/Driver.thy ===== *)
theory Driver
  imports Prelude
begin

text \<open>
  The kernel side of the device interface (sw/gnurabbit/kernel/rawrabbit.h and rawrabbit.c):
  the driver's state, the probing of a PCI device, the word and block accesses to the BAR areas
  and to the DMA buffer, the interrupt line and the ioctl dispatch. It is what the methods of
  the Python class \<open>Gennum\<close> end up executing.

  Hardware and kernel services are not part of the sources; they are the fields of the
  environment \<open>kenv\<close>, an argument of every definition that uses them. The device is an
  arbitrary function from the history of accesses made so far to the value the next read
  returns, so every statement below holds for any deterministic device. The history is the
  field \<open>mmio\<close> of the kernel state. A pointer into a remapped BAR is the index of the BAR and
  an offset. Addresses and sizes are natural numbers with their masks written out; data bytes
  are numbers below 256. Spin locks are left out: the model runs one call at a time.
\<close>

unbundle bit_operations_syntax

section \<open>Constants and data\<close>

definition RR_DEVSEL_UNUSED :: nat where "RR_DEVSEL_UNUSED = 0xffff"
definition RR_BAR_BUF :: nat where "RR_BAR_BUF = 0xc0000000"
definition RR_PLIST_SIZE :: nat where "RR_PLIST_SIZE = 4096"
definition RR_FLAG_REGISTERED :: nat where "RR_FLAG_REGISTERED = 0x00000001"
definition RR_FLAG_IRQDISABLE :: nat where "RR_FLAG_IRQDISABLE = 0x00000002"
definition RR_FLAG_IRQREQUEST :: nat where "RR_FLAG_IRQREQUEST = 0x00000002"

text \<open>Error numbers of the system.\<close>

abbreviation (input) "ENOENT \<equiv> 2 :: int"
abbreviation (input) "EIO \<equiv> 5 :: int"
abbreviation (input) "EBADF \<equiv> 9 :: int"
abbreviation (input) "EAGAIN \<equiv> 11 :: int"
abbreviation (input) "EBUSY \<equiv> 16 :: int"
abbreviation (input) "ENODEV \<equiv> 19 :: int"
abbreviation (input) "EINVAL \<equiv> 22 :: int"
abbreviation (input) "ENOSPC \<equiv> 28 :: int"
abbreviation (input) "ENOMEDIUM \<equiv> 123 :: int"
abbreviation (input) "ERESTARTSYS \<equiv> 512 :: int"
abbreviation (input) "NSEC_PER_SEC \<equiv> 1000000000 :: int"

text \<open>\<open>struct rr_devsel\<close>: six 16-bit fields.\<close>

record rr_devsel =
  vendor :: nat
  device :: nat
  subvendor :: nat
  subdevice :: nat
  bus :: nat
  devfn :: nat

text \<open>\<open>struct rr_iocmd\<close>: two 32-bit fields and the union, as the eight bytes it occupies.\<close>

record rr_iocmd =
  address :: nat
  datasize :: nat
  data :: "nat list"

definition data8 :: "rr_iocmd \<Rightarrow> nat" where "data8 c = le_dec (take 1 (data c))"
definition data16 :: "rr_iocmd \<Rightarrow> nat" where "data16 c = le_dec (take 2 (data c))"
definition data32 :: "rr_iocmd \<Rightarrow> nat" where "data32 c = le_dec (take 4 (data c))"
definition data64 :: "rr_iocmd \<Rightarrow> nat" where "data64 c = le_dec (take 8 (data c))"

text \<open>Storing an \<open>n\<close>-byte member of the union leaves the other bytes alone.\<close>

definition set_data :: "nat \<Rightarrow> nat \<Rightarrow> rr_iocmd \<Rightarrow> rr_iocmd" where
  "set_data n v c = c\<lparr>data := le_enc n v @ drop n (data c)\<rparr>"

record resource =
  r_start :: nat
  r_end :: nat
  r_mem :: bool
  r_io :: bool

record pci_dev =
  p_vendor :: nat
  p_device :: nat
  p_subvendor :: nat
  p_subdevice :: nat
  p_bus :: nat
  p_devfn :: nat
  p_irq :: nat
  p_res :: "nat \<Rightarrow> resource"

text \<open>\<open>struct pci_device_id\<close>; \<open>None\<close> stands for \<open>PCI_ANY_ID\<close>.\<close>

record pci_id =
  id_vendor :: nat
  id_device :: nat
  id_subvendor :: "nat option"
  id_subdevice :: "nat option"

text \<open>One access to a device: BAR index, offset, bytes, value; or an I/O port, bytes, value.\<close>

datatype mmio =
    MemR nat nat nat nat
  | MemW nat nat nat nat
  | BlkR nat nat "nat list"
  | BlkW nat nat "nat list"
  | PioR nat nat nat
  | PioW nat nat nat

datatype wait_outcome = Wait_Irq | Wait_Signal | Wait_Forever

record kenv =
  hw_mem :: "mmio list \<Rightarrow> nat \<Rightarrow> nat \<Rightarrow> nat \<Rightarrow> nat"
  hw_blk :: "mmio list \<Rightarrow> nat \<Rightarrow> nat \<Rightarrow> nat \<Rightarrow> nat list"
  hw_pio :: "mmio list \<Rightarrow> nat \<Rightarrow> nat \<Rightarrow> nat"
  pci_matches :: "pci_id \<Rightarrow> pci_dev list"
  pci_enable :: "pci_dev \<Rightarrow> int"
  pci_register :: "pci_id \<Rightarrow> int"
  irq_request :: "pci_dev \<Rightarrow> int"
  irq_wait :: "mmio list \<Rightarrow> wait_outcome"
  clock :: "mmio list \<Rightarrow> int \<times> int"
  pfn :: "nat \<Rightarrow> nat"

text \<open>
  \<open>struct rr_dev\<close> with what the kernel keeps for it: the driver's registered id, the access
  history, the disable depth of the interrupt line, whether a handler is installed, whether an
  unbalanced \<open>enable_irq\<close> was seen, the open file descriptors with their positions, and
  whether the device node and the shared library exist.
\<close>

record kernel =
  devsel :: rr_devsel
  id_table :: pci_id
  pdev :: "pci_dev option"
  dmabuf :: "nat list"
  bufsize :: nat
  irqtime :: "int \<times> int"
  irqcount :: nat
  completed :: bool
  area :: "nat \<Rightarrow> resource option"
  remap :: "nat \<Rightarrow> bool"
  flags :: nat
  usecount :: int
  mmio :: "mmio list"
  irq_depth :: nat
  irq_held :: bool
  irq_unbalanced :: bool
  fdtab :: "int \<Rightarrow> int option"
  next_fd :: int
  node :: bool
  shlib :: bool

section \<open>Addresses\<close>

definition RR_GET_BAR :: "nat \<Rightarrow> nat" where "RR_GET_BAR x = drop_bit 28 x"
definition RR_GET_OFF :: "nat \<Rightarrow> nat" where "RR_GET_OFF x = x AND 0x0fffffff"

text \<open>The local variable \<open>int bar\<close> keeps the low 32 bits.\<close>

definition rr_is_valid_bar :: "nat \<Rightarrow> bool" where
  "rr_is_valid_bar a = (let bar = take_bit 32 (RR_GET_BAR a)
                        in bar = 0 \<or> bar = 2 \<or> bar = 4 \<or> bar = 0x0c)"

definition rr_is_dmabuf_bar :: "nat \<Rightarrow> bool" where
  "rr_is_dmabuf_bar a = (take_bit 32 (RR_GET_BAR a) = 0x0c)"

lemma RR_GET_BAR_div: "RR_GET_BAR x = x div 2 ^ 28"
  by (simp add: RR_GET_BAR_def drop_bit_eq_div)

lemma RR_GET_OFF_mod: "RR_GET_OFF x = x mod 2 ^ 28"
proof -
  have "(0x0fffffff :: nat) = mask 28" by (simp add: mask_eq_exp_minus_1)
  then show ?thesis
    by (simp only: RR_GET_OFF_def take_bit_eq_mask [symmetric] take_bit_eq_mod)
qed

lemma RR_GET_BAR_32: "x < 2 ^ 32 \<Longrightarrow> take_bit 32 (RR_GET_BAR x) = RR_GET_BAR x"
  by (simp add: RR_GET_BAR_div take_bit_nat_eq_self_iff less_mult_imp_div_less)

text \<open>The distance between two BAR bases, \<open>2^28\<close>. Composing a base with an offset below it is
  undone by the two macros.\<close>

abbreviation (input) bar_span :: nat where "bar_span \<equiv> 0x10000000"
abbreviation (input) bar_span_int :: int where "bar_span_int \<equiv> 0x10000000"

lemma bar_off_split:
  assumes "off < bar_span"
  shows "RR_GET_BAR (b * bar_span + off) = b" and "RR_GET_OFF (b * bar_span + off) = off"
  using assms by (simp_all add: RR_GET_BAR_div RR_GET_OFF_mod)

section \<open>Probing\<close>

definition has_flag :: "nat \<Rightarrow> kernel \<Rightarrow> bool" where
  "has_flag f k = (flags k AND f \<noteq> 0)"

definition set_flag :: "nat \<Rightarrow> kernel \<Rightarrow> kernel" where
  "set_flag f k = k\<lparr>flags := flags k OR f\<rparr>"

text \<open>\<open>flags &= ~f\<close> for a flag that is a single bit.\<close>

definition clear_flag :: "nat \<Rightarrow> kernel \<Rightarrow> kernel" where
  "clear_flag f k = k\<lparr>flags := flags k - (flags k AND f)\<rparr>"

text \<open>The kernel's \<open>enable_irq\<close> and \<open>disable_irq_nosync\<close>: nested; one enable too many is
  only reported.\<close>

definition enable_irq :: "kernel \<Rightarrow> kernel" where
  "enable_irq k = (if irq_depth k = 0 then k\<lparr>irq_unbalanced := True\<rparr>
                   else k\<lparr>irq_depth := irq_depth k - 1\<rparr>)"

definition disable_irq_nosync :: "kernel \<Rightarrow> kernel" where
  "disable_irq_nosync k = k\<lparr>irq_depth := irq_depth k + 1\<rparr>"

definition rr_interrupt :: "kenv \<Rightarrow> kernel \<Rightarrow> kernel" where
  "rr_interrupt env k =
     disable_irq_nosync
       (set_flag RR_FLAG_IRQDISABLE
         (k\<lparr>irqtime := clock env (mmio k), irqcount := irqcount k + 1\<rparr>))"

definition rr_fill_table :: "kernel \<Rightarrow> kernel" where
  "rr_fill_table k =
     (let d = devsel k; t = id_table k;
          t1 = (if subvendor d = RR_DEVSEL_UNUSED
                then t\<lparr>id_subvendor := None, id_subdevice := None\<rparr>
                else t\<lparr>id_subvendor := Some (subvendor d), id_subdevice := Some (subdevice d)\<rparr>)
      in k\<lparr>id_table := t1\<lparr>id_vendor := vendor d, id_device := device d\<rparr>\<rparr>)"

definition rr_record_bar :: "pci_dev \<Rightarrow> nat \<Rightarrow> kernel \<Rightarrow> kernel" where
  "rr_record_bar p i k =
     (let r = p_res p (2 * i)
      in if r_start r = 0 then k
         else let k1 = k\<lparr>area := (area k)(i := Some r)\<rparr>
              in if r_mem r then k1\<lparr>remap := (remap k1)(i := True)\<rparr> else k1)"

definition rr_probe_irq :: "kenv \<Rightarrow> pci_dev \<Rightarrow> kernel \<Rightarrow> kernel" where
  "rr_probe_irq env p k =
     (if 0 < p_irq p
      then if irq_request env p < 0 then k
           else set_flag RR_FLAG_IRQREQUEST (k\<lparr>irq_held := True\<rparr>)
      else k)"

definition rr_pciprobe :: "kenv \<Rightarrow> pci_dev \<Rightarrow> kernel \<Rightarrow> int \<times> kernel" where
  "rr_pciprobe env p k =
     (if pdev k \<noteq> None then (- EBUSY, k)
      else if bus (devsel k) \<noteq> RR_DEVSEL_UNUSED
              \<and> (bus (devsel k) \<noteq> p_bus p \<or> devfn (devsel k) \<noteq> p_devfn p) then (- ENODEV, k)
      else if pci_enable env p < 0 then (pci_enable env p, k)
      else let k1 = rr_probe_irq env p (k\<lparr>pdev := Some p\<rparr>);
               k2 = k1\<lparr>completed := True\<rparr>
           in (0, rr_record_bar p 2 (rr_record_bar p 1 (rr_record_bar p 0 k2))))"

definition rr_pciremove :: "kernel \<Rightarrow> kernel" where
  "rr_pciremove k =
     (let k1 = (if has_flag RR_FLAG_IRQREQUEST k
                then let k0 = clear_flag RR_FLAG_IRQREQUEST (k\<lparr>irq_held := False\<rparr>)
                     in if has_flag RR_FLAG_IRQDISABLE k0
                        then enable_irq (clear_flag RR_FLAG_IRQDISABLE k0) else k0
                else k)
      in k1\<lparr>remap := (\<lambda>_. False), area := (\<lambda>_. None), pdev := None\<rparr>)"

text \<open>The PCI core offers every device that matches the id table to the probe function.\<close>

fun probe_all :: "kenv \<Rightarrow> pci_dev list \<Rightarrow> kernel \<Rightarrow> kernel" where
  "probe_all env [] k = k"
| "probe_all env (p # ps) k = probe_all env ps (snd (rr_pciprobe env p k))"

definition pci_register_driver :: "kenv \<Rightarrow> kernel \<Rightarrow> int \<times> kernel" where
  "pci_register_driver env k =
     (let ret = pci_register env (id_table k)
      in if ret = 0 then (0, probe_all env (pci_matches env (id_table k)) k) else (ret, k))"

definition pci_unregister_driver :: "kernel \<Rightarrow> kernel" where
  "pci_unregister_driver k = (if pdev k = None then k else rr_pciremove k)"

text \<open>\<open>wait_for_completion_timeout\<close> is 0 on timeout and positive once completed.\<close>

definition rr_fill_table_and_probe :: "kenv \<Rightarrow> kernel \<Rightarrow> int \<times> kernel" where
  "rr_fill_table_and_probe env k =
     (let k1 = (if has_flag RR_FLAG_REGISTERED k
                then clear_flag RR_FLAG_REGISTERED (pci_unregister_driver k) else k);
          k2 = (rr_fill_table k1)\<lparr>completed := False\<rparr>;
          (ret, k3) = pci_register_driver env k2;
          k4 = (if ret = 0 then set_flag RR_FLAG_REGISTERED k3 else k3)
      in if ret < 0 then (ret, k4) else (if completed k4 then 1 else 0, k4))"

section \<open>Word accesses\<close>

text \<open>The \<open>switch\<close> on the data size that every access helper has: which sizes exist and
  which offsets they may be used at.\<close>

definition size_check :: "nat \<Rightarrow> nat \<Rightarrow> int" where
  "size_check ds off =
     (if ds = 1 then 0
      else if ds = 2 then (if off AND 1 \<noteq> 0 then - EIO else 0)
      else if ds = 4 then (if off AND 3 \<noteq> 0 then - EIO else 0)
      else if ds = 8 then (if off AND 7 \<noteq> 0 then - EIO else 0)
      else - EINVAL)"

definition r_size :: "resource \<Rightarrow> nat" where
  "r_size r = r_end r - r_start r + 1"

definition rr_do_read_mem :: "kenv \<Rightarrow> resource \<Rightarrow> rr_iocmd \<Rightarrow> kernel \<Rightarrow> int \<times> rr_iocmd \<times> kernel" where
  "rr_do_read_mem env r c k =
     (let bar = RR_GET_BAR (address c) div 2; off = RR_GET_OFF (address c); n = datasize c
      in if r_size r \<le> off then (- ENOMEDIUM, c, k)
         else if size_check n off \<noteq> 0 then (size_check n off, c, k)
         else let v = hw_mem env (mmio k) bar off n mod 256 ^ n
              in (0, set_data n v c, k\<lparr>mmio := mmio k @ [MemR bar off n v]\<rparr>))"

definition rr_do_write_mem :: "resource \<Rightarrow> rr_iocmd \<Rightarrow> kernel \<Rightarrow> int \<times> rr_iocmd \<times> kernel" where
  "rr_do_write_mem r c k =
     (let bar = RR_GET_BAR (address c) div 2; off = RR_GET_OFF (address c); n = datasize c
      in if r_size r \<le> off then (- ENOMEDIUM, c, k)
         else if size_check n off \<noteq> 0 then (size_check n off, c, k)
         else (0, c, k\<lparr>mmio := mmio k @ [MemW bar off n (le_dec (take n (data c)))]\<rparr>))"

text \<open>I/O ports: an 8-byte access is two 4-byte ones, low half first.\<close>

definition rr_do_read_io :: "kenv \<Rightarrow> resource \<Rightarrow> rr_iocmd \<Rightarrow> kernel \<Rightarrow> int \<times> rr_iocmd \<times> kernel" where
  "rr_do_read_io env r c k =
     (let off = RR_GET_OFF (address c); n = datasize c; port = r_start r + off
      in if r_size r \<le> off then (- ENOMEDIUM, c, k)
         else if size_check n off \<noteq> 0 then (size_check n off, c, k)
         else if n = 8 then
           let lo = hw_pio env (mmio k) port 4 mod 256 ^ 4;
               t = mmio k @ [PioR port 4 lo];
               hi = hw_pio env t (port + 4) 4 mod 256 ^ 4
           in (0, set_data 8 (lo + hi * 2 ^ 32) c, k\<lparr>mmio := t @ [PioR (port + 4) 4 hi]\<rparr>)
         else let v = hw_pio env (mmio k) port n mod 256 ^ n
              in (0, set_data n v c, k\<lparr>mmio := mmio k @ [PioR port n v]\<rparr>))"

definition rr_do_write_io :: "resource \<Rightarrow> rr_iocmd \<Rightarrow> kernel \<Rightarrow> int \<times> rr_iocmd \<times> kernel" where
  "rr_do_write_io r c k =
     (let off = RR_GET_OFF (address c); n = datasize c; port = r_start r + off
      in if r_size r \<le> off then (- ENOMEDIUM, c, k)
         else if size_check n off \<noteq> 0 then (size_check n off, c, k)
         else if n = 8 then
           (0, c, k\<lparr>mmio := mmio k @ [PioW port 4 (data64 c mod 2 ^ 32),
                                      PioW (port + 4) 4 (data64 c div 2 ^ 32)]\<rparr>)
         else (0, c, k\<lparr>mmio := mmio k @ [PioW port n (le_dec (take n (data c)))]\<rparr>))"

definition rr_do_iocmd_dmabuf :: "bool \<Rightarrow> rr_iocmd \<Rightarrow> kernel \<Rightarrow> int \<times> rr_iocmd \<times> kernel" where
  "rr_do_iocmd_dmabuf wr c k =
     (let off = RR_GET_OFF (address c); n = datasize c
      in if bufsize k \<le> off then (- ENOMEDIUM, c, k)
         else if size_check n off \<noteq> 0 then (size_check n off, c, k)
         else if wr then (0, c, k\<lparr>dmabuf := write_run (dmabuf k) off (take n (data c))\<rparr>)
         else (0, c\<lparr>data := read_run (dmabuf k) off n @ drop n (data c)\<rparr>, k))"

definition rr_do_iocmd :: "kenv \<Rightarrow> bool \<Rightarrow> rr_iocmd \<Rightarrow> kernel \<Rightarrow> int \<times> rr_iocmd \<times> kernel" where
  "rr_do_iocmd env wr c k =
     (let bar = RR_GET_BAR (address c)
      in if \<not> rr_is_valid_bar (address c) then (- EINVAL, c, k)
         else if rr_is_dmabuf_bar (address c) then rr_do_iocmd_dmabuf wr c k
         else case area k (bar div 2) of
             None \<Rightarrow> (- ENODEV, c, k)
           | Some r \<Rightarrow>
               if r_mem r then (if wr then rr_do_write_mem r c k else rr_do_read_mem env r c k)
               else if r_io r then (if wr then rr_do_write_io r c k else rr_do_read_io env r c k)
               else (- EIO, c, k))"

section \<open>The ioctl method\<close>

datatype ioctl_cmd =
    RR_DEVSEL rr_devsel | RR_DEVGET | RR_READ rr_iocmd | RR_WRITE rr_iocmd
  | RR_IRQWAIT | RR_IRQENA | RR_GETDMASIZE | RR_GETPLIST

text \<open>What the call stores through the user's pointer.\<close>

datatype ioctl_out = No_out | Out_devsel rr_devsel | Out_iocmd rr_iocmd | Out_plist "nat list"

definition ioctl_devsel :: "kenv \<Rightarrow> rr_devsel \<Rightarrow> kernel \<Rightarrow> int \<times> kernel" where
  "ioctl_devsel env d k =
     (if 1 < usecount k then (- EBUSY, k)
      else let (ret, k1) = rr_fill_table_and_probe env (k\<lparr>devsel := d\<rparr>)
           in (if ret = 0 then - ENODEV else if 0 < ret then 0 else ret, k1))"

definition devsel_of_pdev :: "pci_dev \<Rightarrow> rr_devsel" where
  "devsel_of_pdev p = \<lparr>vendor = p_vendor p, device = p_device p, subvendor = p_subvendor p,
                       subdevice = p_subdevice p, bus = p_bus p, devfn = p_devfn p\<rparr>"

text \<open>An interrupt reaches the handler when one is installed and the line is not disabled.\<close>

definition irq_deliverable :: "kernel \<Rightarrow> bool" where
  "irq_deliverable k = (irq_held k \<and> irq_depth k = 0)"

definition ioctl_irqwait :: "kenv \<Rightarrow> kernel \<Rightarrow> (exn + int) \<times> kernel" where
  "ioctl_irqwait env k =
     (if has_flag RR_FLAG_IRQDISABLE k then (Inr (- EAGAIN), k)
      else case irq_wait env (mmio k) of
          Wait_Irq \<Rightarrow> if irq_deliverable k then (Inr 0, rr_interrupt env k) else (Inl Blocks, k)
        | Wait_Signal \<Rightarrow> (Inr (- ERESTARTSYS), k)
        | Wait_Forever \<Rightarrow> (Inl Blocks, k))"

text \<open>The delay is computed in a \<open>long\<close> and stored in the \<open>int\<close> variable \<open>ret\<close>.\<close>

definition ioctl_irqena :: "kenv \<Rightarrow> kernel \<Rightarrow> int \<times> kernel" where
  "ioctl_irqena env k =
     (let (s, ns) = clock env (mmio k); (s0, ns0) = irqtime k
      in if \<not> has_flag RR_FLAG_IRQDISABLE k then (- EAGAIN, k)
         else let k1 = enable_irq (clear_flag RR_FLAG_IRQDISABLE k);
                  ret = signed_take_bit 31 ((s - s0) * NSEC_PER_SEC + ns - ns0)
              in (if 1 < s - s0 then NSEC_PER_SEC
                  else if NSEC_PER_SEC < ret then NSEC_PER_SEC else ret, k1))"

text \<open>The page list: one 32-bit frame number per page of the buffer.\<close>

definition plist_len :: "kernel \<Rightarrow> nat" where
  "plist_len k = (bufsize k + RR_PLIST_SIZE - 1) div RR_PLIST_SIZE"

definition ioctl_getplist :: "kenv \<Rightarrow> kernel \<Rightarrow> nat list" where
  "ioctl_getplist env k = map (\<lambda>i. pfn env i mod 2 ^ 32) [0..<plist_len k]"

text \<open>The structure is copied back for the commands that read, and only on success.\<close>

definition rr_ioctl :: "kenv \<Rightarrow> ioctl_cmd \<Rightarrow> kernel \<Rightarrow> (exn + int) \<times> ioctl_out \<times> kernel" where
  "rr_ioctl env cmd k =
     (case cmd of
        RR_DEVSEL d \<Rightarrow> (let (ret, k1) = ioctl_devsel env d k in (Inr ret, No_out, k1))
      | RR_DEVGET \<Rightarrow>
          (case pdev k of None \<Rightarrow> (Inr (- ENODEV), No_out, k)
           | Some p \<Rightarrow> (Inr 0, Out_devsel (devsel_of_pdev p), k))
      | RR_READ c \<Rightarrow>
          (let (ret, c1, k1) = rr_do_iocmd env False c k
           in (Inr ret, if ret < 0 then No_out else Out_iocmd c1, k1))
      | RR_WRITE c \<Rightarrow> (let (ret, c1, k1) = rr_do_iocmd env True c k in (Inr ret, No_out, k1))
      | RR_IRQWAIT \<Rightarrow> (let (ret, k1) = ioctl_irqwait env k in (ret, No_out, k1))
      | RR_IRQENA \<Rightarrow> (let (ret, k1) = ioctl_irqena env k in (Inr ret, No_out, k1))
      | RR_GETDMASIZE \<Rightarrow> (Inr (int (bufsize k)), No_out, k)
      | RR_GETPLIST \<Rightarrow> (Inr 0, Out_plist (ioctl_getplist env k), k))"

section \<open>The read and write methods\<close>

text \<open>The local variable \<open>int size\<close> of \<open>rr_read\<close> and \<open>rr_write\<close>: 32 bits, signed.\<close>

definition int_size :: "resource \<Rightarrow> int" where
  "int_size r = signed_take_bit 31 (int (r_size r))"

text \<open>\<open>rr_read\<close>: outcome, bytes stored, new position.\<close>

definition rr_read :: "kenv \<Rightarrow> nat \<Rightarrow> nat \<Rightarrow> kernel \<Rightarrow> int \<times> nat list \<times> kernel" where
  "rr_read env pos count k =
     (let bar = RR_GET_BAR pos div 2; off = RR_GET_OFF pos
      in if \<not> rr_is_valid_bar pos then (- EINVAL, [], k)
         else if RR_BAR_BUF \<le> pos then
           (if bufsize k \<le> off then (0, [], k)
            else let n = (if bufsize k < off + count then bufsize k - off else count)
                 in (int n, read_run (dmabuf k) off n, k))
         else case area k bar of
             None \<Rightarrow> (- EINVAL, [], k)
           | Some r \<Rightarrow>
               if \<not> remap k bar then (- EINVAL, [], k)
               else if int_size r \<le> int off then (- EIO, [], k)
               else let n = (if int_size r < int count + int off then nat (int_size r) - off else count)
                    in if n \<in> {1, 2, 4, 8} then
                         let v = hw_mem env (mmio k) bar off n mod 256 ^ n
                         in (int n, le_enc n v, k\<lparr>mmio := mmio k @ [MemR bar off n v]\<rparr>)
                       else let bs = hw_blk env (mmio k) bar off n
                            in (int n, bs, k\<lparr>mmio := mmio k @ [BlkR bar off bs]\<rparr>))"

definition rr_write :: "nat \<Rightarrow> nat list \<Rightarrow> kernel \<Rightarrow> int \<times> kernel" where
  "rr_write pos buf k =
     (let bar = RR_GET_BAR pos div 2; off = RR_GET_OFF pos; count = length buf
      in if \<not> rr_is_valid_bar pos then (- EINVAL, k)
         else if RR_BAR_BUF \<le> pos then
           (if bufsize k \<le> off then (- ENOSPC, k)
            else let n = (if bufsize k < off + count then bufsize k - off else count)
                 in (int n, k\<lparr>dmabuf := write_run (dmabuf k) off (take n buf)\<rparr>))
         else case area k bar of
             None \<Rightarrow> (- EINVAL, k)
           | Some r \<Rightarrow>
               if \<not> remap k bar then (- EINVAL, k)
               else if int_size r \<le> int off then (- EIO, k)
               else let n = (if int_size r < int count + int off then nat (int_size r) - off else count)
                    in if n \<in> {1, 2, 4, 8}
                       then (int n, k\<lparr>mmio := mmio k @ [MemW bar off n (le_dec (take n buf))]\<rparr>)
                       else (int n, k\<lparr>mmio := mmio k @ [BlkW bar off (take n buf)]\<rparr>))"

text \<open>Opening and closing the device node count its users.\<close>

definition rr_open :: "kernel \<Rightarrow> kernel" where
  "rr_open k = k\<lparr>usecount := usecount k + 1\<rparr>"

definition rr_release :: "kernel \<Rightarrow> kernel" where
  "rr_release k = k\<lparr>usecount := usecount k - 1\<rparr>"

end
