(* ===== verification/Rrlib.thy ===== *)
theory Rrlib
  imports Driver
begin

text \<open>
  The shared library the Python class loads (sw/gnurabbit/python/rrlib.c): thin wrappers that
  issue one ioctl and turn a failure into the negated error number. They run on the driver of
  theory Driver. \<open>sys_ioctl\<close>, \<open>sys_lseek\<close>, \<open>sys_read\<close> and \<open>sys_write\<close> are the system calls on a file
  descriptor of the device node.
\<close>

section \<open>System calls on the device node\<close>

text \<open>The error number user space sees; an interrupted wait shows as \<open>EINTR\<close>.\<close>

definition user_errno :: "int \<Rightarrow> int" where
  "user_errno e = (if e = ERESTARTSYS then 4 else e)"

text \<open>\<open>ioctl\<close>: a negative outcome stands for the result -1 with \<open>errno\<close> set to its negation.\<close>

definition sys_ioctl :: "kenv \<Rightarrow> int \<Rightarrow> ioctl_cmd \<Rightarrow> kernel \<Rightarrow> (exn + int) \<times> ioctl_out \<times> kernel" where
  "sys_ioctl env fd cmd k =
     (if fdtab k fd = None then (Inr (- EBADF), No_out, k)
      else let (r, out, k1) = rr_ioctl env cmd k
           in (case r of Inl e \<Rightarrow> Inl e | Inr v \<Rightarrow> Inr (if v < 0 then - user_errno (- v) else v), out, k1))"

definition sys_open :: "kernel \<Rightarrow> (exn + int) \<times> kernel" where
  "sys_open k =
     (if \<not> node k then (Inl (OSError ENOENT), k)
      else let fd = next_fd k
           in (Inr fd, rr_open (k\<lparr>fdtab := (fdtab k)(fd \<mapsto> 0), next_fd := fd + 1\<rparr>)))"

text \<open>\<open>lseek(fd, pos, SEEK_SET)\<close>; Python converts the offset to a signed 64-bit integer.\<close>

definition sys_lseek :: "int \<Rightarrow> int \<Rightarrow> kernel \<Rightarrow> (exn + int) \<times> kernel" where
  "sys_lseek fd pos k =
     (if pos < - (2 ^ 63) \<or> 2 ^ 63 \<le> pos then (Inl OverflowError, k)
      else if fdtab k fd = None then (Inl (OSError EBADF), k)
      else if pos < 0 then (Inl (OSError EINVAL), k)
      else (Inr pos, k\<lparr>fdtab := (fdtab k)(fd \<mapsto> pos)\<rparr>))"

definition sys_read :: "kenv \<Rightarrow> int \<Rightarrow> int \<Rightarrow> kernel \<Rightarrow> (exn + nat list) \<times> kernel" where
  "sys_read env fd count k =
     (if count < 0 then (Inl (OSError EINVAL), k)
      else case fdtab k fd of
          None \<Rightarrow> (Inl (OSError EBADF), k)
        | Some pos \<Rightarrow>
            let (r, bs, k1) = rr_read env (nat pos) (nat count) k
            in if r < 0 then (Inl (OSError (- r)), k1)
               else (Inr bs, k1\<lparr>fdtab := (fdtab k1)(fd \<mapsto> pos + r)\<rparr>))"

definition sys_write :: "int \<Rightarrow> nat list \<Rightarrow> kernel \<Rightarrow> (exn + int) \<times> kernel" where
  "sys_write fd buf k =
     (case fdtab k fd of
        None \<Rightarrow> (Inl (OSError EBADF), k)
      | Some pos \<Rightarrow>
          let (r, k1) = rr_write (nat pos) buf k
          in if r < 0 then (Inl (OSError (- r)), k1)
             else (Inr r, k1\<lparr>fdtab := (fdtab k1)(fd \<mapsto> pos + r)\<rparr>))"

section \<open>The wrappers\<close>

text \<open>\<open>if (ioctl(...) < 0) return -errno; return 0;\<close>\<close>

definition errno_result :: "exn + int \<Rightarrow> exn + int" where
  "errno_result r = (case r of Inl e \<Rightarrow> Inl e | Inr v \<Rightarrow> Inr (if v < 0 then v else 0))"

definition rr_devsel_call :: "kenv \<Rightarrow> int \<Rightarrow> rr_devsel \<Rightarrow> kernel \<Rightarrow> (exn + int) \<times> kernel" where
  "rr_devsel_call env fd d k =
     (let (r, out, k1) = sys_ioctl env fd (RR_DEVSEL d) k in (errno_result r, k1))"

definition rr_devget_call :: "kenv \<Rightarrow> int \<Rightarrow> rr_devsel \<Rightarrow> kernel \<Rightarrow> (exn + int) \<times> rr_devsel \<times> kernel" where
  "rr_devget_call env fd d k =
     (let (r, out, k1) = sys_ioctl env fd RR_DEVGET k
      in (errno_result r, case out of Out_devsel d1 \<Rightarrow> d1 | _ \<Rightarrow> d, k1))"

definition rr_iread :: "kenv \<Rightarrow> int \<Rightarrow> rr_iocmd \<Rightarrow> kernel \<Rightarrow> (exn + int) \<times> rr_iocmd \<times> kernel" where
  "rr_iread env fd c k =
     (let (r, out, k1) = sys_ioctl env fd (RR_READ c) k
      in (errno_result r, case out of Out_iocmd c1 \<Rightarrow> c1 | _ \<Rightarrow> c, k1))"

definition rr_iwrite :: "kenv \<Rightarrow> int \<Rightarrow> rr_iocmd \<Rightarrow> kernel \<Rightarrow> (exn + int) \<times> rr_iocmd \<times> kernel" where
  "rr_iwrite env fd c k =
     (let (r, out, k1) = sys_ioctl env fd (RR_WRITE c) k in (errno_result r, c, k1))"

definition rr_irqwait :: "kenv \<Rightarrow> int \<Rightarrow> kernel \<Rightarrow> (exn + int) \<times> kernel" where
  "rr_irqwait env fd k =
     (let (r, out, k1) = sys_ioctl env fd RR_IRQWAIT k in (errno_result r, k1))"

definition rr_irqena :: "kenv \<Rightarrow> int \<Rightarrow> kernel \<Rightarrow> (exn + int) \<times> kernel" where
  "rr_irqena env fd k =
     (let (r, out, k1) = sys_ioctl env fd RR_IRQENA k in (errno_result r, k1))"

text \<open>\<open>rr_getdmasize\<close> returns what \<open>ioctl\<close> returns: -1 on failure.\<close>

definition rr_getdmasize :: "kenv \<Rightarrow> int \<Rightarrow> kernel \<Rightarrow> (exn + int) \<times> kernel" where
  "rr_getdmasize env fd k =
     (let (r, out, k1) = sys_ioctl env fd RR_GETDMASIZE k
      in (case r of Inl e \<Rightarrow> Inl e | Inr v \<Rightarrow> Inr (if v < 0 then -1 else v), k1))"

text \<open>\<open>rr_getplist\<close> asks for the size first and then lets the driver fill the page list.\<close>

definition rr_getplist :: "kenv \<Rightarrow> int \<Rightarrow> kernel \<Rightarrow> (exn + int) \<times> nat list \<times> kernel" where
  "rr_getplist env fd k =
     (let (r, out, k1) = sys_ioctl env fd RR_GETDMASIZE k
      in case r of
          Inl e \<Rightarrow> (Inl e, [], k1)
        | Inr sz \<Rightarrow>
            if sz < 0 then (Inr sz, [], k1)
            else let (r2, out2, k2) = sys_ioctl env fd RR_GETPLIST k1
                 in (errno_result r2, case out2 of Out_plist ps \<Rightarrow> ps | _ \<Rightarrow> [], k2))"

end
