(* ===== verification/Regex.thy ===== *)
theory Regex
  imports PyText
begin

text \<open>
  The part of Python's \<open>re\<close> module the programs rely on: a backtracking matcher for the
  constructs their patterns use. \<open>run r s (i, c)\<close> lists every way \<open>r\<close> can match \<open>s\<close> from
  position \<open>i\<close> with the captures \<open>c\<close>, in the order the backtracking engine tries them, as end
  positions with the captures after the match; \<open>re.match\<close> and \<open>re.search\<close> take the first.
  Every repetition in the sources is over a single-character class, so a repetition is a class
  with its bounds and its greediness.
\<close>

datatype rx =
    Lit string
  | Rep nat "nat option" bool "char \<Rightarrow> bool"
  | Cat rx rx
  | Opt rx
  | Alt rx rx
  | Grp string rx
  | Ref string
  | Bol
  | Eol

type_synonym captures = "(string \<times> string) list"

fun run :: "rx \<Rightarrow> string \<Rightarrow> nat \<times> captures \<Rightarrow> (nat \<times> captures) list" where
  "run (Lit l) s (i, c) = (if take (length l) (drop i s) = l then [(i + length l, c)] else [])"
| "run (Rep lo hi greedy P) s (i, c) =
     (let n = length (takeWhile P (drop i s));
          m = (case hi of None \<Rightarrow> n | Some h \<Rightarrow> min h n);
          ks = [lo..<Suc m]
      in map (\<lambda>k. (i + k, c)) (if greedy then rev ks else ks))"
| "run (Cat a b) s (i, c) = concat (map (run b s) (run a s (i, c)))"
| "run (Opt a) s (i, c) = run a s (i, c) @ [(i, c)]"
| "run (Alt a b) s (i, c) = run a s (i, c) @ run b s (i, c)"
| "run (Grp g a) s (i, c) =
     map (\<lambda>(j, d). (j, (g, take (j - i) (drop i s)) # d)) (run a s (i, c))"
| "run (Ref g) s (i, c) =
     (case map_of c g of
        None \<Rightarrow> []
      | Some t \<Rightarrow> if take (length t) (drop i s) = t then [(i + length t, c)] else [])"
| "run Bol s (i, c) = (if i = 0 then [(i, c)] else [])"
| "run Eol s (i, c) =
     (if i = length s \<or> (i + 1 = length s \<and> s ! i = newline) then [(i, c)] else [])"

fun cats :: "rx list \<Rightarrow> rx" where
  "cats [] = Lit []"
| "cats [r] = r"
| "cats (r # rs) = Cat r (cats rs)"

definition first_match :: "(nat \<times> captures) list \<Rightarrow> (nat \<times> captures) option" where
  "first_match xs = (case xs of [] \<Rightarrow> None | x # _ \<Rightarrow> Some x)"

text \<open>\<open>re.match(r, s)\<close>: anchored at the start.\<close>

definition re_match :: "rx \<Rightarrow> string \<Rightarrow> (nat \<times> captures) option" where
  "re_match r s = first_match (run r s (0, []))"

text \<open>\<open>re.search(r, s)\<close>: the first position with a match; start and end of the match.\<close>

fun search_from :: "rx \<Rightarrow> string \<Rightarrow> nat list \<Rightarrow> (nat \<times> nat \<times> captures) option" where
  "search_from r s [] = None"
| "search_from r s (i # is) =
     (case first_match (run r s (i, [])) of
        None \<Rightarrow> search_from r s is
      | Some (j, c) \<Rightarrow> Some (i, j, c))"

definition re_search :: "rx \<Rightarrow> string \<Rightarrow> (nat \<times> nat \<times> captures) option" where
  "re_search r s = search_from r s [0..<Suc (length s)]"

section \<open>Which matches exist\<close>

text \<open>Membership in the list of matches, construct by construct; \<open>run_set\<close> is the bundle the
  component proofs use.\<close>

lemma mem_run_Lit:
  "(j, d) \<in> set (run (Lit l) s (i, c)) \<longleftrightarrow> take (length l) (drop i s) = l \<and> j = i + length l \<and> d = c"
  by auto

lemma takeWhile_run_iff:
  "k \<le> length (takeWhile P xs) \<longleftrightarrow> k \<le> length xs \<and> (\<forall>x \<in> set (take k xs). P x)"
proof (induction xs arbitrary: k)
  case Nil
  show ?case by simp
next
  case (Cons x xs)
  show ?case by (cases k) (auto simp: Cons.IH)
qed

lemma mem_run_Rep:
  assumes "i \<le> length s"
  shows "(j, d) \<in> set (run (Rep lo hi greedy P) s (i, c)) \<longleftrightarrow>
    (\<exists>k. j = i + k \<and> d = c \<and> lo \<le> k \<and> (case hi of None \<Rightarrow> True | Some h \<Rightarrow> k \<le> h)
       \<and> i + k \<le> length s \<and> (\<forall>x \<in> set (take k (drop i s)). P x))"
    (is "?lhs \<longleftrightarrow> ?rhs")
proof -
  have "?lhs \<longleftrightarrow> (\<exists>k. j = i + k \<and> d = c \<and> lo \<le> k \<and> (case hi of None \<Rightarrow> True | Some h \<Rightarrow> k \<le> h)
      \<and> k \<le> length (takeWhile P (drop i s)))"
    by (cases hi) (auto simp: Let_def image_iff)
  also have "\<dots> \<longleftrightarrow> ?rhs"
    using assms by (auto simp: takeWhile_run_iff)
  finally show ?thesis .
qed

lemma mem_run_Cat:
  "(j, d) \<in> set (run (Cat a b) s (i, c)) \<longleftrightarrow>
   (\<exists>k e. (k, e) \<in> set (run a s (i, c)) \<and> (j, d) \<in> set (run b s (k, e)))"
  by auto

lemma mem_run_Opt:
  "(j, d) \<in> set (run (Opt a) s (i, c)) \<longleftrightarrow> (j, d) \<in> set (run a s (i, c)) \<or> (j = i \<and> d = c)"
  by auto

lemma mem_run_Alt:
  "(j, d) \<in> set (run (Alt a b) s (i, c)) \<longleftrightarrow>
   (j, d) \<in> set (run a s (i, c)) \<or> (j, d) \<in> set (run b s (i, c))"
  by auto

lemma mem_run_Grp:
  "(j, d) \<in> set (run (Grp g a) s (i, c)) \<longleftrightarrow>
   (\<exists>e. (j, e) \<in> set (run a s (i, c)) \<and> d = (g, take (j - i) (drop i s)) # e)"
  by (auto intro!: rev_image_eqI)

lemma mem_run_Eol:
  "(j, d) \<in> set (run Eol s (i, c)) \<longleftrightarrow>
   j = i \<and> d = c \<and> (i = length s \<or> (i + 1 = length s \<and> s ! i = newline))"
  by auto

lemma mem_run_Bol: "(j, d) \<in> set (run Bol s (i, c)) \<longleftrightarrow> j = i \<and> d = c \<and> i = 0"
  by auto

lemma mem_run_Ref:
  "(j, d) \<in> set (run (Ref g) s (i, c)) \<longleftrightarrow>
   (\<exists>t. map_of c g = Some t \<and> take (length t) (drop i s) = t \<and> j = i + length t \<and> d = c)"
  by (cases "map_of c g") auto

lemmas run_set = mem_run_Lit mem_run_Rep mem_run_Cat mem_run_Opt mem_run_Alt mem_run_Grp
  mem_run_Eol mem_run_Bol mem_run_Ref

text \<open>A match ends inside the subject, at or after its start.\<close>

lemma run_bounds:
  "(j, d) \<in> set (run r s (i, c)) \<Longrightarrow> i \<le> length s \<Longrightarrow> i \<le> j \<and> j \<le> length s"
proof (induction r arbitrary: i j c d)
  case (Lit l)
  then have "take (length l) (drop i s) = l" "j = i + length l" by (auto simp: mem_run_Lit)
  then have "length (take (length l) (drop i s)) = length l" by simp
  with \<open>j = i + length l\<close> \<open>i \<le> length s\<close> show ?case by auto
next
  case (Rep lo hi g P)
  then show ?case by (auto simp: mem_run_Rep simp del: run.simps)
next
  case (Cat a b)
  then obtain k e where "(k, e) \<in> set (run a s (i, c))" "(j, d) \<in> set (run b s (k, e))"
    by (auto simp: mem_run_Cat simp del: run.simps)
  with Cat show ?case by (meson le_trans)
next
  case (Ref g)
  then obtain t where "take (length t) (drop i s) = t" "j = i + length t"
    by (auto simp: mem_run_Ref simp del: run.simps)
  then have "length (take (length t) (drop i s)) = length t" by simp
  with \<open>j = i + length t\<close> \<open>i \<le> length s\<close> show ?case by auto
qed (auto simp: mem_run_Opt mem_run_Alt mem_run_Grp split: if_splits)

lemma re_match_Some: "re_match r s = Some x \<Longrightarrow> x \<in> set (run r s (0, []))"
  by (auto simp: re_match_def first_match_def split: list.splits)

lemma re_match_None: "re_match r s = None \<longleftrightarrow> set (run r s (0, [])) = {}"
  by (auto simp: re_match_def first_match_def split: list.splits)

text \<open>All matches agreeing on their captures is all a caller of \<open>groupdict\<close> needs.\<close>

lemma re_match_unique:
  assumes "(j, d) \<in> set (run r s (0, []))"
    and "\<And>k e. (k, e) \<in> set (run r s (0, [])) \<Longrightarrow> e = d"
  shows "\<exists>k. re_match r s = Some (k, d)"
proof -
  from assms(1) obtain x where x: "re_match r s = Some x"
    by (metis re_match_None empty_iff not_None_eq)
  then have "x \<in> set (run r s (0, []))" by (rule re_match_Some)
  with assms(2) x show ?thesis by (cases x) auto
qed

lemma search_from_Some:
  "search_from r s is = Some (i, j, c) \<Longrightarrow> i \<in> set is \<and> (j, c) \<in> set (run r s (i, []))"
  by (induction r s "is" rule: search_from.induct)
     (auto simp: first_match_def split: option.splits list.splits)

section \<open>Matches as pieces of the subject\<close>

text \<open>The text \<open>t\<close> stands in \<open>s\<close> at position \<open>i\<close>.\<close>

definition at :: "string \<Rightarrow> nat \<Rightarrow> string \<Rightarrow> bool" where
  "at s i t = (i \<le> length s \<and> take (length t) (drop i s) = t)"

lemma at_length: "at s i t \<Longrightarrow> i + length t \<le> length s"
  unfolding at_def by (metis le_diff_conv2 length_drop length_take min.cobounded1 add.commute)

lemma at_append: "at s i (t @ u) \<longleftrightarrow> at s i t \<and> at s (i + length t) u"
proof
  assume a: "at s i (t @ u)"
  then have "i + length t + length u \<le> length s" using at_length [OF a] by simp
  moreover have "take (length t) (drop i s) = t \<and> take (length u) (drop (length t) (drop i s)) = u"
    using a unfolding at_def by (metis append_eq_conv_conj length_append take_add append_eq_append_conv length_take min.absorb2
        append_take_drop_id take_drop drop_drop add.commute)
  ultimately show "at s i t \<and> at s (i + length t) u" by (simp add: at_def add.commute)
next
  assume "at s i t \<and> at s (i + length t) u"
  then show "at s i (t @ u)" by (simp add: at_def take_add add.commute)
qed

lemma at_Nil [simp]: "at s i [] \<longleftrightarrow> i \<le> length s"
  by (simp add: at_def)

lemma at_0: "at s 0 t \<Longrightarrow> s = t @ drop (length t) s"
  unfolding at_def by (metis append_take_drop_id drop_0)

lemma at_self: "at (a @ t @ b) (length a) t"
  by (simp add: at_def)

lemma at_take: "at s i t \<Longrightarrow> take (i + length t - i) (drop i s) = t"
  by (simp add: at_def)

lemma piece_Lit:
  "i \<le> length s \<Longrightarrow> (j, d) \<in> set (run (Lit l) s (i, c)) \<longleftrightarrow> at s i l \<and> j = i + length l \<and> d = c"
  by (auto simp: mem_run_Lit at_def simp del: run.simps)

lemma piece_Rep:
  assumes "i \<le> length s"
  shows "(j, d) \<in> set (run (Rep lo hi greedy P) s (i, c)) \<longleftrightarrow>
    (\<exists>t. at s i t \<and> list_all P t \<and> lo \<le> length t \<and> (case hi of None \<Rightarrow> True | Some h \<Rightarrow> length t \<le> h)
       \<and> j = i + length t \<and> d = c)" (is "?l \<longleftrightarrow> ?r")
proof
  assume ?l
  then obtain k where "j = i + k" "d = c" "lo \<le> k" "case hi of None \<Rightarrow> True | Some h \<Rightarrow> k \<le> h"
    "i + k \<le> length s" "\<forall>x \<in> set (take k (drop i s)). P x" using mem_run_Rep [OF assms] by blast
  then show ?r by (intro exI [where x = "take k (drop i s)"]) (simp add: at_def list_all_iff split: option.splits)
next
  assume ?r
  then obtain t where t: "at s i t" "list_all P t" "lo \<le> length t" "case hi of None \<Rightarrow> True | Some h \<Rightarrow> length t \<le> h"
    "j = i + length t" "d = c" by blast
  with at_length [OF t(1)] show ?l unfolding mem_run_Rep [OF assms]
    by (intro exI [where x = "length t"]) (auto simp: at_def list_all_iff)
qed

text \<open>A named class, and a class after a literal that may both be missing.\<close>

lemma piece_Class:
  assumes "i \<le> length s"
  shows "(j, d) \<in> set (run (Grp g (Rep lo None greedy P)) s (i, c)) \<longleftrightarrow>
    (\<exists>t. at s i t \<and> list_all P t \<and> lo \<le> length t \<and> j = i + length t \<and> d = (g, t) # c)"
  unfolding mem_run_Grp piece_Rep [OF assms] by (auto simp: at_def)

definition opt_part :: "string \<Rightarrow> string option \<Rightarrow> string" where
  "opt_part l x = (case x of None \<Rightarrow> [] | Some t \<Rightarrow> l @ t)"

definition opt_capture :: "string \<Rightarrow> string option \<Rightarrow> captures" where
  "opt_capture g x = (case x of None \<Rightarrow> [] | Some t \<Rightarrow> [(g, t)])"

definition opt_ok :: "(char \<Rightarrow> bool) \<Rightarrow> string option \<Rightarrow> bool" where
  "opt_ok P x = (case x of None \<Rightarrow> True | Some t \<Rightarrow> t \<noteq> [] \<and> list_all P t)"

lemma piece_Opt:
  assumes "i \<le> length s"
  shows "(j, d) \<in> set (run (Opt (Cat (Lit l) (Grp g (Rep 1 None greedy P)))) s (i, c)) \<longleftrightarrow>
    (\<exists>x. at s i (opt_part l x) \<and> opt_ok P x \<and> j = i + length (opt_part l x) \<and> d = opt_capture g x @ c)" (is "?l \<longleftrightarrow> ?r")
proof
  assume ?l
  then consider "j = i" "d = c" | k where "at s i l" "k = i + length l" "(j, d) \<in> set (run (Grp g (Rep 1 None greedy P)) s (k, c))"
    using assms by (auto simp: mem_run_Opt mem_run_Cat piece_Lit simp del: run.simps)
  then show ?r
  proof cases
    case 1
    with assms show ?thesis by (intro exI [where x = None]) (simp add: opt_part_def opt_ok_def opt_capture_def)
  next
    case 2
    from at_length [OF 2(1)] 2(2) have "k \<le> length s" by simp
    with 2(3) piece_Class [OF this] obtain t where "at s k t" "list_all P t" "1 \<le> length t" "j = k + length t" "d = (g, t) # c"
      by blast
    with 2 show ?thesis
      by (intro exI [where x = "Some t"]) (auto simp: opt_part_def opt_ok_def opt_capture_def at_append)
  qed
next
  assume ?r
  then obtain x where x: "at s i (opt_part l x)" "opt_ok P x" "j = i + length (opt_part l x)" "d = opt_capture g x @ c"
    by blast
  show ?l
  proof (cases x)
    case None
    with x show ?thesis by (simp add: mem_run_Opt opt_part_def opt_capture_def del: run.simps)
  next
    case (Some t)
    with x have t: "at s i l" "at s (i + length l) t" "t \<noteq> []" "list_all P t" "j = i + length l + length t" "d = (g, t) # c"
      by (simp_all add: opt_part_def opt_capture_def opt_ok_def at_append add.assoc)
    from at_length [OF t(1)] have "i + length l \<le> length s" .
    have "(j, d) \<in> set (run (Grp g (Rep 1 None greedy P)) s (i + length l, c))"
      unfolding piece_Class [OF \<open>i + length l \<le> length s\<close>] using t by (auto simp: Suc_le_eq)
    with t(1) assms show ?thesis unfolding mem_run_Opt mem_run_Cat piece_Lit [OF assms] by blast
  qed
qed

lemma piece_Eol:
  assumes "i \<le> length s"
  shows "(j, d) \<in> set (run Eol s (i, c)) \<longleftrightarrow> j = i \<and> d = c \<and> drop i s \<in> {[], [newline]}"
proof (cases "drop i s")
  case Nil
  with assms have "i = length s" by simp
  with Nil show ?thesis by (simp add: mem_run_Eol del: run.simps)
next
  case (Cons x xs)
  then have "length s = i + Suc (length xs)" "s ! i = x"
    by (metis Cons assms add_diff_inverse_nat leD length_Cons length_drop, simp add: nth_via_drop)
  with Cons show ?thesis by (auto simp: mem_run_Eol simp del: run.simps)
qed

lemma piece_Ref:
  "i \<le> length s \<Longrightarrow> map_of c g = Some t \<Longrightarrow>
    (j, d) \<in> set (run (Ref g) s (i, c)) \<longleftrightarrow> at s i t \<and> j = i + length t \<and> d = c"
  by (auto simp: mem_run_Ref at_def simp del: run.simps)

text \<open>A class between two literals that may all be missing.\<close>

definition opt_between :: "string \<Rightarrow> string \<Rightarrow> string option \<Rightarrow> string" where
  "opt_between l r x = (case x of None \<Rightarrow> [] | Some t \<Rightarrow> l @ t @ r)"

lemma piece_Opt_between:
  assumes "i \<le> length s"
  shows "(j, d) \<in> set (run (Opt (cats [Lit l, Grp g (Rep 1 None greedy P), Lit r])) s (i, c)) \<longleftrightarrow>
    (\<exists>x. at s i (opt_between l r x) \<and> opt_ok P x \<and> j = i + length (opt_between l r x) \<and> d = opt_capture g x @ c)" (is "?l \<longleftrightarrow> ?r")
proof
  assume ?l
  then consider "j = i" "d = c" | k m e where "at s i l" "k = i + length l" "(m, e) \<in> set (run (Grp g (Rep 1 None greedy P)) s (k, c))"
    "(j, d) \<in> set (run (Lit r) s (m, e))"
    unfolding cats.simps mem_run_Opt mem_run_Cat piece_Lit [OF assms] by blast
  then show ?r
  proof cases
    case 1
    with assms show ?thesis by (intro exI [where x = None]) (simp add: opt_between_def opt_ok_def opt_capture_def)
  next
    case 2
    from at_length [OF 2(1)] 2(2) have "k \<le> length s" by simp
    with 2(3) piece_Class [OF this] obtain t where t: "at s k t" "list_all P t" "1 \<le> length t" "m = k + length t" "e = (g, t) # c"
      by blast
    from at_length [OF t(1)] t(4) have "m \<le> length s" by simp
    from 2(4) piece_Lit [OF this] have "at s m r" "j = m + length r" "d = e" by blast+
    with 2 t show ?thesis
      by (intro exI [where x = "Some t"]) (auto simp: opt_between_def opt_ok_def opt_capture_def at_append add.assoc)
  qed
next
  assume ?r
  then obtain x where x: "at s i (opt_between l r x)" "opt_ok P x" "j = i + length (opt_between l r x)" "d = opt_capture g x @ c"
    by blast
  show ?l
  proof (cases x)
    case None
    with x show ?thesis by (simp add: mem_run_Opt opt_between_def opt_capture_def del: run.simps)
  next
    case (Some t)
    let ?k = "i + length l" and ?m = "i + length l + length t"
    from x Some have t: "at s i l" "at s ?k t" "at s ?m r" "t \<noteq> []" "list_all P t" "j = ?m + length r" "d = (g, t) # c"
      by (simp_all add: opt_between_def opt_capture_def opt_ok_def at_append add.assoc)
    note b = at_length [OF t(1)] at_length [OF t(2)]
    have "(?m, d) \<in> set (run (Grp g (Rep 1 None greedy P)) s (?k, c))"
      unfolding piece_Class [OF b(1)] using t by (auto simp: Suc_le_eq)
    moreover have "(j, d) \<in> set (run (Lit r) s (?m, d))" unfolding piece_Lit [OF b(2)] using t by simp
    ultimately show ?thesis using t(1) unfolding cats.simps mem_run_Opt mem_run_Cat piece_Lit [OF assms] by blast
  qed
qed

lemma piece_bound: "at s i t \<Longrightarrow> j = i + length t \<Longrightarrow> j \<le> length s"
  using at_length by blast

section \<open>Which match comes first\<close>

text \<open>The engine tries the ways to match the first part in order, and takes the first one that the rest can follow. A
  greedy repetition is tried from the longest, a lazy one from the shortest.\<close>

lemma first_match_member: "first_match xs = Some y \<Longrightarrow> y \<in> set xs"
  by (auto simp: first_match_def split: list.splits)

lemma first_match_None: "first_match xs = None \<longleftrightarrow> xs = []"
  by (simp add: first_match_def split: list.splits)

lemma first_concat:
  assumes "first_match (concat (map F xs)) = Some y" "sorted_wrt R xs"
  shows "\<exists>u \<in> set xs. first_match (F u) = Some y \<and> (\<forall>v \<in> set xs. F v \<noteq> [] \<longrightarrow> v = u \<or> R u v)"
  using assms
proof (induction xs)
  case (Cons x xs)
  show ?case
  proof (cases "F x")
    case Nil
    with Cons show ?thesis by auto
  next
    case (Cons z zs)
    with Cons.prems show ?thesis by (intro bexI [where x = x]) (auto simp: first_match_def)
  qed
qed (simp add: first_match_def)

lemma run_Cat_concat: "run (Cat a b) s x = concat (map (run b s) (run a s x))"
  by (cases x) simp

lemma mem_run_CatI: "u \<in> set (run a s x) \<Longrightarrow> y \<in> set (run b s u) \<Longrightarrow> y \<in> set (run (Cat a b) s x)"
  unfolding run_Cat_concat by auto

lemma run_Cat_nonempty: "run (Cat a b) s x \<noteq> [] \<longleftrightarrow> (\<exists>u \<in> set (run a s x). run b s u \<noteq> [])"
  unfolding run_Cat_concat by simp

lemma first_Cat_sorted:
  "\<lbrakk>first_match (run (Cat a b) s x) = Some y; sorted_wrt R (run a s x)\<rbrakk>
   \<Longrightarrow> \<exists>u \<in> set (run a s x). first_match (run b s u) = Some y
      \<and> (\<forall>v \<in> set (run a s x). run b s v \<noteq> [] \<longrightarrow> v = u \<or> R u v)"
  unfolding run_Cat_concat by (rule first_concat)

lemma first_Cat: "first_match (run (Cat a b) s x) = Some y \<Longrightarrow> \<exists>u \<in> set (run a s x). first_match (run b s u) = Some y"
proof -
  have "sorted_wrt (\<lambda>_ _. True) xs" for xs :: "'a list" by (induction xs) auto
  then show "first_match (run (Cat a b) s x) = Some y \<Longrightarrow> ?thesis" using first_Cat_sorted by blast
qed

lemma sorted_Rep:
  "sorted_wrt (\<lambda>u v. if greedy then fst v < fst u else fst u < fst v) (run (Rep lo hi greedy P) s x)"
proof -
  have "sorted_wrt (<) [lo..<n]" "sorted_wrt (\<lambda>u v. v < u) (rev [lo..<n])" for n
    by (simp_all add: sorted_wrt_rev)
  then show ?thesis by (cases x) (simp add: sorted_wrt_map Let_def del: upt_Suc split: option.split)
qed

lemma sorted_Grp:
  "sorted_wrt (\<lambda>u v. Q (fst u) (fst v)) (run a s x) \<Longrightarrow> sorted_wrt (\<lambda>u v. Q (fst u) (fst v)) (run (Grp g a) s x)"
  by (cases x) (simp add: sorted_wrt_map case_prod_beta)

lemma sorted_Class:
  "sorted_wrt (\<lambda>u v. if greedy then fst v < fst u else fst u < fst v) (run (Grp g (Rep lo hi greedy P)) s x)"
  by (rule sorted_Grp [where Q = "\<lambda>i j. if greedy then j < i else i < j", OF sorted_Rep])

end
