(* ===== verification/Gennum.thy ===== *)
theory Gennum
  imports Rrlib Regex
begin

text \<open>
  The class \<open>Gennum\<close> of sw/gnurabbit/python/rr.py: the Python side of the device interface.

  The state of a running program is a \<open>machine\<close>: the kernel, the \<open>Gennum\<close> objects created so far
  (an object is named by its index) and the console. A method takes the environment, the object
  and its arguments. Fields of foreign structures wrap at their width when Python assigns them
  (module ctypes does no overflow checking); \<open>struct.pack\<close> and \<open>struct.unpack\<close> raise. The
  platform is a 64-bit little-endian one (native \<open>long\<close> of eight bytes).
\<close>

section \<open>Objects and constants\<close>

record gennum =
  g_fd :: int
  g_errno :: int
  g_attrs :: "string \<Rightarrow> int option"

record machine =
  krn :: kernel
  objs :: "gennum list"
  con :: console

definition RR_BAR_0 :: int where "RR_BAR_0 = 0x00000000"
definition RR_BAR_2 :: int where "RR_BAR_2 = 0x20000000"
definition RR_BAR_4 :: int where "RR_BAR_4 = 0x40000000"
definition RR_BAR_C :: int where "RR_BAR_C = 0xc0000000"

definition bar_map :: "int \<Rightarrow> int option" where
  "bar_map = [0 \<mapsto> RR_BAR_0, 2 \<mapsto> RR_BAR_2, 4 \<mapsto> RR_BAR_4, 0xc \<mapsto> RR_BAR_C]"

text \<open>The unsigned formats: width to format character, with the native sizes of the formats.\<close>

definition fmt :: "int \<Rightarrow> char option" where
  "fmt = [1 \<mapsto> CHR ''B'', 2 \<mapsto> CHR ''H'', 4 \<mapsto> CHR ''I'', 8 \<mapsto> CHR ''L'']"

definition calcsize :: "char \<Rightarrow> nat" where
  "calcsize f = (if f = CHR ''B'' then 1 else if f = CHR ''H'' then 2
                 else if f = CHR ''I'' then 4 else if f = CHR ''L'' then 8 else 0)"

definition struct_unpack :: "char \<Rightarrow> nat list \<Rightarrow> exn + int" where
  "struct_unpack f buf = (if length buf = calcsize f then Inr (int (le_dec buf)) else Inl StructError)"

definition struct_pack :: "char \<Rightarrow> int \<Rightarrow> exn + nat list" where
  "struct_pack f v =
     (if 0 \<le> v \<and> v < 256 ^ calcsize f then Inr (le_enc (calcsize f) (nat v)) else Inl StructError)"

text \<open>A dictionary lookup that raises.\<close>

definition dict_get :: "('k \<Rightarrow> 'v option) \<Rightarrow> 'k \<Rightarrow> exn + 'v" where
  "dict_get m k = (case m k of None \<Rightarrow> Inl KeyError | Some v \<Rightarrow> Inr v)"

text \<open>\<open>RR_Iocmd(address=a, datasize=w, data32=d)\<close>: fields wrap, absent ones are zero.\<close>

definition RR_Iocmd :: "int \<Rightarrow> int \<Rightarrow> int \<Rightarrow> rr_iocmd" where
  "RR_Iocmd a w d =
     \<lparr>address = nat (a mod 2 ^ 32), datasize = nat (w mod 2 ^ 32),
      data = le_enc 4 (nat (d mod 2 ^ 32)) @ [0, 0, 0, 0]\<rparr>"

definition RR_Devsel_0 :: rr_devsel where
  "RR_Devsel_0 = \<lparr>vendor = 0, device = 0, subvendor = 0, subdevice = 0, bus = 0, devfn = 0\<rparr>"

section \<open>Reaching the kernel and the object\<close>

definition on_kernel :: "(kernel \<Rightarrow> (exn + 'a) \<times> kernel) \<Rightarrow> (machine, 'a) py" where
  "on_kernel f m = (let (r, k) = f (krn m) in (r, m\<lparr>krn := k\<rparr>))"

text \<open>A foreign call that also updates the structure passed by reference.\<close>

definition on_kernel_ref ::
  "(kernel \<Rightarrow> (exn + 'a) \<times> 'b \<times> kernel) \<Rightarrow> (machine, 'a \<times> 'b) py" where
  "on_kernel_ref f m =
     (let (r, b, k) = f (krn m)
      in (case r of Inl e \<Rightarrow> Inl e | Inr v \<Rightarrow> Inr (v, b), m\<lparr>krn := k\<rparr>))"

definition self_fd :: "nat \<Rightarrow> machine \<Rightarrow> int" where
  "self_fd self m = g_fd (objs m ! self)"

definition set_errno :: "nat \<Rightarrow> int \<Rightarrow> (machine, unit) py" where
  "set_errno self e = py_modify (\<lambda>m. m\<lparr>objs := (objs m)[self := (objs m ! self)\<lparr>g_errno := e\<rparr>]\<rparr>)"

definition set_attr :: "nat \<Rightarrow> string \<Rightarrow> int \<Rightarrow> (machine, unit) py" where
  "set_attr self a v =
     py_modify (\<lambda>m. m\<lparr>objs := (objs m)[self := (objs m ! self)\<lparr>g_attrs := (g_attrs (objs m ! self))(a \<mapsto> v)\<rparr>]\<rparr>)"

section \<open>The constructor\<close>

text \<open>\<open>__init__\<close>: load the library, open the device; either may raise. The test for a negative
  descriptor is the code's. The result is the new object.\<close>

definition load_lib :: "kernel \<Rightarrow> (exn + unit) \<times> kernel" where
  "load_lib k = (if shlib k then (Inr (), k) else (Inl (OSError ENOENT), k))"

definition gennum_init :: "(machine, nat) py" where
  "gennum_init =
     py_seq (on_kernel load_lib)
       (py_bind (on_kernel sys_open)
         (\<lambda>fd m. (Inr (length (objs m)),
                   m\<lparr>objs := objs m @ [\<lparr>g_fd = fd, g_errno = (if fd < 0 then fd else 0),
                                          g_attrs = Map.empty\<rparr>]\<rparr>)))"

section \<open>Reading and writing\<close>

definition gennum_iread :: "kenv \<Rightarrow> nat \<Rightarrow> int \<Rightarrow> int \<Rightarrow> int \<Rightarrow> (machine, int) py" where
  "gennum_iread env self bar offset width =
     py_bind (py_lift (dict_get bar_map bar)) (\<lambda>base.
     py_bind (py_get (self_fd self)) (\<lambda>fd.
     py_bind (on_kernel_ref (rr_iread env fd (RR_Iocmd (base + offset) width 0))) (\<lambda>(r, ds).
     py_seq (set_errno self r)
       (py_ret (int (data32 ds))))))"

definition gennum_read :: "kenv \<Rightarrow> nat \<Rightarrow> int \<Rightarrow> int \<Rightarrow> int \<Rightarrow> (machine, int) py" where
  "gennum_read env self bar offset width =
     py_bind (py_lift (dict_get bar_map bar)) (\<lambda>base.
     py_bind (py_get (self_fd self)) (\<lambda>fd.
     py_bind (on_kernel (sys_lseek fd (base + offset))) (\<lambda>pos.
     py_seq (set_errno self pos)
       (py_bind (on_kernel (sys_read env fd width)) (\<lambda>buf.
        py_bind (py_lift (dict_get fmt width)) (\<lambda>f.
        py_lift (struct_unpack f buf)))))))"

definition gennum_iwrite :: "kenv \<Rightarrow> nat \<Rightarrow> int \<Rightarrow> int \<Rightarrow> int \<Rightarrow> int \<Rightarrow> (machine, int) py" where
  "gennum_iwrite env self bar offset width datum =
     py_bind (py_lift (dict_get bar_map bar)) (\<lambda>base.
     py_bind (py_get (self_fd self)) (\<lambda>fd.
     py_bind (on_kernel_ref (rr_iwrite env fd (RR_Iocmd (base + offset) width datum))) (\<lambda>(r, ds).
     py_seq (set_errno self r)
       (py_ret (int (data32 ds))))))"

definition gennum_write :: "kenv \<Rightarrow> nat \<Rightarrow> int \<Rightarrow> int \<Rightarrow> int \<Rightarrow> int \<Rightarrow> (machine, int) py" where
  "gennum_write env self bar offset width datum =
     py_bind (py_lift (dict_get bar_map bar)) (\<lambda>base.
     py_bind (py_get (self_fd self)) (\<lambda>fd.
     py_bind (on_kernel (sys_lseek fd (base + offset))) (\<lambda>pos.
     py_seq (set_errno self pos)
       (py_bind (py_lift (dict_get fmt width)) (\<lambda>f.
        py_bind (py_lift (struct_pack f datum)) (\<lambda>buf.
        on_kernel (sys_write fd buf)))))))"

section \<open>Interrupts and the DMA buffer\<close>

definition gennum_irqwait :: "kenv \<Rightarrow> nat \<Rightarrow> (machine, int) py" where
  "gennum_irqwait env self = py_bind (py_get (self_fd self)) (\<lambda>fd. on_kernel (rr_irqwait env fd))"

definition gennum_irqena :: "kenv \<Rightarrow> nat \<Rightarrow> (machine, int) py" where
  "gennum_irqena env self = py_bind (py_get (self_fd self)) (\<lambda>fd. on_kernel (rr_irqena env fd))"

definition gennum_getdmasize :: "kenv \<Rightarrow> nat \<Rightarrow> (machine, int) py" where
  "gennum_getdmasize env self =
     py_bind (py_get (self_fd self)) (\<lambda>fd. on_kernel (rr_getdmasize env fd))"

text \<open>\<open>Plist\<close> is an array of 256 signed 32-bit integers, zero at first; the driver stores its
  page list over it, wherever it ends. The result of the call is dropped.\<close>

definition Plist_len :: nat where "Plist_len = 256"

definition as_c_int :: "nat \<Rightarrow> int" where
  "as_c_int n = signed_take_bit 31 (int n)"

definition plist_store :: "nat list \<Rightarrow> exn + int list" where
  "plist_store ps =
     (if Plist_len < length ps then Inl MemoryCorruption
      else Inr (map as_c_int ps @ replicate (Plist_len - length ps) 0))"

definition gennum_getplist :: "kenv \<Rightarrow> nat \<Rightarrow> (machine, int list) py" where
  "gennum_getplist env self =
     py_bind (py_get (self_fd self)) (\<lambda>fd.
     py_bind (on_kernel_ref (rr_getplist env fd)) (\<lambda>(r, ps). py_lift (plist_store ps)))"

section \<open>Selecting the device\<close>

definition devsel_fields :: "(string \<times> (rr_devsel \<Rightarrow> nat)) list" where
  "devsel_fields = [(''vendor'', vendor), (''device'', device), (''subvendor'', subvendor),
                    (''subdevice'', subdevice), (''bus'', bus), (''devfn'', devfn)]"

definition info_string :: "rr_devsel \<Rightarrow> string" where
  "info_string d =
     fmt_hexw 4 (int (vendor d)) @ '':'' @ fmt_hexw 4 (int (device d)) @ ''/''
     @ fmt_hexw 4 (int (subvendor d)) @ '':'' @ fmt_hexw 4 (int (subdevice d)) @ ''@''
     @ fmt_hexw 4 (int (bus d)) @ '':'' @ fmt_hexw 4 (int (devfn d))"

definition gennum_info :: "kenv \<Rightarrow> nat \<Rightarrow> (machine, string) py" where
  "gennum_info env self =
     py_bind (py_get (self_fd self)) (\<lambda>fd.
     py_bind (on_kernel_ref (rr_devget_call env fd RR_Devsel_0)) (\<lambda>(r, ds).
     py_seq (set_errno self r)
       (py_seq (py_block (map (\<lambda>(key, field). set_attr self key (int (field ds))) devsel_fields))
         (py_ret (info_string ds)))))"

text \<open>The pattern of \<open>parse_addr\<close>, case-insensitive.\<close>

definition is_hexd :: "char \<Rightarrow> bool" where
  "is_hexd c = (case digit_val c of None \<Rightarrow> False | Some d \<Rightarrow> d < 16)"

definition rx_hex :: "string \<Rightarrow> rx" where
  "rx_hex g = Grp g (Rep 1 (Some 4) True is_hexd)"

definition addr_reg :: rx where
  "addr_reg = cats [Bol, rx_hex ''vendor'', Lit '':'', rx_hex ''device'',
      Opt (cats [Lit ''/'', rx_hex ''subvendor'', Lit '':'', rx_hex ''subdevice'']),
      Opt (cats [Lit ''@'', rx_hex ''bus'', Lit '':'', rx_hex ''devfn'']), Eol]"

text \<open>The dictionary \<open>groupdict\<close> returns and the function edits: one entry per group of the
  pattern, \<open>None\<close>, a string or an integer.\<close>

datatype pyval = VNone | VStr string | VInt int

type_synonym dict = "(string \<times> pyval) list"

definition groupdict :: "string list \<Rightarrow> captures \<Rightarrow> dict" where
  "groupdict gs c = map (\<lambda>g. (g, case map_of c g of None \<Rightarrow> VNone | Some t \<Rightarrow> VStr t)) gs"

definition has_key :: "string \<Rightarrow> dict \<Rightarrow> bool" where
  "has_key g d = (g \<in> set (map fst d))"

definition dict_set :: "string \<Rightarrow> pyval \<Rightarrow> dict \<Rightarrow> dict" where
  "dict_set g v d = (if has_key g d then map (\<lambda>(h, w). (h, if h = g then v else w)) d else d @ [(g, v)])"

definition addr_groups :: "string list" where
  "addr_groups = [''vendor'', ''device'', ''subvendor'', ''subdevice'', ''bus'', ''devfn'']"

text \<open>The loop that turns the strings of the dictionary into integers.\<close>

fun int_items :: "dict \<Rightarrow> exn + dict" where
  "int_items [] = Inr []"
| "int_items ((g, v) # d) =
     (case (case v of VStr t \<Rightarrow> (case py_int 16 t of Inl e \<Rightarrow> Inl e | Inr n \<Rightarrow> Inr (VInt n)) | _ \<Rightarrow> Inr v) of
        Inl e \<Rightarrow> Inl e
      | Inr w \<Rightarrow> (case int_items d of Inl e \<Rightarrow> Inl e | Inr d1 \<Rightarrow> Inr ((g, w) # d1)))"

definition parse_addr :: "string \<Rightarrow> exn + dict" where
  "parse_addr addr =
     (case re_match addr_reg addr of
        None \<Rightarrow> Inl AttributeError
      | Some (j, c) \<Rightarrow>
          let u = VInt (int RR_DEVSEL_UNUSED);
              d0 = groupdict addr_groups c;
              d1 = (if \<not> has_key ''sub'' d0
                    then dict_set ''subdevice'' u (dict_set ''subvendor'' u d0) else d0);
              d2 = (if \<not> has_key ''geo'' d1
                    then dict_set ''devfn'' u (dict_set ''bus'' u d1) else d1)
          in int_items d2)"

text \<open>\<open>RR_Devsel(**d)\<close>: every value must be an integer; it wraps at 16 bits.\<close>

definition as_ushort :: "dict \<Rightarrow> string \<Rightarrow> exn + nat" where
  "as_ushort d g =
     (case map_of d g of Some (VInt n) \<Rightarrow> Inr (nat (n mod 2 ^ 16)) | None \<Rightarrow> Inr 0 | _ \<Rightarrow> Inl TypeError)"

definition RR_Devsel :: "dict \<Rightarrow> exn + rr_devsel" where
  "RR_Devsel d =
     (case (as_ushort d ''vendor'', as_ushort d ''device'', as_ushort d ''subvendor'',
            as_ushort d ''subdevice'', as_ushort d ''bus'', as_ushort d ''devfn'') of
        (Inr v, Inr dv, Inr sv, Inr sd, Inr b, Inr df) \<Rightarrow>
          Inr \<lparr>vendor = v, device = dv, subvendor = sv, subdevice = sd, bus = b, devfn = df\<rparr>
      | _ \<Rightarrow> Inl TypeError)"

definition gennum_bind :: "kenv \<Rightarrow> nat \<Rightarrow> string \<Rightarrow> (machine, int) py" where
  "gennum_bind env self dev =
     py_bind (py_lift (parse_addr dev)) (\<lambda>d.
     py_bind (py_lift (RR_Devsel d)) (\<lambda>ds.
     py_bind (py_get (self_fd self)) (\<lambda>fd.
     py_bind (on_kernel (rr_devsel_call env fd ds)) (\<lambda>r.
     py_seq (set_errno self r) (py_ret r)))))"

end
