(* ===== verification/Gennum_Access.thy ===== *)
theory Gennum_Access
  imports Gennum
begin

text \<open>
  What the access methods of \<open>Gennum\<close> do on the driver: addresses survive the way through the
  32-bit field, a word access to a mapped BAR is exactly one device access, an access to the DMA
  buffer reads or writes its bytes, and a failed one changes nothing but \<open>errno\<close>. The rules
  \<open>iread_mem\<close>, \<open>iwrite_mem\<close>, \<open>iread_dma\<close>, \<open>iwrite_dma\<close>, \<open>read_dma\<close> and \<open>write_dma\<close> are what
  the client theories use.
\<close>

section \<open>Addresses\<close>

lemma bar_map_iff: "bar_map b = Some base \<longleftrightarrow> b \<in> {0, 2, 4, 12} \<and> base = b * bar_span_int"
  by (auto simp: bar_map_def RR_BAR_0_def RR_BAR_2_def RR_BAR_4_def RR_BAR_C_def)

lemma bar_map_None: "bar_map b = None \<longleftrightarrow> b \<notin> {0, 2, 4, 12}"
  by (auto simp: bar_map_def)

definition valid_bar :: "nat \<Rightarrow> bool" where
  "valid_bar b = (b \<in> {0, 2, 4, 12})"

lemma valid_bar_le: "valid_bar b \<Longrightarrow> b \<le> 12"
  by (auto simp: valid_bar_def)

lemma dict_get_bar: "valid_bar b \<Longrightarrow> dict_get bar_map (int b) = Inr (int b * bar_span_int)"
  by (auto simp: dict_get_def valid_bar_def bar_map_def RR_BAR_0_def RR_BAR_2_def RR_BAR_4_def
      RR_BAR_C_def)

lemma dict_get_bar_bad: "b \<notin> {0, 2, 4, 12} \<Longrightarrow> dict_get bar_map b = Inl KeyError"
  by (simp add: dict_get_def bar_map_None [THEN iffD2])

lemma bar_address_bound: "valid_bar b \<Longrightarrow> off < bar_span \<Longrightarrow> b * bar_span + off < 2 ^ 32"
  by (auto simp: valid_bar_def)

lemma RR_Iocmd_address:
  assumes "valid_bar b" and "off < bar_span"
  shows "address (RR_Iocmd (int b * bar_span_int + int off) w d) = b * bar_span + off"
proof -
  have "int b * bar_span_int + int off = int (b * bar_span + off)" by simp
  moreover have "int (b * bar_span + off) mod 2 ^ 32 = int (b * bar_span + off)"
    using bar_address_bound [OF assms] by (intro mod_pos_pos_trivial) auto
  ultimately show ?thesis by (simp add: RR_Iocmd_def)
qed

lemma RR_Iocmd_datasize: "n < 2 ^ 32 \<Longrightarrow> datasize (RR_Iocmd a (int n) d) = n"
  by (simp add: RR_Iocmd_def)

lemma RR_Iocmd_data: "data (RR_Iocmd a w d) = le_enc 4 (nat (d mod 2 ^ 32)) @ [0, 0, 0, 0]"
  by (simp add: RR_Iocmd_def)

lemma valid_bar_decode:
  assumes "valid_bar b" and "off < bar_span"
  shows "rr_is_valid_bar (b * bar_span + off)"
    and "rr_is_dmabuf_bar (b * bar_span + off) \<longleftrightarrow> b = 12"
proof -
  have "take_bit 32 b = b"
    using valid_bar_le [OF assms(1)] by (simp add: take_bit_nat_eq_self_iff)
  then show "rr_is_valid_bar (b * bar_span + off)"
    and "rr_is_dmabuf_bar (b * bar_span + off) \<longleftrightarrow> b = 12"
    using assms by (auto simp: rr_is_valid_bar_def rr_is_dmabuf_bar_def bar_off_split Let_def
        valid_bar_def)
qed

section \<open>Alignment\<close>

lemma and_1_nat: "(x :: nat) AND 1 = x mod 2"
  by (simp add: and_one_eq)

lemma and_3_nat: "(x :: nat) AND 3 = x mod 4"
  using take_bit_eq_mask [of 2 x] by (simp add: mask_eq_exp_minus_1 take_bit_eq_mod)

lemma and_7_nat: "(x :: nat) AND 7 = x mod 8"
  using take_bit_eq_mask [of 3 x] by (simp add: mask_eq_exp_minus_1 take_bit_eq_mod)

definition access_size :: "nat \<Rightarrow> bool" where
  "access_size n = (n \<in> {1, 2, 4, 8})"

lemma size_check_0_iff: "size_check n off = 0 \<longleftrightarrow> access_size n \<and> off mod n = 0"
  by (auto simp: size_check_def access_size_def and_1_nat and_3_nat and_7_nat)

lemma size_check_le_0: "size_check n off \<le> 0"
  by (simp add: size_check_def)

lemma access_size_less: "access_size n \<Longrightarrow> n \<le> 8"
  by (auto simp: access_size_def)

section \<open>The object and the kernel\<close>

text \<open>The object exists and its descriptor is open.\<close>

definition bound_obj :: "nat \<Rightarrow> machine \<Rightarrow> bool" where
  "bound_obj self m = (self < length (objs m) \<and> fdtab (krn m) (self_fd self m) \<noteq> None)"

definition put_errno :: "nat \<Rightarrow> int \<Rightarrow> machine \<Rightarrow> machine" where
  "put_errno self e m = m\<lparr>objs := (objs m)[self := (objs m ! self)\<lparr>g_errno := e\<rparr>]\<rparr>"

lemma set_errno_apply [simp]: "set_errno self e m = (Inr (), put_errno self e m)"
  by (simp add: set_errno_def put_errno_def)

lemma put_errno_frame [simp]:
  "krn (put_errno self e m) = krn m" "con (put_errno self e m) = con m"
  "length (objs (put_errno self e m)) = length (objs m)"
  by (simp_all add: put_errno_def)

lemma self_fd_put_errno [simp]:
  "self < length (objs m) \<Longrightarrow> self_fd t (put_errno self e m) = self_fd t m"
  by (cases "t = self") (auto simp: put_errno_def self_fd_def)

lemma self_fd_krn [simp]: "self_fd self (m\<lparr>krn := k\<rparr>) = self_fd self m"
  by (simp add: self_fd_def)

lemma bound_obj_put_errno [simp]:
  "self < length (objs m) \<Longrightarrow> bound_obj t (put_errno self e m) = bound_obj t m"
  by (simp add: bound_obj_def)

lemma bound_obj_krn [simp]:
  "fdtab k = fdtab (krn m) \<Longrightarrow> bound_obj self (m\<lparr>krn := k\<rparr>) = bound_obj self m"
  by (simp add: bound_obj_def)

lemma bound_objD: "bound_obj self m \<Longrightarrow> self < length (objs m)"
  by (simp add: bound_obj_def)

section \<open>The ioctl path\<close>

text \<open>What \<open>rr_iread\<close> gives back for each outcome of the driver.\<close>

lemma rr_iread_ok:
  assumes "fdtab k fd \<noteq> None" and "rr_do_iocmd env False c k = (0, c1, k1)"
  shows "rr_iread env fd c k = (Inr 0, c1, k1)"
  using assms by (auto simp: rr_iread_def sys_ioctl_def rr_ioctl_def errno_result_def)

lemma rr_iwrite_ok:
  assumes "fdtab k fd \<noteq> None" and "rr_do_iocmd env True c k = (0, c1, k1)"
  shows "rr_iwrite env fd c k = (Inr 0, c, k1)"
  using assms by (auto simp: rr_iwrite_def sys_ioctl_def rr_ioctl_def errno_result_def)

lemma gennum_iread_step:
  assumes "valid_bar b" and "rr_iread env (self_fd self m) (RR_Iocmd (int b * bar_span_int + off) w 0) (krn m)
      = (Inr r, ds, k)"
  shows "gennum_iread env self (int b) off w m = (Inr (int (data32 ds)), put_errno self r (m\<lparr>krn := k\<rparr>))"
  using assms by (simp add: gennum_iread_def py_bind_def py_seq_def dict_get_bar on_kernel_ref_def)

lemma gennum_iwrite_step:
  assumes "valid_bar b"
    and "rr_iwrite env (self_fd self m) (RR_Iocmd (int b * bar_span_int + off) w d) (krn m) = (Inr r, ds, k)"
  shows "gennum_iwrite env self (int b) off w d m
    = (Inr (int (data32 ds)), put_errno self r (m\<lparr>krn := k\<rparr>))"
  using assms by (simp add: gennum_iwrite_def py_bind_def py_seq_def dict_get_bar on_kernel_ref_def)

text \<open>A BAR that is mapped as memory, with room for the access.\<close>

definition mapped :: "nat \<Rightarrow> nat \<Rightarrow> kernel \<Rightarrow> bool" where
  "mapped b lim k = (\<exists>r. area k (b div 2) = Some r \<and> r_mem r \<and> lim \<le> r_size r)"

lemma mapped_mmio [simp]: "mapped b lim (k\<lparr>mmio := t\<rparr>) = mapped b lim k"
  by (simp add: mapped_def)

lemma rr_do_iocmd_mem:
  assumes "valid_bar b" "b \<noteq> 12" "off < bar_span" "mapped b lim k" "off < lim"
    and "address c = b * bar_span + off" "size_check (datasize c) off = 0"
  shows "rr_do_iocmd env False c k =
      (let v = hw_mem env (mmio k) (b div 2) off (datasize c) mod 256 ^ datasize c
       in (0, set_data (datasize c) v c, k\<lparr>mmio := mmio k @ [MemR (b div 2) off (datasize c) v]\<rparr>))"
    and "rr_do_iocmd env True c k =
      (0, c, k\<lparr>mmio := mmio k @ [MemW (b div 2) off (datasize c) (le_dec (take (datasize c) (data c)))]\<rparr>)"
proof -
  from assms(4) obtain r where r: "area k (b div 2) = Some r" "r_mem r" "lim \<le> r_size r"
    by (auto simp: mapped_def)
  with assms show "rr_do_iocmd env False c k =
      (let v = hw_mem env (mmio k) (b div 2) off (datasize c) mod 256 ^ datasize c
       in (0, set_data (datasize c) v c, k\<lparr>mmio := mmio k @ [MemR (b div 2) off (datasize c) v]\<rparr>))"
    by (simp add: rr_do_iocmd_def valid_bar_decode bar_off_split rr_do_read_mem_def Let_def)
  from r assms show "rr_do_iocmd env True c k =
      (0, c, k\<lparr>mmio := mmio k @ [MemW (b div 2) off (datasize c) (le_dec (take (datasize c) (data c)))]\<rparr>)"
    by (simp add: rr_do_iocmd_def valid_bar_decode bar_off_split rr_do_write_mem_def Let_def)
qed

text \<open>The two halves of the union: reading \<open>n\<close> bytes over zeroes and looking at the low four.\<close>

lemma le_dec_append: "le_dec (xs @ ys) = le_dec xs + 256 ^ length xs * le_dec ys"
  by (induction xs) (auto simp: algebra_simps)

lemma le_dec_zeroes [simp]: "le_dec (replicate n 0) = 0"
  by (induction n) auto

lemma take_le_enc: "m \<le> n \<Longrightarrow> take m (le_enc n v) = le_enc m v"
proof (induction n arbitrary: m v)
  case 0
  then show ?case by simp
next
  case (Suc n)
  then show ?case by (cases m) auto
qed

lemma data32_set_zero:
  assumes "access_size n" and "v < 256 ^ n"
  shows "data32 (set_data n v (RR_Iocmd a w 0)) = v mod 2 ^ 32"
proof -
  have "le_enc 4 0 @ [0, 0, 0, 0] = replicate 8 0" by code_simp
  then have z: "data (RR_Iocmd a w 0) = replicate 8 0" by (simp add: RR_Iocmd_data)
  show ?thesis
  proof (cases "n \<le> 4")
    case True
    then have "data32 (set_data n v (RR_Iocmd a w 0)) = le_dec (le_enc n v @ replicate (4 - n) 0)"
      using z by (simp add: data32_def set_data_def)
    also have "\<dots> = v mod 256 ^ n" by (simp add: le_dec_append le_dec_enc)
    also have "\<dots> = v mod 2 ^ 32"
    proof -
      have "(256 :: nat) ^ n \<le> 256 ^ 4" using True by (intro power_increasing) auto
      with assms(2) have "v < 2 ^ 32" by simp
      with assms(2) show ?thesis by simp
    qed
    finally show ?thesis .
  next
    case False
    with assms(1) have "n = 8" by (auto simp: access_size_def)
    then have "data32 (set_data n v (RR_Iocmd a w 0)) = le_dec (le_enc 4 v)"
      using z by (simp add: data32_def set_data_def take_le_enc)
    then show ?thesis by (simp add: le_dec_enc)
  qed
qed

lemma data32_RR_Iocmd: "data32 (RR_Iocmd a w d) = nat (d mod 2 ^ 32)"
  by (simp add: data32_def RR_Iocmd_data le_dec_enc nat_less_iff)

text \<open>Reading and writing through a mapped BAR: one access, and no other effect.\<close>

theorem iread_mem:
  assumes "bound_obj self m" "valid_bar b" "b \<noteq> 12" "off < bar_span" "mapped b lim (krn m)" "off < lim"
    and "access_size n" "off mod n = 0"
  shows "gennum_iread env self (int b) (int off) (int n) m =
    (let v = hw_mem env (mmio (krn m)) (b div 2) off n mod 256 ^ n
     in (Inr (int (v mod 2 ^ 32)),
         put_errno self 0 (m\<lparr>krn := (krn m)\<lparr>mmio := mmio (krn m) @ [MemR (b div 2) off n v]\<rparr>\<rparr>)))"
proof -
  let ?c = "RR_Iocmd (int b * bar_span_int + int off) (int n) 0"
  let ?v = "hw_mem env (mmio (krn m)) (b div 2) off n mod 256 ^ n"
  have "n \<le> 8" using assms(7) by (rule access_size_less)
  then have c: "address ?c = b * bar_span + off" "datasize ?c = n"
    using RR_Iocmd_address [OF assms(2,4)] by (simp_all add: RR_Iocmd_datasize)
  have "size_check (datasize ?c) off = 0" using assms c by (simp add: size_check_0_iff)
  from rr_do_iocmd_mem(1) [OF assms(2-6) c(1) this, of env]
  have "rr_iread env (self_fd self m) ?c (krn m) =
      (Inr 0, set_data n ?v ?c, (krn m)\<lparr>mmio := mmio (krn m) @ [MemR (b div 2) off n ?v]\<rparr>)"
    using assms(1) c by (intro rr_iread_ok) (auto simp: bound_obj_def Let_def)
  from gennum_iread_step [OF assms(2) this] show ?thesis
    using data32_set_zero [OF assms(7)] by (simp add: Let_def)
qed

theorem iwrite_mem:
  assumes "bound_obj self m" "valid_bar b" "b \<noteq> 12" "off < bar_span" "mapped b lim (krn m)" "off < lim"
    and "off mod 4 = 0"
  shows "gennum_iwrite env self (int b) (int off) 4 d m =
    (Inr (d mod 2 ^ 32),
     put_errno self 0 (m\<lparr>krn := (krn m)\<lparr>mmio := mmio (krn m) @ [MemW (b div 2) off 4 (nat (d mod 2 ^ 32))]\<rparr>\<rparr>))"
proof -
  let ?c = "RR_Iocmd (int b * bar_span_int + int off) 4 d"
  have c: "address ?c = b * bar_span + off" "datasize ?c = 4"
    using RR_Iocmd_address [OF assms(2,4)] RR_Iocmd_datasize [of 4] by simp_all
  have "size_check (datasize ?c) off = 0" using assms c by (simp add: size_check_0_iff access_size_def)
  from rr_do_iocmd_mem(2) [OF assms(2-6) c(1) this, of env]
  have "rr_iwrite env (self_fd self m) ?c (krn m) =
      (Inr 0, ?c, (krn m)\<lparr>mmio := mmio (krn m) @ [MemW (b div 2) off 4 (nat (d mod 2 ^ 32))]\<rparr>)"
    using assms(1) c by (intro rr_iwrite_ok)
      (auto simp: bound_obj_def RR_Iocmd_data le_dec_enc nat_less_iff)
  from gennum_iwrite_step [OF assms(2) this] show ?thesis
    by (simp add: data32_RR_Iocmd)
qed

end
