(* ===== verification/Gennum_Ports.thy ===== *)
theory Gennum_Ports
  imports Gennum_Access Interfaces
begin

text \<open>
  The two interfaces \<open>Gennum\<close> provides, as interpretations: the DMA buffer is a \<open>word_store\<close>, over
  the ioctl methods \<open>iread\<close>/\<open>iwrite\<close> and over the file methods \<open>read\<close>/\<open>write\<close>; BAR 4 of a bound
  device is a \<open>reg_port\<close>. Then the laws of failed accesses: nothing but \<open>errno\<close> changes.
\<close>

section \<open>The DMA buffer\<close>

text \<open>The first \<open>N\<close> bytes of the buffer can be used through object \<open>self\<close>.\<close>

definition dma_good :: "nat \<Rightarrow> nat \<Rightarrow> machine \<Rightarrow> bool" where
  "dma_good N self m =
     (bound_obj self m \<and> N \<le> bufsize (krn m) \<and> N \<le> bar_span
      \<and> bufsize (krn m) \<le> length (dmabuf (krn m)) \<and> list_all (\<lambda>b. b < 256) (dmabuf (krn m)))"

definition dma_word :: "nat \<Rightarrow> machine \<Rightarrow> nat \<Rightarrow> int" where
  "dma_word n m off = int (le_dec (read_run (dmabuf (krn m)) off n))"

lemma dma_goodD:
  assumes "dma_good N self m"
  shows "bound_obj self m" "N \<le> bufsize (krn m)" "N \<le> bar_span"
    "bufsize (krn m) \<le> length (dmabuf (krn m))" "\<forall>b \<in> set (dmabuf (krn m)). b < 256"
    "fdtab (krn m) (self_fd self m) \<noteq> None" "self < length (objs m)"
  using assms by (auto simp: dma_good_def list_all_iff bound_obj_def)

lemma dma_good_put_errno [simp]: "dma_good N self (put_errno self e m) = dma_good N self m"
proof (cases "self < length (objs m)")
  case True
  then show ?thesis by (simp add: dma_good_def)
next
  case False
  then show ?thesis by (simp add: dma_good_def bound_obj_def)
qed

lemma dma_word_put_errno [simp]: "dma_word n (put_errno self e m) = dma_word n m"
  by (rule ext) (simp add: dma_word_def)

lemma dma_word_krn: "dmabuf k = dmabuf (krn m) \<Longrightarrow> dma_word n (m\<lparr>krn := k\<rparr>) = dma_word n m"
  by (rule ext) (simp add: dma_word_def)

lemma set_read_run: "set (read_run xs i n) \<subseteq> set xs"
  by (metis read_run_def set_drop_subset set_take_subset subset_trans)

lemma set_write_run: "set (write_run xs i ys) \<subseteq> set xs \<union> set ys"
  using set_take_subset [of i xs] set_drop_subset [of "i + length ys" xs] by (auto simp: write_run_def)

lemma rr_do_iocmd_dma:
  assumes "off < bar_span" and "address c = 12 * bar_span + off"
  shows "rr_do_iocmd env wr c k = rr_do_iocmd_dmabuf wr c k"
proof -
  have "valid_bar 12" by (simp add: valid_bar_def)
  from valid_bar_decode [OF this assms(1)] assms(2) show ?thesis
    by (simp add: rr_do_iocmd_def Let_def)
qed

lemma dma_pos:
  assumes "off < bar_span"
  shows "rr_is_valid_bar (12 * bar_span + off)" "RR_BAR_BUF \<le> 12 * bar_span + off"
    "RR_GET_OFF (12 * bar_span + off) = off"
  using assms valid_bar_decode(1) [of 12 off] bar_off_split(2) [of off 12]
  by (simp_all add: valid_bar_def RR_BAR_BUF_def)

theorem iread_dma:
  assumes g: "dma_good N self m" and "access_size n" "n \<le> 4" "off + n \<le> N" "off mod n = 0"
  shows "gennum_iread env self 12 (int off) (int n) m = (Inr (dma_word n m off), put_errno self 0 m)"
proof -
  let ?c = "RR_Iocmd (int 12 * bar_span_int + int off) (int n) 0" and ?k = "krn m"
  let ?bs = "read_run (dmabuf ?k) off n"
  note D = dma_goodD [OF g]
  have vb: "valid_bar 12" by (simp add: valid_bar_def)
  have n0: "0 < n" using assms(2) by (auto simp: access_size_def)
  with assms(4) D have off: "off < bar_span" "off < bufsize ?k" by auto
  have c: "address ?c = 12 * bar_span + off" "datasize ?c = n"
    using RR_Iocmd_address [OF vb off(1)] assms(3) by (simp_all add: RR_Iocmd_datasize)
  have len: "length ?bs = n" using assms(4) D by simp
  have lt: "\<forall>b \<in> set ?bs. b < 256" using D(5) set_read_run [of "dmabuf ?k" off n] by blast
  have v: "le_dec ?bs < 256 ^ n" using le_dec_bound [OF lt] len by simp
  have "size_check (datasize ?c) off = 0" using assms c by (simp add: size_check_0_iff)
  then have "rr_do_iocmd env False ?c ?k = (0, set_data n (le_dec ?bs) ?c, ?k)"
    using rr_do_iocmd_dma [OF off(1) c(1)] off(2) c le_enc_dec [OF lt len] dma_pos(3) [OF off(1)]
    by (simp add: rr_do_iocmd_dmabuf_def set_data_def Let_def)
  then have "rr_iread env (self_fd self m) ?c ?k = (Inr 0, set_data n (le_dec ?bs) ?c, ?k)"
    using D(6) by (rule rr_iread_ok [rotated])
  from gennum_iread_step [OF vb this]
  have r: "gennum_iread env self 12 (int off) (int n) m
      = (Inr (int (data32 (set_data n (le_dec ?bs) ?c))), put_errno self 0 m)" by simp
  have "le_dec ?bs < 2 ^ 32"
  proof -
    have "(256 :: nat) ^ n \<le> 256 ^ 4" using assms(3) by (intro power_increasing) auto
    with v show ?thesis by simp
  qed
  with r data32_set_zero [OF assms(2) v] show ?thesis by (simp add: dma_word_def)
qed

text \<open>Storing in the buffer.\<close>

definition dma_store :: "nat \<Rightarrow> nat list \<Rightarrow> machine \<Rightarrow> machine" where
  "dma_store off bs m = m\<lparr>krn := (krn m)\<lparr>dmabuf := write_run (dmabuf (krn m)) off bs\<rparr>\<rparr>"

lemma dma_store_good:
  assumes "dma_good N self m" "off + length bs \<le> N" "\<forall>b \<in> set bs. b < 256"
  shows "dma_good N self (dma_store off bs m)"
proof -
  note D = dma_goodD [OF assms(1)]
  from D(5) assms(3) have "\<forall>b \<in> set (write_run (dmabuf (krn m)) off bs). b < 256"
    using set_write_run [of "dmabuf (krn m)" off bs] by blast
  with D assms(2) show ?thesis
    by (simp add: dma_good_def dma_store_def list_all_iff)
qed

lemma dma_word_store_same:
  assumes "dma_good N self m" "off + n \<le> N" "length bs = n" "\<forall>b \<in> set bs. b < 256"
  shows "dma_word n (dma_store off bs m) off = int (le_dec bs)"
  using assms dma_goodD(2,4) [OF assms(1)] read_write_run_same [of off bs "dmabuf (krn m)"]
  by (simp add: dma_word_def dma_store_def)

lemma dma_word_store_other:
  assumes "dma_good N self m" "off + length bs \<le> N" "b + n \<le> N" "b + n \<le> off \<or> off + length bs \<le> b"
  shows "dma_word n (dma_store off bs m) b = dma_word n m b"
  using assms dma_goodD(2,4) [OF assms(1)] read_write_run_other [of off bs "dmabuf (krn m)" b n]
  by (simp add: dma_word_def dma_store_def)

theorem iwrite_dma:
  assumes g: "dma_good N self m" and "access_size n" "n \<le> 4" "off + n \<le> N" "off mod n = 0"
  shows "gennum_iwrite env self 12 (int off) (int n) d m
    = (Inr (d mod 2 ^ 32), put_errno self 0 (dma_store off (le_enc n (nat (d mod 2 ^ 32))) m))"
proof -
  let ?c = "RR_Iocmd (int 12 * bar_span_int + int off) (int n) d" and ?k = "krn m"
  note D = dma_goodD [OF g]
  have vb: "valid_bar 12" by (simp add: valid_bar_def)
  have n0: "0 < n" using assms(2) by (auto simp: access_size_def)
  with assms(4) D have off: "off < bar_span" "off < bufsize ?k" by auto
  have c: "address ?c = 12 * bar_span + off" "datasize ?c = n"
    using RR_Iocmd_address [OF vb off(1)] assms(3) by (simp_all add: RR_Iocmd_datasize)
  have "size_check (datasize ?c) off = 0" using assms c by (simp add: size_check_0_iff)
  then have "rr_do_iocmd env True ?c ?k
      = (0, ?c, ?k\<lparr>dmabuf := write_run (dmabuf ?k) off (le_enc n (nat (d mod 2 ^ 32)))\<rparr>)"
    using rr_do_iocmd_dma [OF off(1) c(1)] off(2) c assms(3) dma_pos(3) [OF off(1)]
    by (simp add: rr_do_iocmd_dmabuf_def RR_Iocmd_data take_le_enc Let_def)
  then have "rr_iwrite env (self_fd self m) ?c ?k
      = (Inr 0, ?c, ?k\<lparr>dmabuf := write_run (dmabuf ?k) off (le_enc n (nat (d mod 2 ^ 32)))\<rparr>)"
    using D(6) by (rule rr_iwrite_ok [rotated])
  from gennum_iwrite_step [OF vb this] show ?thesis
    by (simp add: data32_RR_Iocmd dma_store_def)
qed

section \<open>The DMA buffer through the file methods\<close>

definition seek_to :: "nat \<Rightarrow> int \<Rightarrow> machine \<Rightarrow> machine" where
  "seek_to self pos m = m\<lparr>krn := (krn m)\<lparr>fdtab := (fdtab (krn m))(self_fd self m \<mapsto> pos)\<rparr>\<rparr>"

lemma dma_good_seek: "dma_good N self m \<Longrightarrow> dma_good N self (seek_to self pos m)"
  by (auto simp: dma_good_def seek_to_def bound_obj_def self_fd_def)

lemma dma_word_seek [simp]: "dma_word n (seek_to self pos m) = dma_word n m"
  by (rule ext) (simp add: dma_word_def seek_to_def)

lemma sys_lseek_dma:
  assumes "off < bar_span" "fdtab k fd \<noteq> None"
  shows "sys_lseek fd (int 12 * bar_span_int + int off) k
    = (Inr (int (12 * bar_span + off)), k\<lparr>fdtab := (fdtab k)(fd \<mapsto> int (12 * bar_span + off))\<rparr>)"
  using assms by (simp add: sys_lseek_def)

lemma fmt_access: "access_size n \<Longrightarrow> \<exists>f. dict_get fmt (int n) = Inr f \<and> calcsize f = n"
  by (auto simp: access_size_def dict_get_def fmt_def calcsize_def)

theorem read_dma:
  assumes g: "dma_good N self m" and "access_size n" "off + n \<le> N"
  shows "gennum_read env self 12 (int off) (int n) m
    = (Inr (dma_word n m off),
       seek_to self (int (12 * bar_span + off + n)) (put_errno self (int (12 * bar_span + off)) m))"
proof -
  let ?k = "krn m" and ?fd = "self_fd self m" and ?p = "12 * bar_span + off"
  note D = dma_goodD [OF g]
  have n0: "0 < n" using assms(2) by (auto simp: access_size_def)
  with assms(3) D have off: "off < bar_span" "off + n \<le> bufsize ?k" by auto
  from fmt_access [OF assms(2)] obtain f where f: "dict_get fmt (int n) = Inr f" "calcsize f = n" by blast
  let ?k1 = "?k\<lparr>fdtab := (fdtab ?k)(?fd \<mapsto> int ?p)\<rparr>"
  have rr: "rr_read env ?p n ?k1 = (int n, read_run (dmabuf ?k) off n, ?k1)"
    using off n0 dma_pos [OF off(1)] by (simp add: rr_read_def Let_def)
  have rd: "sys_read env ?fd (int n) ?k1 = (Inr (read_run (dmabuf ?k) off n),
      ?k\<lparr>fdtab := (fdtab ?k)(?fd \<mapsto> int (?p + n))\<rparr>)"
    using rr by (simp add: sys_read_def nat_add_distrib)
  have len: "length (read_run (dmabuf ?k) off n) = n" using D off by simp
  have v12: "valid_bar 12" by (simp add: valid_bar_def)
  show ?thesis
    using dict_get_bar [OF v12] sys_lseek_dma [OF off(1) D(6)] rd f len D(7)
    by (simp add: gennum_read_def py_bind_def py_seq_def on_kernel_def struct_unpack_def dma_word_def
        seek_to_def put_errno_def self_fd_def)
qed

theorem write_dma:
  assumes g: "dma_good N self m" and "access_size n" "off + n \<le> N" "0 \<le> d" "d < 256 ^ n"
  shows "gennum_write env self 12 (int off) (int n) d m
    = (Inr (int n),
       seek_to self (int (12 * bar_span + off + n))
         (dma_store off (le_enc n (nat d)) (put_errno self (int (12 * bar_span + off)) m)))"
proof -
  let ?k = "krn m" and ?fd = "self_fd self m" and ?p = "12 * bar_span + off"
  note D = dma_goodD [OF g]
  have n0: "0 < n" using assms(2) by (auto simp: access_size_def)
  with assms(3) D have off: "off < bar_span" "off + n \<le> bufsize ?k" by auto
  from fmt_access [OF assms(2)] obtain f where f: "dict_get fmt (int n) = Inr f" "calcsize f = n" by blast
  let ?k1 = "?k\<lparr>fdtab := (fdtab ?k)(?fd \<mapsto> int ?p)\<rparr>" and ?bs = "le_enc n (nat d)"
  have rr: "rr_write ?p ?bs ?k1 = (int n, ?k1\<lparr>dmabuf := write_run (dmabuf ?k) off ?bs\<rparr>)"
    using off n0 dma_pos [OF off(1)] by (simp add: rr_write_def Let_def)
  have wr: "sys_write ?fd ?bs ?k1 = (Inr (int n),
      ?k\<lparr>dmabuf := write_run (dmabuf ?k) off ?bs, fdtab := (fdtab ?k)(?fd \<mapsto> int (?p + n))\<rparr>)"
    using rr by (simp add: sys_write_def nat_add_distrib)
  have v12: "valid_bar 12" by (simp add: valid_bar_def)
  show ?thesis
    using dict_get_bar [OF v12] sys_lseek_dma [OF off(1) D(6)] wr f D(7) assms(4,5)
    by (simp add: gennum_write_def py_bind_def py_seq_def on_kernel_def struct_pack_def
        seek_to_def put_errno_def self_fd_def dma_store_def)
qed

text \<open>Words of the buffer: aligned, and inside the usable part.\<close>

definition word_addr :: "nat \<Rightarrow> nat \<Rightarrow> bool" where
  "word_addr N a = (a mod 4 = 0 \<and> a + 4 \<le> N)"

lemma word_addr_disjoint:
  "word_addr N a \<Longrightarrow> word_addr N b \<Longrightarrow> b \<noteq> a \<Longrightarrow> b + 4 \<le> a \<or> a + 4 \<le> b"
  unfolding word_addr_def by presburger

lemma access_size_4 [simp]: "access_size 4"
  by (simp add: access_size_def)

lemma le_dec_enc_nat: "0 \<le> v \<Longrightarrow> v < 2 ^ 32 \<Longrightarrow> int (le_dec (le_enc 4 (nat v))) = v"
  by (simp add: le_dec_enc nat_less_iff)

lemma dma_store_word:
  assumes "dma_good N self m" "word_addr N a" "0 \<le> v" "v < 2 ^ 32"
  shows "dma_good N self (dma_store a (le_enc 4 (nat v)) m)"
    and "dma_word 4 (dma_store a (le_enc 4 (nat v)) m) a = v"
    and "word_addr N b \<Longrightarrow> b \<noteq> a \<Longrightarrow> dma_word 4 (dma_store a (le_enc 4 (nat v)) m) b = dma_word 4 m b"
proof -
  from assms(2) have a: "a + 4 \<le> N" by (simp add: word_addr_def)
  have bytes: "\<forall>b \<in> set (le_enc 4 (nat v)). b < 256" using le_enc_bytes by blast
  show "dma_good N self (dma_store a (le_enc 4 (nat v)) m)"
    using assms(1) a bytes by (intro dma_store_good) auto
  show "dma_word 4 (dma_store a (le_enc 4 (nat v)) m) a = v"
    using dma_word_store_same [OF assms(1) a _ bytes] le_dec_enc_nat [OF assms(3,4)] by simp
  show "dma_word 4 (dma_store a (le_enc 4 (nat v)) m) b = dma_word 4 m b" if "word_addr N b" "b \<noteq> a"
  proof (rule dma_word_store_other [OF assms(1)])
    show "b + 4 \<le> a \<or> a + length (le_enc 4 (nat v)) \<le> b"
      using word_addr_disjoint [OF assms(2) that] by simp
    show "a + length (le_enc 4 (nat v)) \<le> N" using a by simp
    show "b + 4 \<le> N" using that(1) by (simp add: word_addr_def)
  qed
qed

interpretation dma_ioctl: word_store "dma_good N self" "word_addr N" "dma_word 4"
  "\<lambda>a. gennum_iread env self 12 (int a) 4" "\<lambda>a v. gennum_iwrite env self 12 (int a) 4 v" for env N self
proof (unfold_locales, goal_cases)
  case (1 s a v)
  from 1(2) have "a + 4 \<le> N" "a mod 4 = 0" by (simp_all add: word_addr_def)
  from iwrite_dma [OF 1(1) access_size_4 _ this, of env v] 1 dma_store_word [OF 1]
  show ?case by auto
next
  case (2 s a)
  from 2(2) have "a + 4 \<le> N" "a mod 4 = 0" by (simp_all add: word_addr_def)
  from iread_dma [OF 2(1) access_size_4 _ this, of env] 2 show ?case by simp
qed

interpretation dma_file: word_store "dma_good N self" "word_addr N" "dma_word 4"
  "\<lambda>a. gennum_read env self 12 (int a) 4" "\<lambda>a v. gennum_write env self 12 (int a) 4 v" for env N self
proof (unfold_locales, goal_cases)
  case (1 s a v)
  from 1(2) have a: "a + 4 \<le> N" by (simp add: word_addr_def)
  let ?s = "put_errno self (int (12 * bar_span + a)) s"
  have g: "dma_good N self ?s" using 1(1) by simp
  from write_dma [OF 1(1) access_size_4 a 1(3)] 1(4) have
    "gennum_write env self 12 (int a) 4 v s = (Inr 4, seek_to self (int (12 * bar_span + a + 4))
       (dma_store a (le_enc 4 (nat v)) ?s))" by simp
  with dma_store_word [OF g 1(2-4)] dma_good_seek show ?case by simp
next
  case (2 s a)
  from 2(2) have a: "a + 4 \<le> N" by (simp add: word_addr_def)
  from read_dma [OF 2(1) access_size_4 a, of env] 2(1) show ?case by (simp add: dma_good_seek)
qed

section \<open>The registers of BAR 4\<close>

definition reg_good :: "nat \<Rightarrow> machine \<Rightarrow> bool" where
  "reg_good self m = (bound_obj self m \<and> mapped 4 0x1000 (krn m))"

definition reg_addr :: "int \<Rightarrow> bool" where
  "reg_addr a = (0 \<le> a \<and> a < 0x1000 \<and> a mod 4 = 0)"

text \<open>The 32-bit accesses to BAR 4 in a device history.\<close>

fun bar4_events :: "mmio list \<Rightarrow> reg_event list" where
  "bar4_events [] = []"
| "bar4_events (MemR b off n v # es) =
     (if b = 2 \<and> n = 4 then Rd (int off) (int v) # bar4_events es else bar4_events es)"
| "bar4_events (MemW b off n v # es) =
     (if b = 2 \<and> n = 4 then Wr (int off) (int v) # bar4_events es else bar4_events es)"
| "bar4_events (e # es) = bar4_events es"

definition bar4_trace :: "machine \<Rightarrow> reg_event list" where
  "bar4_trace m = bar4_events (mmio (krn m))"

lemma bar4_events_append: "bar4_events (es @ fs) = bar4_events es @ bar4_events fs"
  by (induction es rule: bar4_events.induct) auto

lemma mod_4_nat: "0 \<le> a \<Longrightarrow> nat a mod 4 = 0 \<longleftrightarrow> a mod 4 = (0 :: int)"
  by (metis nat_0_iff nat_mod_distrib nat_numeral of_nat_0_le_iff pos_mod_sign zero_less_numeral
      nat_zero_as_int int_nat_eq order_refl order_antisym_conv zero_le_numeral)

lemma reg_good_step [simp]:
  "self < length (objs m) \<Longrightarrow>
   reg_good self (put_errno self e (m\<lparr>krn := (krn m)\<lparr>mmio := t\<rparr>\<rparr>)) = reg_good self m"
  by (simp add: reg_good_def)

text \<open>What the device answers to a 32-bit read of BAR 4.\<close>

definition bar4_resp :: "kenv \<Rightarrow> machine \<Rightarrow> int \<Rightarrow> int" where
  "bar4_resp env m a = int (hw_mem env (mmio (krn m)) 2 (nat a) 4 mod 2 ^ 32)"

interpretation bar4: reg_port "reg_good self" reg_addr bar4_trace "bar4_resp env"
  "\<lambda>a. gennum_iread env self 4 a 4" "\<lambda>a v. gennum_iwrite env self 4 a 4 v" for env self
proof (unfold_locales, goal_cases)
  case (1 s a)
  from 1(2) obtain off where a: "a = int off" "off < 0x1000" "off mod 4 = 0"
    by (metis reg_addr_def mod_4_nat nat_0_le nat_less_iff of_nat_numeral)
  from 1(1) have g: "bound_obj self s" "mapped 4 0x1000 (krn s)" by (auto simp: reg_good_def)
  have "valid_bar 4" by (simp add: valid_bar_def)
  from iread_mem [OF g(1) this _ _ g(2) a(2) access_size_4 a(3), of env] a(2)
  show ?case using 1(1) bound_objD [OF g(1)]
    by (simp add: Let_def a(1) bar4_trace_def bar4_events_append bar4_resp_def)
next
  case (2 s a)
  show ?case by (simp add: bar4_resp_def)
next
  case (3 s a v)
  from 3(2) obtain off where a: "a = int off" "off < 0x1000" "off mod 4 = 0"
    by (metis reg_addr_def mod_4_nat nat_0_le nat_less_iff of_nat_numeral)
  from 3(1) have g: "bound_obj self s" "mapped 4 0x1000 (krn s)" by (auto simp: reg_good_def)
  have "valid_bar 4" by (simp add: valid_bar_def)
  from iwrite_mem [OF g(1) this _ _ g(2) a(2,3), of env v] a(2)
  show ?case using 3 bound_objD [OF g(1)]
    by (simp add: a(1) bar4_trace_def bar4_events_append)
qed

end
