(* ===== verification/Program.thy ===== *)
theory Program
  imports Gennum
begin

text \<open>
  A program on top of the class \<open>Gennum\<close>: the print and input statements and the files in the
  state of the running program, and the two frame relations its parts are checked against: \<open>same_world\<close>
  (no input taken, no file changed) and \<open>only N\<close> (input only taken, no file outside \<open>N\<close> changed).
\<close>

section \<open>Console and files in the state of a program\<close>

definition on_con :: "(console \<Rightarrow> (exn + 'a) \<times> console) \<Rightarrow> (machine, 'a) py" where
  "on_con f m = (let (r, c) = f (con m) in (r, m\<lparr>con := c\<rparr>))"

definition open_read :: "string \<Rightarrow> (machine, string) py" where
  "open_read name m =
     (case fls (con m) name of None \<Rightarrow> (Inl IOError, m) | Some text \<Rightarrow> (Inr text, m))"

definition file_put :: "string \<Rightarrow> string \<Rightarrow> (machine, unit) py" where
  "file_put name text = py_modify (\<lambda>m. m\<lparr>con := (con m)\<lparr>fls := (fls (con m))(name \<mapsto> text)\<rparr>\<rparr>)"

definition print_con :: "string \<Rightarrow> (machine, unit) py" where
  "print_con s = py_modify (\<lambda>m. m\<lparr>con := print_ln s (con m)\<rparr>)"

definition print_con_comma :: "string \<Rightarrow> (machine, unit) py" where
  "print_con_comma s = py_modify (\<lambda>m. m\<lparr>con := print_comma s (con m)\<rparr>)"

definition print_con_nl :: "(machine, unit) py" where
  "print_con_nl = py_modify (\<lambda>m. m\<lparr>con := print_nl (con m)\<rparr>)"

text \<open>\<open>sys.stdout.write\<close>.\<close>

definition write_con :: "string \<Rightarrow> (machine, unit) py" where
  "write_con s = py_modify (\<lambda>m. m\<lparr>con := (con m)\<lparr>out := out (con m) @ s, soft := False\<rparr>\<rparr>)"

section \<open>Frames\<close>

definition same_world :: "machine \<Rightarrow> machine \<Rightarrow> bool" where
  "same_world m t \<longleftrightarrow> inp (con t) = inp (con m) \<and> fls (con t) = fls (con m)"

text \<open>No input is put back, and no file outside \<open>N\<close> changes.\<close>

definition only :: "string set \<Rightarrow> machine \<Rightarrow> machine \<Rightarrow> bool" where
  "only N m t \<longleftrightarrow> length (inp (con t)) \<le> length (inp (con m))
     \<and> (\<forall>n. n \<notin> N \<longrightarrow> fls (con t) n = fls (con m) n)"

lemma same_world_order: "reflp same_world" "transp same_world"
  by (auto simp: same_world_def intro!: reflpI transpI)

lemma only_order: "reflp (only N)" "transp (only N)"
  by (auto simp: only_def intro!: reflpI transpI)

lemma keeps_on_con:
  assumes "\<And>m. R m (m\<lparr>con := snd (f (con m))\<rparr>)"
  shows "keeps R (on_con f)"
  using assms by (simp add: keeps_def on_con_def split: prod.splits) (metis snd_conv)

lemma print_con_same: "keeps same_world (print_con x)"
  by (simp add: keeps_def print_con_def same_world_def)

lemma keeps_only: "keeps same_world m \<Longrightarrow> keeps (only N) m"
  by (erule keeps_weaken) (simp add: same_world_def only_def)

lemma only_mono: "keeps (only M) m \<Longrightarrow> M \<subseteq> N \<Longrightarrow> keeps (only N) m"
  by (erule keeps_weaken) (auto simp: only_def)

lemma bind_only: "keeps (only N) m \<Longrightarrow> (\<And>v. keeps (only N) (f v)) \<Longrightarrow> keeps (only N) (py_bind m f)"
  by (rule keeps_bind [OF only_order(2)])

lemma seq_only: "keeps (only N) m \<Longrightarrow> keeps (only N) n \<Longrightarrow> keeps (only N) (py_seq m n)"
  unfolding py_seq_def by (rule bind_only)

lemma ret_only: "keeps (only N) (py_ret v)" "keeps (only N) (py_raise e)" "keeps (only N) (py_lift r)"
  by (simp_all add: keeps_def only_def)

lemma raw_input_only: "keeps (only N) (on_con (raw_input prompt))"
  by (rule keeps_on_con) (simp add: only_def raw_input_def split: list.split)

lemma open_read_only: "keeps (only N) (open_read name)"
  by (auto simp: keeps_def only_def open_read_def split: option.split)

lemma file_put_only: "name \<in> N \<Longrightarrow> keeps (only N) (file_put name text)"
  by (auto simp: keeps_def only_def file_put_def)

lemma if_only: "keeps (only N) m \<Longrightarrow> keeps (only N) n \<Longrightarrow> keeps (only N) (if b then m else n)"
  by simp

lemma case_prod_only: "(\<And>a b. keeps (only N) (f a b)) \<Longrightarrow> keeps (only N) (case p of (a, b) \<Rightarrow> f a b)"
  by (cases p) simp

lemma block_only: "(\<And>m. m \<in> set ms \<Longrightarrow> keeps (only N) m) \<Longrightarrow> keeps (only N) (py_block ms)"
  by (rule keeps_block [OF only_order])

lemma print_same:
  "keeps same_world (print_con_comma x)" "keeps same_world print_con_nl" "keeps same_world (write_con x)"
  by (simp_all add: keeps_def print_con_comma_def print_con_nl_def write_con_def same_world_def)

section \<open>The methods of Gennum under a frame\<close>

text \<open>A relation between machines that every system call of the library and every update of an object
  keeps is kept by the methods.\<close>

locale method_frame =
  fixes R :: "machine \<Rightarrow> machine \<Rightarrow> bool" and env :: kenv
  assumes R_refl: "reflp R"
    and R_trans: "transp R"
    and update_R: "R m (m\<lparr>objs := os\<rparr>)"
    and ioctl_R: "R m (m\<lparr>krn := snd (snd (sys_ioctl env fd cmd (krn m)))\<rparr>)"
    and lseek_R: "R m (m\<lparr>krn := snd (sys_lseek fd p (krn m))\<rparr>)"
    and read_R: "R m (m\<lparr>krn := snd (sys_read env fd n (krn m))\<rparr>)"
    and write_R: "R m (m\<lparr>krn := snd (sys_write fd bs (krn m))\<rparr>)"
    and open_R: "R m (m\<lparr>krn := snd (sys_open (krn m))\<rparr>)"
begin

lemma bind_R: "keeps R m \<Longrightarrow> (\<And>v. keeps R (f v)) \<Longrightarrow> keeps R (py_bind m f)"
  by (rule keeps_bind [OF R_trans])

lemma seq_R: "keeps R m \<Longrightarrow> keeps R n \<Longrightarrow> keeps R (py_seq m n)"
  unfolding py_seq_def by (rule bind_R)

lemma block_R: "(\<And>m. m \<in> set ms \<Longrightarrow> keeps R m) \<Longrightarrow> keeps R (py_block ms)"
  by (rule keeps_block [OF R_refl R_trans])

lemma pure_R: "keeps R (py_ret v)" "keeps R (py_lift r)" "keeps R (py_get g)"
  using R_refl by (simp_all add: keeps_def reflpD)

lemma object_R: "keeps R (set_errno self e)" "keeps R (set_attr self a v)"
  using update_R by (simp_all add: keeps_def set_errno_def set_attr_def)

lemma kernel_R: "(\<And>m. R m (m\<lparr>krn := snd (f (krn m))\<rparr>)) \<Longrightarrow> keeps R (on_kernel f)"
  by (simp add: keeps_def on_kernel_def split_def Let_def)

lemma kernel_ref_R: "(\<And>m. R m (m\<lparr>krn := snd (snd (f (krn m)))\<rparr>)) \<Longrightarrow> keeps R (on_kernel_ref f)"
  by (simp add: keeps_def on_kernel_ref_def split_def Let_def)

lemma case_R: "(\<And>a b. keeps R (f a b)) \<Longrightarrow> keeps R (case p of (a, b) \<Rightarrow> f a b)"
  by (cases p) simp

text \<open>The library's wrappers.\<close>

lemma wrapper_R:
  "keeps R (on_kernel (rr_devsel_call env fd d))" "keeps R (on_kernel (rr_irqwait env fd))"
  "keeps R (on_kernel (rr_irqena env fd))" "keeps R (on_kernel (rr_getdmasize env fd))"
  "keeps R (on_kernel_ref (rr_devget_call env fd d))" "keeps R (on_kernel_ref (rr_iread env fd c))"
  "keeps R (on_kernel_ref (rr_iwrite env fd c))"
  by (auto intro!: kernel_R kernel_ref_R ioctl_R
      simp: rr_devsel_call_def rr_irqwait_def rr_irqena_def rr_getdmasize_def rr_devget_call_def rr_iread_def
        rr_iwrite_def split_def Let_def)

lemma getplist_R: "keeps R (on_kernel_ref (rr_getplist env fd))"
proof (rule kernel_ref_R)
  fix m :: machine
  obtain r ou k1 where s1: "sys_ioctl env fd RR_GETDMASIZE (krn m) = (r, ou, k1)"
    by (cases "sys_ioctl env fd RR_GETDMASIZE (krn m)") auto
  obtain r2 ou2 k2 where s2: "sys_ioctl env fd RR_GETPLIST k1 = (r2, ou2, k2)"
    by (cases "sys_ioctl env fd RR_GETPLIST k1") auto
  have "R m (m\<lparr>krn := k1\<rparr>)" using ioctl_R [of m fd RR_GETDMASIZE] s1 by simp
  moreover have "R (m\<lparr>krn := k1\<rparr>) (m\<lparr>krn := k2\<rparr>)" using ioctl_R [of "m\<lparr>krn := k1\<rparr>" fd RR_GETPLIST] s2 by simp
  ultimately show "R m (m\<lparr>krn := snd (snd (rr_getplist env fd (krn m)))\<rparr>)"
    using transpD [OF R_trans] s1 s2 by (auto simp: rr_getplist_def split: sum.split)
qed

lemma system_R:
  "keeps R (on_kernel (sys_lseek fd p))" "keeps R (on_kernel (sys_read env fd n))"
  "keeps R (on_kernel (sys_write fd bs))" "keeps R (on_kernel sys_open)" "keeps R (on_kernel load_lib)"
proof -
  have "R m m" for m using R_refl by (simp add: reflpD)
  then have "R m (m\<lparr>krn := krn m\<rparr>)" for m :: machine by simp
  then show "keeps R (on_kernel load_lib)" by (auto intro!: kernel_R simp: load_lib_def)
qed (auto intro!: kernel_R lseek_R read_R write_R open_R)

lemmas calls_R = bind_R seq_R pure_R object_R case_R wrapper_R getplist_R system_R

lemma method_R:
  "keeps R (gennum_iread env self b off w)" "keeps R (gennum_iwrite env self b off w d)"
  "keeps R (gennum_read env self b off w)" "keeps R (gennum_write env self b off w d)"
  "keeps R (gennum_irqwait env self)" "keeps R (gennum_irqena env self)"
  "keeps R (gennum_getdmasize env self)" "keeps R (gennum_getplist env self)"
  "keeps R (gennum_bind env self dev)"
  unfolding gennum_iread_def gennum_iwrite_def gennum_read_def gennum_write_def gennum_irqwait_def
    gennum_irqena_def gennum_getdmasize_def gennum_getplist_def gennum_bind_def
  by (intro calls_R)+

lemma info_R: "keeps R (gennum_info env self)"
  unfolding gennum_info_def by (intro calls_R block_R) (auto intro: object_R)

lemma init_R: "keeps R gennum_init"
proof -
  have "keeps R (\<lambda>m :: machine. (Inr (length (objs m)), m\<lparr>objs := objs m @ [g]\<rparr>))" for g
    using update_R by (simp add: keeps_def)
  then show ?thesis unfolding gennum_init_def by (intro calls_R)
qed

end

interpretation console_frame: method_frame same_world env for env
  by unfold_locales (auto simp: same_world_def intro: same_world_order)

end
