(* ===== verification/Eeprom_Gennum.thy ===== *)
theory Eeprom_Gennum
  imports Eeprom_I2C_Props Gennum_Ports Program
begin

text \<open>
  The EEPROM utility passes a \<open>Gennum\<close> object to \<open>i2c_read\<close> and \<open>i2c_write\<close>: here its methods
  are shown to be an \<open>i2c_port\<close>, so what theory Eeprom_I2C_Props derives holds for the utility on
  any device behind the driver. The cutting of the data into bursts is shown to visit every
  address once, in order, and never to cross a page of eight bytes.
\<close>

section \<open>The methods of a Gennum object as a port\<close>

definition gennum_port :: "kenv \<Rightarrow> nat \<Rightarrow> machine port" where
  "gennum_port env self =
     \<lparr>iread = gennum_iread env self, iwrite = gennum_iwrite env self, say = print_con\<rparr>"

lemma con_frame [simp]:
  "reg_good self (m\<lparr>con := c\<rparr>) = reg_good self m" "bar4_trace (m\<lparr>con := c\<rparr>) = bar4_trace m"
  by (simp_all add: reg_good_def bound_obj_def self_fd_def bar4_trace_def)

interpretation gennum_i2c: i2c_port "reg_good self" reg_addr bar4_trace "bar4_resp env"
  "\<lambda>a. gennum_iread env self 4 a 4" "\<lambda>a v. gennum_iwrite env self 4 a 4 v" "gennum_port env self"
  for env self
proof (unfold_locales, goal_cases)
  case (3 s x)
  then show ?case by (auto simp: gennum_port_def print_con_def)
next
  case (4 a)
  then show ?case by (auto simp: i2c_regs_def reg_addr_def)
qed (simp_all add: gennum_port_def)

section \<open>The bursts cover the data\<close>

text \<open>Bytes with the addresses they belong to.\<close>

primrec addressed :: "int \<Rightarrow> int list \<Rightarrow> (int \<times> int) list" where
  "addressed off [] = []"
| "addressed off (d # ds) = (off, d) # addressed (off + 1) ds"

lemma addressed_append: "addressed off (xs @ ys) = addressed off xs @ addressed (off + int (length xs)) ys"
  by (induction xs arbitrary: off) (auto simp: algebra_simps)

lemma bursts_induct:
  assumes nil: "\<And>off. P off []"
    and step: "\<And>off ds n. ds \<noteq> [] \<Longrightarrow> 0 < n \<Longrightarrow> n \<le> length ds \<Longrightarrow> n \<le> 6 \<Longrightarrow> off mod 8 + int n \<le> 8 \<Longrightarrow>
      bursts off ds = (off, take n ds) # bursts (off + int n) (drop n ds) \<Longrightarrow>
      P (off + int n) (drop n ds) \<Longrightarrow> P off ds"
  shows "P off ds"
proof (induction "length ds" arbitrary: off ds rule: less_induct)
  case less
  show ?case
  proof (cases "ds = []")
    case True
    with nil show ?thesis by simp
  next
    case False
    define n where "n = min 6 (min (int (length ds)) (8 - off mod 8))"
    have l: "0 < int (length ds)" using False by simp
    have m: "off mod 8 < 8" by simp
    have n: "0 < n" "n \<le> int (length ds)" "n \<le> 6" "off mod 8 + n \<le> 8"
      using l m unfolding n_def by linarith+
    then have int_n: "int (nat n) = n" by simp
    from n l have "length (drop (nat n) ds) < length ds" by simp
    from less [OF this] have "P (off + n) (drop (nat n) ds)" .
    with bursts_step [OF False n_def] n show ?thesis
      by (intro step [OF False, of "nat n"]) auto
  qed
qed

text \<open>Every byte goes to its own address, in order; a burst is at most six bytes, inside one page.\<close>

lemma bursts_addressed: "concat (map (\<lambda>b. addressed (fst b) (snd b)) (bursts off ds)) = addressed off ds"
proof (induction off ds rule: bursts_induct)
  case (2 off ds n)
  then show ?case
    using addressed_append [of off "take n ds" "drop n ds"] by simp
qed simp

lemma bursts_page:
  "b \<in> set (bursts off ds) \<Longrightarrow>
   snd b \<noteq> [] \<and> length (snd b) \<le> 6 \<and> fst b div 8 = (fst b + int (length (snd b)) - 1) div 8"
proof (induction off ds arbitrary: b rule: bursts_induct)
  case (2 off ds n)
  have "off div 8 = (off + int n - 1) div 8"
  proof -
    have "off + int n - 1 = 8 * (off div 8) + (off mod 8 + int n - 1)" by simp
    moreover have "0 \<le> off mod 8 + int n - 1" "off mod 8 + int n - 1 < 8"
      using 2(2,5) pos_mod_sign [of 8 off] by linarith+
    ultimately show ?thesis by (metis div_mult_self4 div_pos_pos_trivial add.left_neutral add.commute zero_neq_numeral)
  qed
  moreover have "b = (off, take n ds) \<or> b \<in> set (bursts (off + int n) (drop n ds))"
    using 2(8) unfolding 2(6) by simp
  ultimately show ?case using 2(1-4) 2(7) [of b] by (elim disjE) auto
qed simp

lemma burst_bytes_bursts: "burst_bytes (bursts off ds) = int (length ds)"
  by (induction off ds rule: bursts_induct) auto

end
