(* ===== verification/Eeprom_Files.thy ===== *)
theory Eeprom_Files
  imports Eeprom_Gennum
begin

text \<open>
  The five actions of sw/gnurabbit/python/eeprom_utils.py, its menu and its main loop: dumping
  the EEPROM to the screen or to a file, showing a file, writing a file to the EEPROM and
  comparing the two. Files are byte strings by name; any name can be created. A record is six
  bytes: an address of two and a value of four, least significant byte first, shown as two
  hexadecimal numbers on a line. The main loop is a \<open>partial_function\<close>; theory
  Eeprom_Files_Props shows that it ends, because every turn takes a line of the input.
\<close>

section \<open>Files\<close>

text \<open>\<open>open(name, 'w+')\<close> empties the file; \<open>print >>file, s\<close> appends a line.\<close>

definition open_write :: "string \<Rightarrow> (machine, unit) py" where
  "open_write name = file_put name []"

definition print_file :: "string \<Rightarrow> string \<Rightarrow> (machine, unit) py" where
  "print_file name s =
     py_bind (open_read name) (\<lambda>text. file_put name (text @ s @ [newline]))"

text \<open>The question every action starts with.\<close>

definition ask_file :: "string \<Rightarrow> (machine, string) py" where
  "ask_file prompt =
     py_bind (on_con (raw_input prompt))
       (\<lambda>file_name. py_ret (if file_name = [] then ''eeprom.dat'' else file_name))"

section \<open>Records\<close>

definition record_addr :: "int list \<Rightarrow> int \<Rightarrow> (machine, int) py" where
  "record_addr dat i =
     py_bind (py_lift (py_index dat i)) (\<lambda>b0.
     py_bind (py_lift (py_index dat (i + 1))) (\<lambda>b1. py_ret (b0 + push_bit 8 b1)))"

definition record_data :: "int list \<Rightarrow> int \<Rightarrow> (machine, int) py" where
  "record_data dat i =
     py_bind (py_lift (py_index dat (i + 2))) (\<lambda>b0.
     py_bind (py_lift (py_index dat (i + 3))) (\<lambda>b1.
     py_bind (py_lift (py_index dat (i + 4))) (\<lambda>b2.
     py_bind (py_lift (py_index dat (i + 5))) (\<lambda>b3.
       py_ret (b0 + push_bit 8 b1 + push_bit 16 b2 + push_bit 24 b3)))))"

text \<open>\<open>range(0, n*6, 6)\<close>.\<close>

definition record_range :: "nat \<Rightarrow> int list" where
  "record_range n = map (\<lambda>k. 6 * int k) [0..<n]"

text \<open>\<open>'%.4X %.8X' % (addr, data)\<close>, and the indexed lines of the screen dumps.\<close>

definition record_line :: "int \<Rightarrow> int \<Rightarrow> string" where
  "record_line addr dat = fmt_hex True 4 addr @ '' '' @ fmt_hex True 8 dat"

definition index_line :: "nat \<Rightarrow> string \<Rightarrow> string" where
  "index_line i s = ''['' @ fmt_dec 2 i @ '']='' @ s"

section \<open>Dumping the EEPROM\<close>

fun show_records :: "int list \<Rightarrow> int list \<Rightarrow> (machine, unit) py" where
  "show_records dat [] = py_ret ()"
| "show_records dat (i # is) =
     py_bind (record_addr dat i) (\<lambda>addr.
     py_bind (record_data dat i) (\<lambda>d.
       if addr = 0xFFFF then py_ret ()
       else py_seq (print_con (index_line (nat (i div 6)) (record_line addr d))) (show_records dat is)))"

text \<open>The bytes one by one, until two bytes 0xFF follow.\<close>

fun show_bytes_until :: "int list \<Rightarrow> nat list \<Rightarrow> (machine, unit) py" where
  "show_bytes_until dat [] = py_ret ()"
| "show_bytes_until dat (i # is) =
     py_bind (py_lift (py_index dat (int i))) (\<lambda>b.
     py_seq (print_con (index_line i (fmt_hex True 2 b)))
    (py_bind (py_lift (py_index dat (int i + 1))) (\<lambda>b1.
     if b1 = 0xFF
     then py_bind (py_lift (py_index dat (int i + 2)))
            (\<lambda>b2. if b2 = 0xFF then py_ret () else show_bytes_until dat is)
     else show_bytes_until dat is)))"

definition eeprom_dump_to_screen :: "machine port \<Rightarrow> (machine, int) py" where
  "eeprom_dump_to_screen gennum =
     py_bind (i2c_read gennum 0x56 0 (42 * 6) []) (\<lambda>(n, eeprom_data).
     py_seq (show_records eeprom_data (record_range 42))
    (py_seq (print_con [])
    (py_seq (show_bytes_until eeprom_data [0..<length eeprom_data])
            (py_ret 0))))"

fun write_records :: "string \<Rightarrow> int list \<Rightarrow> int list \<Rightarrow> (machine, unit) py" where
  "write_records name dat [] = py_ret ()"
| "write_records name dat (i # is) =
     py_bind (record_addr dat i) (\<lambda>addr.
     py_bind (record_data dat i) (\<lambda>d.
     py_seq (print_file name (record_line addr d))
       (if addr = 0xFFFF then py_ret () else write_records name dat is)))"

definition eeprom_dump_to_file :: "machine port \<Rightarrow> (machine, int) py" where
  "eeprom_dump_to_file gennum =
     py_bind (ask_file ''Enter a file name (default=eeprom.dat) :'') (\<lambda>file_name.
     py_seq (open_write file_name)
    (py_bind (i2c_read gennum 0x56 0 (100 * 6) []) (\<lambda>(n, eeprom_data).
     py_seq (write_records file_name eeprom_data (record_range 100))
            (py_ret 0))))"

section \<open>Reading a file\<close>

text \<open>\<open>addr, data = line.split()\<close> and the bytes of the two numbers, least significant first.\<close>

definition split_line :: "string \<Rightarrow> exn + string \<times> string" where
  "split_line line = (case py_split line of [a, d] \<Rightarrow> Inr (a, d) | _ \<Rightarrow> Inl ValueError)"

fun hex_bytes :: "string \<Rightarrow> nat list \<Rightarrow> exn + int list" where
  "hex_bytes s [] = Inr []"
| "hex_bytes s (i # is) =
     (case py_int 16 (py_slice s ((i - 1) * 2) ((i - 1) * 2 + 2)) of
        Inl e \<Rightarrow> Inl e
      | Inr b \<Rightarrow> (case hex_bytes s is of Inl e \<Rightarrow> Inl e | Inr bs \<Rightarrow> Inr (b # bs)))"

definition line_bytes :: "string \<Rightarrow> string \<Rightarrow> exn + int list" where
  "line_bytes a d =
     (case hex_bytes a [2, 1] of
        Inl e \<Rightarrow> Inl e
      | Inr xs \<Rightarrow> (case hex_bytes d [4, 3, 2, 1] of Inl e \<Rightarrow> Inl e | Inr ys \<Rightarrow> Inr (xs @ ys)))"

text \<open>The loop over the lines, as the three readers run it; one of them also prints each line.\<close>

fun read_lines :: "bool \<Rightarrow> string list \<Rightarrow> int list \<Rightarrow> (machine, int list) py" where
  "read_lines echo [] file_data = py_ret file_data"
| "read_lines echo (line # ls) file_data =
     py_bind (py_lift (split_line line)) (\<lambda>(a, d).
     py_seq (if echo then print_con (a @ '' '' @ d) else py_ret ())
    (py_bind (py_lift (line_bytes a d)) (\<lambda>bs. read_lines echo ls (file_data @ bs))))"

definition show_bytes :: "int list \<Rightarrow> (machine, unit) py" where
  "show_bytes dat = py_block (map (\<lambda>i. print_con (index_line i (fmt_hex True 2 (dat ! i)))) [0..<length dat])"

definition file_dump_to_screen :: "(machine, int) py" where
  "file_dump_to_screen =
     py_bind (ask_file ''Enter a file name (default=eeprom.dat):'') (\<lambda>file_name.
     py_bind (open_read file_name) (\<lambda>text.
     py_bind (read_lines True (file_lines text) []) (\<lambda>file_data.
     py_seq (print_con [])
    (py_seq (show_bytes file_data) (py_ret 0)))))"

section \<open>Writing and comparing\<close>

definition file_dump_to_eeprom :: "machine port \<Rightarrow> (machine, int) py" where
  "file_dump_to_eeprom gennum =
     py_bind (ask_file ''Enter a file name (default=eeprom.dat):'') (\<lambda>file_name.
     py_bind (open_read file_name) (\<lambda>text.
     py_bind (read_lines False (file_lines text) []) (\<lambda>file_data.
     py_bind (on_con (raw_input ''Do you really want to write the EEPROM? (Type \"Yes\" to confirm) :''))
       (\<lambda>confirm.
     if confirm \<noteq> ''Yes'' then py_ret 1
     else py_bind (i2c_write gennum 0x56 0 (int (length file_data)) file_data) (\<lambda>written.
          py_seq (if written = int (length file_data)
                  then print_con (''EEPROM written with '' @ file_name @ '' content!'')
                  else print_con ''ERROR!!'')
                 (py_ret 0))))))"

definition compare_line :: "int \<Rightarrow> int \<Rightarrow> string" where
  "compare_line e f =
     ''EEPROM= '' @ fmt_hex True 2 e @ '', FILE= '' @ fmt_hex True 2 f
     @ (if f = e then '' => OK'' else '' => ERROR'')"

fun compare_bytes :: "int list \<Rightarrow> int list \<Rightarrow> nat list \<Rightarrow> (machine, unit) py" where
  "compare_bytes file_data eeprom_data [] = py_ret ()"
| "compare_bytes file_data eeprom_data (i # is) =
     py_bind (py_lift (py_index eeprom_data (int i))) (\<lambda>e.
     py_seq (print_con (compare_line e (file_data ! i))) (compare_bytes file_data eeprom_data is))"

definition compare_eeprom_with_file :: "machine port \<Rightarrow> (machine, unit) py" where
  "compare_eeprom_with_file gennum =
     py_bind (ask_file ''Enter a file name (default=eeprom.dat):'') (\<lambda>file_name.
     py_bind (open_read file_name) (\<lambda>text.
     py_bind (read_lines False (file_lines text) []) (\<lambda>file_data.
     py_bind (i2c_read gennum 0x56 0 ((int (length (file_lines text)) + 1) * 6) []) (\<lambda>(n, eeprom_data).
     compare_bytes file_data eeprom_data [0..<length file_data]))))"

section \<open>The menu\<close>

definition menu_lines :: "string list" where
  "menu_lines =
     ['' '', '' '',
      ''************************************************************'',
      ''* GN4124 EEPROM utility                                    *'',
      ''************************************************************'',
      '' '', '' Choose one of the following options and type ENTER:'', '' '',
      ''1 -> Read EEPROM and dump on screen.'',
      ''2 -> Read EEPROM and dump to file.'',
      ''3 -> Write EEPROM from file.'',
      ''4 -> Verify EEPROM content against file.'',
      ''5 -> Read file and dump on screen.'',
      ''0 -> Exit'', '' '']"

definition display_options :: "(machine, unit) py" where
  "display_options = py_block (map print_con menu_lines)"

definition menu_bind :: "string \<Rightarrow> machine port \<Rightarrow> (machine, int) py" where
  "menu_bind input gennum =
     (if input = ''1'' then py_seq (eeprom_dump_to_screen gennum) (py_ret 0)
      else if input = ''2'' then py_seq (eeprom_dump_to_file gennum) (py_ret 0)
      else if input = ''3'' then py_seq (file_dump_to_eeprom gennum) (py_ret 0)
      else if input = ''4'' then py_seq (compare_eeprom_with_file gennum) (py_ret 0)
      else if input = ''5'' then py_seq file_dump_to_screen (py_ret 0)
      else if input = ''0'' then py_seq (print_con ''Exiting program'') (py_ret 1)
      else py_seq (print_con ''Unknown option, try again...'') (py_ret 0))"

definition menu_turn :: "machine port \<Rightarrow> (machine, int) py" where
  "menu_turn gennum = py_seq display_options (py_bind (on_con (raw_input '': '')) (\<lambda>l. menu_bind l gennum))"

text \<open>\<open>while 1\<close>: the loop ends by \<open>sys.exit\<close> or by an exception.\<close>

partial_function (option) menu_loop :: "machine port \<Rightarrow> machine \<Rightarrow> ((exn + unit) \<times> machine) option" where
  "menu_loop gennum m =
     (case menu_turn gennum m of
        (Inl e, t) \<Rightarrow> Some (Inl e, t)
      | (Inr r, t) \<Rightarrow> if r \<noteq> 0 then Some (Inl SystemExit, t) else menu_loop gennum t)"

definition eeprom_utils :: "kenv \<Rightarrow> machine \<Rightarrow> ((exn + unit) \<times> machine) option" where
  "eeprom_utils env m =
     (case gennum_init m of
        (Inl e, t) \<Rightarrow> Some (Inl e, t)
      | (Inr gennum, t) \<Rightarrow> menu_loop (gennum_port env gennum) t)"

end
