(* ===== verification/Eeprom_Frame.thy ===== *)
theory Eeprom_Frame
  imports Eeprom_I2C
begin

text \<open>
  What the transfer functions leave alone. If every access and every message of a port keeps a
  relation between the states before and after, then so do all loops, \<open>i2c_read\<close> and
  \<open>i2c_write\<close>, whatever the device answers and also when they end with an exception. The locale
  \<open>transfer_frame\<close> states the contract and derives it.
\<close>

text \<open>A loop that counts down and may leave early.\<close>

lemma keeps_count:
  assumes "\<And>i s. L i s = (if 0 < i then B i (L (i - 1)) s else E i s)"
    and "\<And>i. keeps R (E i)" "\<And>i K. keeps R K \<Longrightarrow> keeps R (B i K)"
  shows "keeps R (L (i :: int))"
proof (induction "nat i" arbitrary: i)
  case 0
  then have "L i = E i" by (intro ext) (simp add: assms(1))
  with assms(2) show ?case by simp
next
  case (Suc n)
  then have "0 < i" by linarith
  then have "L i = B i (L (i - 1))" by (intro ext) (simp add: assms(1) [of i])
  moreover have "keeps R (L (i - 1))" using Suc by simp
  ultimately show ?case using assms(3) by simp
qed

locale transfer_frame =
  fixes R :: "'s \<Rightarrow> 's \<Rightarrow> bool" and P :: "'s port"
  assumes R_refl: "reflp R"
    and R_trans: "transp R"
    and iread_R: "a \<in> i2c_regs \<Longrightarrow> keeps R (iread P 4 a 4)"
    and iwrite_R: "a \<in> i2c_regs \<Longrightarrow> keeps R (iwrite P 4 a 4 v)"
    and say_R: "keeps R (say P x)"
begin

lemma bind_R: "keeps R m \<Longrightarrow> (\<And>v. keeps R (f v)) \<Longrightarrow> keeps R (py_bind m f)"
  by (rule keeps_bind [OF R_trans])

lemma seq_R: "keeps R m \<Longrightarrow> keeps R n \<Longrightarrow> keeps R (py_seq m n)"
  unfolding py_seq_def by (rule bind_R)

lemma ret_R: "keeps R (py_ret v)" "keeps R (py_raise e)" "keeps R (py_lift r)"
  using R_refl by (simp_all add: keeps_def reflpD)

lemma if_R: "keeps R m \<Longrightarrow> keeps R n \<Longrightarrow> keeps R (if b then m else n)"
  "keeps R m \<Longrightarrow> keeps R n \<Longrightarrow> keeps R (\<lambda>t. if b then m t else n t)"
  by (auto simp: keeps_def)

lemmas steps_R = bind_R seq_R ret_R if_R iread_R iwrite_R say_R in_i2c_regs

lemma shut_eeprom_init_R: "keeps R (shut_eeprom_init P)"
  unfolding shut_eeprom_init_def by (intro steps_R)

lemma wait_idle_R: "keeps R (wait_idle P i)"
  by (rule keeps_count [where E = "\<lambda>i. py_ret ()"], rule wait_idle.simps) (intro steps_R; assumption?)+

lemma wait_done_R: "keeps R (wait_done P i)"
  by (rule keeps_count [where E = "\<lambda>i. py_ret i"], rule wait_done.simps) (intro steps_R; assumption?)+

lemma wait_chunk_R: "keeps R (wait_chunk P i)"
  by (rule keeps_count [where E = "\<lambda>i. py_ret i"], rule wait_chunk.simps) (intro steps_R; assumption?)+

lemma wait_burst_R: "keeps R (wait_burst P i)"
  by (rule keeps_count [where E = "\<lambda>i. py_ret False"], rule wait_burst.simps) (intro steps_R; assumption?)+

lemma read_fifo_R: "keeps R (read_fifo P n tot dat)"
proof (induction "nat n" arbitrary: n tot dat)
  case 0
  then have "read_fifo P n tot dat = py_ret (tot, dat)"
    by (intro ext) (subst read_fifo.simps, simp)
  then show ?case by (simp only: ret_R)
next
  case (Suc k)
  then have "0 < n" "k = nat (n - 1)" by linarith+
  then have "read_fifo P n tot dat = py_bind (iread P 4 0x90C 4)
      (\<lambda>v. read_fifo P (n - 1) (tot + 1) (dat @ [0xFF AND v]))"
    by (intro ext) (subst read_fifo.simps, simp)
  then show ?case using Suc(1) [OF \<open>k = nat (n - 1)\<close>] by (simp add: bind_R iread_R)
qed

lemma read_loop_R: "keeps R (read_loop P i2c_addr len error_flag tot dat)"
proof (induction "nat len" arbitrary: len error_flag tot dat rule: less_induct)
  case less
  show ?case
  proof (cases "0 < len \<and> \<not> error_flag")
    case True
    let ?n = "if 8 < len then 8 else len" and ?l = "if 8 < len then len - 8 else 0"
    have "read_loop P i2c_addr len error_flag tot dat =
       py_bind (iwrite P 4 0x914 4 ?n) (\<lambda>_.
       py_bind (iwrite P 4 0x908 4 (0x7F AND i2c_addr)) (\<lambda>_.
       py_bind (wait_chunk P i2c_timeout) (\<lambda>j.
       py_bind (if j = 0 then say P completion_message else py_ret ()) (\<lambda>_.
       py_bind (read_fifo P ?n tot dat) (\<lambda>r.
         read_loop P i2c_addr ?l (j = 0) (fst r) (snd r))))))"
      using True by (intro ext) (subst read_loop.simps, simp)
    moreover have "nat ?l < nat len" using True by auto
    ultimately show ?thesis
      using less by (simp only:) (intro steps_R wait_chunk_R read_fifo_R)
  next
    case False
    then have "read_loop P i2c_addr len error_flag tot dat = py_ret (tot, dat)"
      by (intro ext) (subst read_loop.simps, simp only: if_False)
    then show ?thesis by (simp only: ret_R)
  qed
qed

lemma i2c_read_R: "keeps R (i2c_read P i2c_addr offset len dat)"
  unfolding i2c_read_def
  by (intro steps_R shut_eeprom_init_R wait_idle_R wait_done_R read_loop_R)

lemma write_burst_R: "keeps R (write_burst P dat i tot off len)"
proof (induction "nat i" arbitrary: i tot off len)
  case 0
  then have "write_burst P dat i tot off len = py_ret (tot, off, len)"
    by (intro ext) (subst write_burst.simps, simp)
  then show ?case by (simp only: ret_R)
next
  case (Suc k)
  then have i: "0 < i" "k = nat (i - 1)" by linarith+
  show ?case
  proof (cases "0 < len")
    case True
    with i have "write_burst P dat i tot off len = py_bind (py_lift (py_index dat tot)) (\<lambda>d.
        py_bind (iwrite P 4 0x90C 4 (0xFF AND d)) (\<lambda>_ t.
          if (off + 1) AND 7 = 0 then py_ret (tot + 1, off + 1, len - 1) t
          else write_burst P dat (i - 1) (tot + 1) (off + 1) (len - 1) t))"
      by (intro ext) (subst write_burst.simps, simp)
    then show ?thesis using Suc(1) [OF i(2)] by (simp only:) (intro steps_R)
  next
    case False
    then have "write_burst P dat i tot off len = py_ret (tot, off, len)"
      by (intro ext) (subst write_burst.simps, simp)
    then show ?thesis by (simp only: ret_R)
  qed
qed

text \<open>The induction for the outer loop: a burst that is entered shortens what is left.\<close>

lemma write_loop_R: "keeps R (write_loop P i2c_addr dat tot off len)"
proof -
  have "R s (snd (write_loop P i2c_addr dat tot off len s))" for s
  proof (induction "nat len" arbitrary: tot off len s rule: less_induct)
    case less
    show ?case
    proof (cases "0 < len")
      case False
      then show ?thesis
        using reflpD [OF R_refl] by (subst write_loop.simps) simp
    next
      case True
      let ?A = "py_bind (iwrite P 4 0x90C 4 (0xFF AND off)) (\<lambda>_. write_burst P dat 6 tot off len)"
      let ?C = "\<lambda>r. py_bind (iwrite P 4 0x908 4 (0x7F AND i2c_addr)) (\<lambda>_.
          py_bind (wait_burst P i2c_timeout) (\<lambda>nack t.
            if nack then py_ret (fst r) t
            else write_loop P i2c_addr dat (fst r) (fst (snd r)) (snd (snd r)) t))"
      have eq: "write_loop P i2c_addr dat tot off len s = py_bind ?A ?C s"
        using True by (subst write_loop.simps) (simp add: py_bind_assoc)
      have A: "keeps R ?A" by (intro steps_R write_burst_R)
      obtain x t where x: "?A s = (x, t)" by force
      with A have st: "R s t" unfolding keeps_def by (metis snd_conv)
      show ?thesis
      proof (cases x)
        case (Inl e)
        with x eq st show ?thesis by (simp add: py_bind_Inl)
      next
        case (Inr r)
        with x have "?A s = (Inr r, t)" by simp
        then obtain v u where "write_burst P dat 6 tot off len u = (Inr r, t)" by (rule py_bind_InrE)
        then have "write_burst P dat 6 tot off len u = (Inr (fst r, fst (snd r), snd (snd r)), t)" by simp
        then have "snd (snd r) < len" by (rule write_burst_progress) (use True in simp_all)
        then have lt: "nat (snd (snd r)) < nat len" using True by linarith
        have "keeps R (write_loop P i2c_addr dat (fst r) (fst (snd r)) (snd (snd r)))"
          using less.hyps [OF lt] by (simp add: keeps_def)
        then have "keeps R (?C r)" by (intro steps_R wait_burst_R)
        then have "R t (snd (?C r t))" unfolding keeps_def by blast
        with st have "R s (snd (?C r t))" by (rule transpD [OF R_trans])
        with eq x Inr show ?thesis by (simp add: py_bind_Inr)
      qed
    qed
  qed
  then show ?thesis by (simp add: keeps_def)
qed

lemma i2c_write_R: "keeps R (i2c_write P i2c_addr offset len dat)"
  unfolding i2c_write_def
  by (intro steps_R shut_eeprom_init_R wait_idle_R write_loop_R)

end

end
