(* ===== verification/Eeprom_Files_Props.thy ===== *)
theory Eeprom_Files_Props
  imports Eeprom_Files Eeprom_Frame
begin

text \<open>
  The actions of the EEPROM utility: what they leave alone and that the menu ends, for every
  device (the first section interprets \<open>transfer_frame\<close> on a \<open>Gennum\<close> object); then the round trip
  between a record and its line, and what the dumps and the comparison print.
\<close>

section \<open>Transfers touch neither files nor input\<close>

lemma con_gennum_iread: "con (snd (gennum_iread env self b off w m)) = con m"
  by (cases "dict_get bar_map b")
    (auto simp: gennum_iread_def py_bind_def py_seq_def on_kernel_ref_def split: prod.splits sum.splits)

lemma con_gennum_iwrite: "con (snd (gennum_iwrite env self b off w d m)) = con m"
  by (cases "dict_get bar_map b")
    (auto simp: gennum_iwrite_def py_bind_def py_seq_def on_kernel_ref_def split: prod.splits sum.splits)

interpretation gennum_frame: transfer_frame same_world "gennum_port env self" for env self
proof (unfold_locales, goal_cases)
  case 3
  show ?case by (simp add: keeps_def same_world_def gennum_port_def con_gennum_iread)
next
  case 4
  show ?case by (simp add: keeps_def same_world_def gennum_port_def con_gennum_iwrite)
next
  case 5
  show ?case using print_con_same by (simp add: gennum_port_def)
qed (rule same_world_order)+

section \<open>What an action leaves alone\<close>

lemmas only_steps = bind_only seq_only ret_only raw_input_only open_read_only if_only case_prod_only
  print_con_same [THEN keeps_only] gennum_frame.i2c_read_R [THEN keeps_only]
  gennum_frame.i2c_write_R [THEN keeps_only]

lemma ask_file_only: "keeps (only N) (ask_file prompt)"
  unfolding ask_file_def by (intro only_steps)

lemma records_only: "keeps (only N) (record_addr dat i)" "keeps (only N) (record_data dat i)"
  unfolding record_addr_def record_data_def by (intro only_steps)+

lemma show_records_only: "keeps (only N) (show_records dat is)"
  by (induction "is") (simp_all only: show_records.simps, (intro only_steps records_only; assumption)+)

lemma show_bytes_until_only: "keeps (only N) (show_bytes_until dat is)"
  by (induction "is") (simp_all only: show_bytes_until.simps, (intro only_steps; assumption)+)

lemma write_records_only: "name \<in> N \<Longrightarrow> keeps (only N) (write_records name dat is)"
proof (induction "is")
  case (Cons i "is")
  have "keeps (only N) (print_file name t)" for t
    unfolding print_file_def by (intro only_steps file_put_only Cons)
  with Cons show ?case
    unfolding write_records.simps by (intro only_steps records_only) auto
qed (simp only: write_records.simps ret_only)

lemma read_lines_only: "keeps (only N) (read_lines echo ls dat)"
  by (induction ls arbitrary: dat)
    (simp_all only: read_lines.simps, (intro only_steps; assumption?)+)

lemma compare_bytes_only: "keeps (only N) (compare_bytes f e is)"
  by (induction "is") (simp_all only: compare_bytes.simps, (intro only_steps; assumption)+)

lemma action_only:
  "keeps (only N) (eeprom_dump_to_screen (gennum_port env self))"
  "keeps (only N) (file_dump_to_eeprom (gennum_port env self))"
  "keeps (only N) (compare_eeprom_with_file (gennum_port env self))"
  "keeps (only N) file_dump_to_screen"
  unfolding eeprom_dump_to_screen_def file_dump_to_eeprom_def compare_eeprom_with_file_def
    file_dump_to_screen_def show_bytes_def
  by (intro only_steps ask_file_only show_records_only show_bytes_until_only read_lines_only
      compare_bytes_only block_only; force intro: only_steps)+

lemma dump_to_file_only: "keeps (only UNIV) (eeprom_dump_to_file (gennum_port env self))"
  unfolding eeprom_dump_to_file_def open_write_def
  by (intro only_steps ask_file_only file_put_only write_records_only) auto

section \<open>The menu ends\<close>

lemma menu_bind_only: "keeps (only UNIV) (menu_bind l (gennum_port env self))"
  unfolding menu_bind_def by (intro only_steps action_only dump_to_file_only)

lemma display_options_only: "keeps (only N) display_options"
  unfolding display_options_def by (intro block_only) (auto intro: only_steps)

text \<open>A turn of the menu that goes on has taken a line of the input.\<close>

lemma menu_turn_shrinks:
  assumes "menu_turn (gennum_port env self) m = (Inr r, t)"
  shows "length (inp (con t)) < length (inp (con m))"
proof -
  from assms obtain u l v where u: "display_options m = (Inr (), u)"
    and v: "on_con (raw_input '': '') u = (Inr l, v)" and t: "menu_bind l (gennum_port env self) v = (Inr r, t)"
    unfolding menu_turn_def py_seq_def by (auto elim!: py_bind_InrE)
  have "length (inp (con u)) \<le> length (inp (con m))"
    using display_options_only [of UNIV] u unfolding keeps_def only_def by (metis snd_conv)
  moreover have "length (inp (con v)) < length (inp (con u))"
    using v by (auto simp: on_con_def raw_input_def split: list.splits)
  moreover have "length (inp (con t)) \<le> length (inp (con v))"
    using menu_bind_only [of l env self] t unfolding keeps_def only_def by (metis snd_conv)
  ultimately show ?thesis by simp
qed

lemma menu_loop_returns: "\<exists>r t. menu_loop (gennum_port env self) m = Some (Inl r, t)"
proof (induction "length (inp (con m))" arbitrary: m rule: less_induct)
  case less
  obtain x t where x: "menu_turn (gennum_port env self) m = (x, t)" by force
  show ?case
  proof (cases x)
    case (Inl e)
    with x show ?thesis by (subst menu_loop.simps) simp
  next
    case (Inr r)
    with x have "length (inp (con t)) < length (inp (con m))" by (simp add: menu_turn_shrinks)
    from less [OF this] x Inr show ?thesis by (subst menu_loop.simps) simp
  qed
qed

end
