(* ===== verification/Eeprom_Text.thy ===== *)
theory Eeprom_Text
  imports Eeprom_Files
begin

text \<open>
  The text form of EEPROM records: the line of a record is read back as its six bytes, the file
  a dump writes is read back as the records up to the terminator, and the loops that print
  bytes are described by the text they add to the console.
\<close>

section \<open>One record\<close>

definition record_bytes :: "nat \<times> nat \<Rightarrow> int list" where
  "record_bytes r = map int (le_enc 2 (fst r) @ le_enc 4 (snd r))"

definition record_ok :: "nat \<times> nat \<Rightarrow> bool" where
  "record_ok r \<longleftrightarrow> fst r < 65536 \<and> snd r < 4294967296"

definition line_of :: "nat \<times> nat \<Rightarrow> string" where
  "line_of r = record_line (int (fst r)) (int (snd r))"

lemma length_record_bytes [simp]: "length (record_bytes r) = 6"
  by (simp add: record_bytes_def)

lemma two_nibbles: "x div 16 mod 16 * 16 + x mod 16 = (x :: nat) mod 256"
  using mod_mult2_eq [of x 16 16] by simp

lemma nat_Sucs:
  "(2 :: nat) = Suc (Suc 0)" "(4 :: nat) = Suc (Suc (Suc (Suc 0)))"
  "(8 :: nat) = Suc (Suc (Suc (Suc (Suc (Suc (Suc (Suc 0)))))))"
  by simp_all

lemma div_steps: "(n :: nat) div 16 div 16 = n div 256" "n div 256 div 16 = n div 4096"
  "n div 256 div 256 = n div 65536" "n div 65536 div 256 = n div 16777216"
  by (simp_all add: div_mult2_eq [symmetric])

lemma hex_fixed_4: "hex_fixed up 4 n =
    [hexd up (n div 4096 mod 16), hexd up (n div 256 mod 16), hexd up (n div 16 mod 16), hexd up (n mod 16)]"
  unfolding nat_Sucs(2) hex_fixed.simps by (simp add: div_steps)

lemma hex_fixed_8: "hex_fixed up 8 n = hex_fixed up 4 (n div 65536) @ hex_fixed up 4 n"
proof -
  have "hex_fixed up 8 n = hex_fixed up 4 (n div 16 div 16 div 16 div 16) @ hex_fixed up 4 n"
    unfolding nat_Sucs(2,3) hex_fixed.simps by simp
  then show ?thesis by (simp add: div_mult2_eq [symmetric])
qed

lemma le_enc_2: "le_enc 2 n = [n mod 256, n div 256 mod 256]"
  unfolding nat_Sucs(1) le_enc.simps by simp

lemma le_enc_4: "le_enc 4 n = [n mod 256, n div 256 mod 256, n div 65536 mod 256, n div 16777216 mod 256]"
  unfolding nat_Sucs(2) le_enc.simps by (simp add: div_steps)

lemma py_int_byte: "py_int 16 [hexd up (x div 16 mod 16), hexd up (x mod 16)] = Inr (int (x mod 256))"
  using py_int_two_digits [of "x div 16 mod 16" "x mod 16" up] two_nibbles [of x] by simp

lemma hex_bytes_4: "hex_bytes (hex_fixed up 4 n) [2, 1] = Inr (map int (le_enc 2 n))"
proof -
  have "py_int 16 [hexd up (n div 4096 mod 16), hexd up (n div 256 mod 16)] = Inr (int (n div 256 mod 256))"
    using py_int_byte [of up "n div 256"] by (simp add: div_mult2_eq [symmetric])
  then show ?thesis
    using py_int_byte [of up n] by (simp add: hex_fixed_4 py_slice_def le_enc_2)
qed

lemma hex_bytes_8: "hex_bytes (hex_fixed up 8 n) [4, 3, 2, 1] = Inr (map int (le_enc 4 n))"
proof -
  have "py_int 16 [hexd up (n div 4096 mod 16), hexd up (n div 256 mod 16)] = Inr (int (n div 256 mod 256))"
    "py_int 16 [hexd up (n div 65536 div 4096 mod 16), hexd up (n div 65536 div 256 mod 16)]
       = Inr (int (n div 16777216 mod 256))"
    "py_int 16 [hexd up (n div 65536 div 16 mod 16), hexd up (n div 65536 mod 16)]
       = Inr (int (n div 65536 mod 256))"
    using py_int_byte [of up "n div 256"] py_int_byte [of up "n div 16777216"] py_int_byte [of up "n div 65536"]
    by (simp_all add: div_mult2_eq [symmetric])
  then show ?thesis
    using py_int_byte [of up n] by (simp add: hex_fixed_8 hex_fixed_4 py_slice_def le_enc_4)
qed

lemma line_of_fixed: "record_ok r \<Longrightarrow> line_of r = hex_fixed True 4 (fst r) @ '' '' @ hex_fixed True 8 (snd r)"
  using fmt_hex_fixed [of "int (fst r)" 3 True] fmt_hex_fixed [of "int (snd r)" 7 True]
  by (simp add: line_of_def record_line_def record_ok_def)

lemma hex_fixed_not_space: "c \<in> set (hex_fixed up w n) \<Longrightarrow> \<not> is_space c"
  using hex_fixed_digits by fastforce

lemma newline_space: "is_space newline" "is_space (CHR '' '')"
  by code_simp+

lemma split_line_of:
  assumes "record_ok r"
  shows "split_line (line_of r @ [newline]) = Inr (hex_fixed True 4 (fst r), hex_fixed True 8 (snd r))"
proof -
  have ne: "hex_fixed True 4 (fst r) \<noteq> []" "hex_fixed True 8 (snd r) \<noteq> []"
    using length_hex_fixed [of True 4 "fst r"] length_hex_fixed [of True 8 "snd r"] by fastforce+
  have "py_split (hex_fixed True 4 (fst r) @ [CHR '' ''] @ hex_fixed True 8 (snd r) @ [newline])
      = [hex_fixed True 4 (fst r), hex_fixed True 8 (snd r)]"
    using hex_fixed_not_space newline_space by (intro py_split_two ne) auto
  then show ?thesis using assms by (simp add: split_line_def line_of_fixed)
qed

lemma line_bytes_of:
  "line_bytes (hex_fixed True 4 (fst r)) (hex_fixed True 8 (snd r)) = Inr (record_bytes r)"
  unfolding line_bytes_def hex_bytes_4 hex_bytes_8 record_bytes_def by simp

lemma newline_line_of: "record_ok r \<Longrightarrow> newline \<notin> set (line_of r)"
proof -
  assume "record_ok r"
  moreover have "newline \<noteq> CHR '' ''" by code_simp
  ultimately show ?thesis
    using hex_fixed_not_space [of newline True] newline_space(1) by (auto simp: line_of_fixed)
qed

section \<open>A file of records\<close>

definition records_text :: "(nat \<times> nat) list \<Rightarrow> string" where
  "records_text rs = concat (map (\<lambda>r. line_of r @ [newline]) rs)"

lemma read_lines_records:
  "list_all record_ok rs \<Longrightarrow>
   read_lines False (map (\<lambda>r. line_of r @ [newline]) rs) dat m = (Inr (dat @ concat (map record_bytes rs)), m)"
proof (induction rs arbitrary: dat)
  case (Cons r rs)
  then show ?case by (simp add: split_line_of line_bytes_of py_bind_def py_seq_def)
qed simp

lemma read_records_text:
  assumes "list_all record_ok rs"
  shows "read_lines False (file_lines (records_text rs)) [] m = (Inr (concat (map record_bytes rs)), m)"
proof -
  have "\<forall>l \<in> set (map line_of rs). newline \<notin> set l"
    using assms newline_line_of by (auto simp: list_all_iff)
  from file_lines_concat [OF this]
  have "file_lines (records_text rs) = map (\<lambda>r. line_of r @ [newline]) rs"
    by (simp add: records_text_def comp_def)
  with read_lines_records [OF assms] show ?thesis by simp
qed

text \<open>The records a dump writes: up to and including the first one with address 0xFFFF.\<close>

primrec until_end :: "(nat \<times> nat) list \<Rightarrow> (nat \<times> nat) list" where
  "until_end [] = []"
| "until_end (r # rs) = (if fst r = 0xFFFF then [r] else r # until_end rs)"

lemma list_all_until_end: "list_all P rs \<Longrightarrow> list_all P (until_end rs)"
  by (induction rs) auto

text \<open>Reading a record at its place among the bytes.\<close>

lemma index_bytes:
  "k < length xs \<Longrightarrow> py_index (pre @ xs @ post) (int (length pre + k)) = Inr (xs ! k)"
  by (simp add: py_index_def Let_def nth_append nat_add_distrib)

lemma record_nth:
  "record_bytes r ! 0 = int (fst r mod 256)" "record_bytes r ! 1 = int (fst r div 256 mod 256)"
  "record_bytes r ! 2 = int (snd r mod 256)" "record_bytes r ! 3 = int (snd r div 256 mod 256)"
  "record_bytes r ! 4 = int (snd r div 65536 mod 256)" "record_bytes r ! 5 = int (snd r div 16777216 mod 256)"
  by (simp_all add: record_bytes_def le_enc_2 le_enc_4)

lemma push_bits: "push_bit 8 x = 256 * (x :: int)" "push_bit 16 x = 65536 * (x :: int)"
  "push_bit 24 x = 16777216 * (x :: int)"
  by (simp_all add: push_bit_eq_mult)

lemma join_2:
  assumes "x < 65536"
  shows "int (x mod 256) + push_bit 8 (int (x div 256 mod 256)) = int x"
proof -
  have "int (le_dec (le_enc 2 x)) = int x" unfolding le_dec_enc using assms by simp
  then show ?thesis
    unfolding le_enc_2 le_dec.simps push_bits
    by (simp only: of_nat_add of_nat_mult of_nat_numeral of_nat_0 mult_zero_right add_0_right)
qed

lemma join_4:
  assumes "x < 4294967296"
  shows "int (x mod 256) + push_bit 8 (int (x div 256 mod 256)) + push_bit 16 (int (x div 65536 mod 256))
    + push_bit 24 (int (x div 16777216 mod 256)) = int x"
proof -
  have "int (le_dec (le_enc 4 x)) = int x" unfolding le_dec_enc using assms by simp
  moreover have "int (le_dec (le_enc 4 x)) = int (x mod 256) + push_bit 8 (int (x div 256 mod 256))
      + push_bit 16 (int (x div 65536 mod 256)) + push_bit 24 (int (x div 16777216 mod 256))"
    unfolding le_enc_4 le_dec.simps push_bits
    by (simp only: of_nat_add of_nat_mult of_nat_numeral algebra_simps)
  ultimately show ?thesis by simp
qed

lemma record_at:
  assumes "record_ok r"
  shows "record_addr (pre @ record_bytes r @ post) (int (length pre)) m = (Inr (int (fst r)), m)"
    and "record_data (pre @ record_bytes r @ post) (int (length pre)) m = (Inr (int (snd r)), m)"
proof -
  have ix: "py_index (pre @ record_bytes r @ post) (int (length pre) + int k) = Inr (record_bytes r ! k)"
    if "k < 6" for k
    using index_bytes [of k "record_bytes r" pre post] that by simp
  note x = ix [of 0] ix [of 1] ix [of 2] ix [of 3] ix [of 4] ix [of 5]
  show "record_addr (pre @ record_bytes r @ post) (int (length pre)) m = (Inr (int (fst r)), m)"
    using x(1,2) join_2 [of "fst r"] assms
    by (simp only: record_addr_def py_bind_def record_nth record_ok_def) (simp add: record_nth)
  show "record_data (pre @ record_bytes r @ post) (int (length pre)) m = (Inr (int (snd r)), m)"
    using x join_4 [of "snd r"] assms
    by (simp only: record_data_def py_bind_def record_nth record_ok_def) (simp add: record_nth)
qed

lemma upt_Cons_add: "[j..<Suc (j + n)] = j # [Suc j..<Suc (j + n)]"
  by (rule upt_conv_Cons) simp

section \<open>Dumping to a file\<close>

definition with_file :: "string \<Rightarrow> string \<Rightarrow> machine \<Rightarrow> machine" where
  "with_file name text m = m\<lparr>con := (con m)\<lparr>fls := (fls (con m))(name \<mapsto> text)\<rparr>\<rparr>"

lemma file_put_apply: "file_put name text m = (Inr (), with_file name text m)"
  by (simp add: file_put_def with_file_def)

lemma with_file_twice [simp]: "with_file name t2 (with_file name t1 m) = with_file name t2 m"
  by (simp add: with_file_def)

lemma fls_with_file [simp]: "fls (con (with_file name t m)) name = Some t"
  by (simp add: with_file_def)

lemma print_file_apply:
  "fls (con m) name = Some t \<Longrightarrow> print_file name s m = (Inr (), with_file name (t @ s @ [newline]) m)"
  by (simp add: print_file_def py_bind_def open_read_def file_put_apply)

lemma write_records_text:
  assumes "list_all record_ok rs" "length pre = 6 * j" "fls (con m) name = Some t"
  shows "write_records name (pre @ concat (map record_bytes rs)) (map (\<lambda>k. 6 * int k) [j..<j + length rs]) m
    = (Inr (), if rs = [] then m else with_file name (t @ records_text (until_end rs)) m)"
  using assms
proof (induction rs arbitrary: pre j m t)
  case (Cons r rs)
  have pos: "6 * int j = int (length pre)" using Cons.prems(2) by simp
  have ok: "record_ok r" using Cons.prems(1) by simp
  have up: "map (\<lambda>k. 6 * int k) [j..<j + length (r # rs)] = 6 * int j # map (\<lambda>k. 6 * int k) [Suc j..<Suc j + length rs]"
    by (simp add: upt_Cons_add del: upt_Suc)
  let ?post = "concat (map record_bytes rs)"
  let ?m = "with_file name (t @ line_of r @ [newline]) m"
  have "write_records name (pre @ record_bytes r @ ?post) (6 * int j # map (\<lambda>k. 6 * int k) [Suc j..<Suc j + length rs]) m
      = (if fst r = 0xFFFF then (Inr (), ?m)
         else write_records name (pre @ record_bytes r @ ?post) (map (\<lambda>k. 6 * int k) [Suc j..<Suc j + length rs]) ?m)"
    unfolding write_records.simps pos
    using record_at [OF ok, of pre ?post m] print_file_apply [OF Cons.prems(3)]
    by (simp add: py_bind_def py_seq_def line_of_def)
  moreover have "write_records name ((pre @ record_bytes r) @ ?post) (map (\<lambda>k. 6 * int k) [Suc j..<Suc j + length rs]) ?m
      = (Inr (), if rs = [] then ?m else with_file name ((t @ line_of r @ [newline]) @ records_text (until_end rs)) ?m)"
    using Cons.prems(1,2) by (intro Cons.IH) auto
  ultimately show ?case
    unfolding up by (simp add: records_text_def del: upt_Suc write_records.simps)
qed simp

text \<open>Nothing is printed twice: the screen dump stops before the terminator.\<close>

lemma show_records_text:
  assumes "list_all record_ok rs" "length pre = 6 * j"
  shows "show_records (pre @ concat (map record_bytes rs)) (map (\<lambda>k. 6 * int k) [j..<j + length rs]) m
    = (Inr (), m\<lparr>con := fold print_ln (map (\<lambda>(k, r). index_line k (line_of r))
        (zip [j..<j + length rs] (takeWhile (\<lambda>r. fst r \<noteq> 0xFFFF) rs))) (con m)\<rparr>)"
  using assms
proof (induction rs arbitrary: pre j m)
  case (Cons r rs)
  have pos: "6 * int j = int (length pre)" using Cons.prems(2) by simp
  have j: "nat (int (length pre) div 6) = j" using Cons.prems(2) by simp
  have ok: "record_ok r" using Cons.prems(1) by simp
  have up: "map (\<lambda>k. 6 * int k) [j..<j + length (r # rs)] = 6 * int j # map (\<lambda>k. 6 * int k) [Suc j..<Suc j + length rs]"
    by (simp add: upt_Cons_add del: upt_Suc)
  let ?post = "concat (map record_bytes rs)"
  let ?m = "m\<lparr>con := print_ln (index_line j (line_of r)) (con m)\<rparr>"
  have "show_records (pre @ record_bytes r @ ?post) (6 * int j # map (\<lambda>k. 6 * int k) [Suc j..<Suc j + length rs]) m
      = (if fst r = 0xFFFF then (Inr (), m)
         else show_records (pre @ record_bytes r @ ?post) (map (\<lambda>k. 6 * int k) [Suc j..<Suc j + length rs]) ?m)"
    unfolding show_records.simps pos
    using record_at [OF ok, of pre ?post m]
    by (simp add: py_bind_def py_seq_def line_of_def print_con_def j)
  moreover have "show_records ((pre @ record_bytes r) @ ?post) (map (\<lambda>k. 6 * int k) [Suc j..<Suc j + length rs]) ?m
      = (Inr (), ?m\<lparr>con := fold print_ln (map (\<lambda>(k, r). index_line k (line_of r))
        (zip [Suc j..<Suc j + length rs] (takeWhile (\<lambda>r. fst r \<noteq> 0xFFFF) rs))) (con ?m)\<rparr>)"
    using Cons.prems(1,2) by (intro Cons.IH) auto
  moreover have "[j..<j + length (r # rs)] = j # [Suc j..<Suc j + length rs]"
    by (simp add: upt_Cons_add del: upt_Suc)
  ultimately show ?case
    unfolding up by (simp del: upt_Suc show_records.simps)
qed simp

section \<open>Dumping bytes and comparing\<close>

text \<open>The byte dump runs off the end of the data unless two bytes 0xFF stop it before.\<close>

definition ends_ff :: "int list \<Rightarrow> nat \<Rightarrow> bool" where
  "ends_ff dat i \<longleftrightarrow> i + 2 < length dat \<and> dat ! (i + 1) = 0xFF \<and> dat ! (i + 2) = 0xFF"

lemma show_bytes_until_outcome:
  assumes "j < length dat"
  shows "fst (show_bytes_until dat [j..<length dat] m)
    = (if \<exists>i. j \<le> i \<and> ends_ff dat i then Inr () else Inl IndexError)"
  using assms
proof (induction "length dat - j" arbitrary: j m)
  case (Suc n)
  let ?m = "m\<lparr>con := print_ln (index_line j (fmt_hex True 2 (dat ! j))) (con m)\<rparr>"
  have ix: "py_index dat (int j) = Inr (dat ! j)"
    "py_index dat (int j + 1) = (if Suc j < length dat then Inr (dat ! Suc j) else Inl IndexError)"
    "py_index dat (int j + 2) = (if Suc (Suc j) < length dat then Inr (dat ! Suc (Suc j)) else Inl IndexError)"
    using Suc.prems by (auto simp: py_index_def Let_def nat_add_distrib)
  have "show_bytes_until dat [j..<length dat] m
      = show_bytes_until dat (j # [Suc j..<length dat]) m"
    using Suc.prems by (simp add: upt_rec)
  also have "\<dots> = (if \<not> Suc j < length dat then (Inl IndexError, ?m)
      else if dat ! Suc j = 0xFF \<and> \<not> Suc (Suc j) < length dat then (Inl IndexError, ?m)
      else if ends_ff dat j then (Inr (), ?m) else show_bytes_until dat [Suc j..<length dat] ?m)"
    using ix by (auto simp: py_bind_def py_seq_def print_con_def ends_ff_def)
  finally have eq: "show_bytes_until dat [j..<length dat] m = \<dots>" .
  have split: "(\<exists>i. j \<le> i \<and> ends_ff dat i) \<longleftrightarrow> ends_ff dat j \<or> (\<exists>i. Suc j \<le> i \<and> ends_ff dat i)"
    by (metis Suc_leD le_eq_less_or_eq less_eq_Suc_le)
  have none: "\<not> (\<exists>i. j \<le> i \<and> ends_ff dat i)" if "\<not> Suc (Suc j) < length dat"
    using that by (auto simp: ends_ff_def)
  show ?case
  proof (cases "Suc j < length dat")
    case True
    with Suc have "fst (show_bytes_until dat [Suc j..<length dat] ?m)
      = (if \<exists>i. Suc j \<le> i \<and> ends_ff dat i then Inr () else Inl IndexError)"
      by (intro Suc.hyps(1)) auto
    with True none split show ?thesis unfolding eq by (auto simp: ends_ff_def)
  next
    case False
    with none show ?thesis unfolding eq by auto
  qed
qed simp

lemma compare_bytes_text:
  assumes "j \<le> length f" "length f \<le> length e"
  shows "compare_bytes f e [j..<length f] m
    = (Inr (), m\<lparr>con := fold print_ln (map (\<lambda>i. compare_line (e ! i) (f ! i)) [j..<length f]) (con m)\<rparr>)"
  using assms
proof (induction "length f - j" arbitrary: j m)
  case 0
  then show ?case by simp
next
  case (Suc n)
  then have "[j..<length f] = j # [Suc j..<length f]" by (simp add: upt_rec)
  with Suc show ?case by (simp add: py_bind_def py_seq_def print_con_def)
qed

end
