(* ===== verification/Eeprom_Answers.thy ===== *)
theory Eeprom_Answers
  imports Eeprom_Gennum Eeprom_Frame
begin

text \<open>
  Devices with a given way of answering. If every status the device can give lies in a set
  \<open>V\<close>, the status values a transfer reads lie in \<open>V\<close>: this is another relation that the transfer
  functions keep. With it the outcomes of \<open>i2c_read\<close> and \<open>i2c_write\<close> are settled for a device
  that completes, one that refuses and one that stays silent.
\<close>

definition status_in :: "int set \<Rightarrow> kenv \<Rightarrow> bool" where
  "status_in V env \<longleftrightarrow> (\<forall>h. int (hw_mem env h 2 0x910 4 mod 2 ^ 32) \<in> V)"

definition answers :: "int set \<Rightarrow> nat \<Rightarrow> machine \<Rightarrow> machine \<Rightarrow> bool" where
  "answers V self m t \<longleftrightarrow> (reg_good self m \<longrightarrow> reg_good self t
     \<and> (\<exists>es. bar4_trace t = bar4_trace m @ es \<and> set (reads_of 0x910 es) \<subseteq> V))"

lemma answers_order: "reflp (answers V self)" "transp (answers V self)"
proof -
  show "reflp (answers V self)" by (rule reflpI) (simp add: answers_def)
  show "transp (answers V self)"
  proof (rule transpI)
    fix x y z assume a: "answers V self x y" "answers V self y z"
    show "answers V self x z"
      unfolding answers_def
    proof (intro impI)
      assume g: "reg_good self x"
      with a(1) obtain es where es: "reg_good self y" "bar4_trace y = bar4_trace x @ es"
        "set (reads_of 0x910 es) \<subseteq> V" unfolding answers_def by blast
      with a(2) obtain fs where "reg_good self z" "bar4_trace z = bar4_trace y @ fs"
        "set (reads_of 0x910 fs) \<subseteq> V" unfolding answers_def by blast
      with es show "reg_good self z \<and> (\<exists>es. bar4_trace z = bar4_trace x @ es \<and> set (reads_of 0x910 es) \<subseteq> V)"
        by (intro conjI exI [where x = "es @ fs"]) auto
    qed
  qed
qed

lemma reg_addr_regs: "a \<in> i2c_regs \<Longrightarrow> reg_addr a"
  by (auto simp: i2c_regs_def reg_addr_def)

lemma answers_iread:
  assumes "status_in V env" "a \<in> i2c_regs"
  shows "keeps (answers V self) (gennum_iread env self 4 a 4)"
  unfolding keeps_def answers_def
proof (intro allI impI)
  fix m assume g: "reg_good self m"
  from bar4.rd_law [OF g reg_addr_regs [OF assms(2)], of env] obtain t where
    t: "gennum_iread env self 4 a 4 m = (Inr (bar4_resp env m a), t)" "reg_good self t"
    "bar4_trace t = bar4_trace m @ [Rd a (bar4_resp env m a)]" by blast
  have "bar4_resp env m 0x910 \<in> V" using assms(1) by (simp add: status_in_def bar4_resp_def)
  with t show "reg_good self (snd (gennum_iread env self 4 a 4 m)) \<and>
      (\<exists>es. bar4_trace (snd (gennum_iread env self 4 a 4 m)) = bar4_trace m @ es \<and> set (reads_of 0x910 es) \<subseteq> V)"
    by (intro conjI exI [where x = "[Rd a (bar4_resp env m a)]"]) auto
qed

lemma answers_iwrite:
  assumes "a \<in> i2c_regs"
  shows "keeps (answers V self) (gennum_iwrite env self 4 a 4 v)"
  unfolding keeps_def answers_def
proof (intro allI impI)
  fix m assume g: "reg_good self m"
  from reg_addr_regs [OF assms] obtain off where a: "a = int off" "off < 0x1000" "off mod 4 = 0"
    by (metis reg_addr_def mod_4_nat nat_0_le nat_less_iff of_nat_numeral)
  from g have b: "bound_obj self m" "mapped 4 0x1000 (krn m)" by (auto simp: reg_good_def)
  have "valid_bar 4" by (simp add: valid_bar_def)
  from iwrite_mem [OF b(1) this _ _ b(2) a(2,3), of env v] a(2) obtain r w where
    t: "gennum_iwrite env self 4 a 4 v m = (Inr r,
      put_errno self 0 (m\<lparr>krn := (krn m)\<lparr>mmio := mmio (krn m) @ [MemW 2 off 4 w]\<rparr>\<rparr>))"
    by (auto simp: a(1))
  show "reg_good self (snd (gennum_iwrite env self 4 a 4 v m)) \<and>
      (\<exists>es. bar4_trace (snd (gennum_iwrite env self 4 a 4 v m)) = bar4_trace m @ es \<and> set (reads_of 0x910 es) \<subseteq> V)"
    using g bound_objD [OF b(1)]
    by (simp add: t bar4_trace_def bar4_events_append)
qed

lemma transfer_answers: "status_in V env \<Longrightarrow> transfer_frame (answers V self) (gennum_port env self)"
proof (unfold_locales, goal_cases)
  case (3 a)
  then show ?case using answers_iread by (simp add: gennum_port_def)
next
  case (4 a v)
  then show ?case using answers_iwrite by (simp add: gennum_port_def)
next
  case (5 x)
  then show ?case by (simp add: keeps_def answers_def gennum_port_def print_con_def)
qed (rule answers_order)+

text \<open>Joining the two descriptions of one run.\<close>

lemma does_answers:
  assumes "does (reg_good self) bar4_trace M m Q" "keeps (answers V self) M" "reg_good self m"
  shows "does (reg_good self) bar4_trace M m (\<lambda>r es. Q r es \<and> set (reads_of 0x910 es) \<subseteq> V)"
proof -
  from assms(1) obtain r t es where 1: "M m = (r, t)" "reg_good self t" "bar4_trace t = bar4_trace m @ es" "Q r es"
    unfolding does_def by blast
  from assms(2,3) 1 obtain fs where "bar4_trace t = bar4_trace m @ fs" "set (reads_of 0x910 fs) \<subseteq> V"
    unfolding keeps_def answers_def by (metis snd_conv)
  with 1 show ?thesis unfolding does_def by auto
qed

lemma read_answers:
  assumes "reg_good self m" "status_in V env"
  shows "does (reg_good self) bar4_trace (i2c_read (gennum_port env self) i2c_addr offset len dat) m
    (\<lambda>r es. i2c_read_post i2c_addr offset len dat r es \<and> set (reads_of 0x910 es) \<subseteq> V)"
  using assms
  by (intro does_answers gennum_i2c.i2c_read_does transfer_frame.i2c_read_R transfer_answers)

lemma write_answers:
  assumes "reg_good self m" "status_in V env" "0 \<le> len" "len \<le> int (length dat)"
  shows "does (reg_good self) bar4_trace (i2c_write (gennum_port env self) i2c_addr offset len dat) m
    (\<lambda>r es. i2c_write_post i2c_addr offset (map (\<lambda>d. 0xFF AND d) (take (nat len) dat)) r es
       \<and> set (reads_of 0x910 es) \<subseteq> V)"
  using assms
  by (intro does_answers gennum_i2c.i2c_write_does transfer_frame.i2c_write_R transfer_answers)

section \<open>Outcomes\<close>

lemma not_timed_out: "\<forall>v \<in> set (reads_of 0x910 es). done_st v \<Longrightarrow> \<not> timed_out es"
  by (simp add: timed_out_def i2c_timeout_def filter_empty_conv)

lemma read_completes:
  assumes "i2c_read_post i2c_addr offset len dat r es" "\<forall>v \<in> set (reads_of 0x910 es). done_st v" "0 \<le> len"
  shows "\<exists>vs. r = Inr (len, dat @ map (\<lambda>v. 0xFF AND v) vs) \<and> int (length vs) = len \<and> reads_of 0x90C es = vs"
proof -
  have "\<not> nack_st v" if "done_st v" for v using that by (auto simp: done_st_def nack_st_def)
  with assms(1,2) not_timed_out [OF assms(2)] obtain es1 es2 where
    es: "es = es1 @ Wr 0x900 0x384F # es2" "address_post i2c_addr offset es1" "read_post i2c_addr len 0 dat r es2"
    unfolding i2c_read_post_def by blast
  from es(3) obtain k vs where k: "r = Inr (0 + int (length vs), dat @ map (\<lambda>v. 0xFF AND v) vs)"
    "reads_of 0x90C es2 = vs" "int (length vs) = sum_list (take k (chunk_sizes len))"
    "k \<le> length (chunk_sizes len)" "k < length (chunk_sizes len) \<longrightarrow> timed_out es2"
    unfolding read_post_def by blast
  have "\<not> timed_out es2" using assms(2) es(1) by (intro not_timed_out) auto
  with k have "int (length vs) = len" using sum_chunk_sizes [OF assms(3)] by simp
  moreover have "reads_of 0x90C es1 = []" using es(2) by (auto simp: address_post_def)
  ultimately show ?thesis using k(1,2) es(1) by auto
qed

lemma read_refused:
  assumes "i2c_read_post i2c_addr offset len dat r es" "\<forall>v \<in> set (reads_of 0x910 es). \<not> done_st v"
  shows "r = Inl SystemExit \<and> reads_of 0x90C es = [] \<and> address_post i2c_addr offset es"
  using assms unfolding i2c_read_post_def address_post_def by fastforce

lemma write_unrefused:
  assumes "i2c_write_post i2c_addr offset ds r es" "\<forall>v \<in> set (reads_of 0x910 es). \<not> nack_st v"
  shows "r = Inr (int (length ds))"
proof -
  from assms(1) obtain lb es1 es2 where es: "es = Rd 0x804 lb # es1 @ es2"
    "write_post i2c_addr (bursts offset ds) 0 r es2" unfolding i2c_write_post_def by blast
  with assms(2) have "\<not> (\<exists>v \<in> set (reads_of 0x910 es2). nack_st v)" by auto
  with es(2) have "r = Inr (burst_bytes (bursts offset ds))" unfolding write_post_def by auto
  then show ?thesis by (simp add: burst_bytes_bursts)
qed

end
