(* ===== verification/Demo.thy ===== *)
theory Demo
  imports Gennum
begin

text \<open>
  One concrete board, on which the theorems with hypotheses are shown to apply: a GN4124 with
  BAR 0 and BAR 4 mapped as memory, a DMA buffer of two pages, and one open \<open>Gennum\<close> object. Its
  two-wire interface completes every transfer at once.
\<close>

definition demo_res :: resource where
  "demo_res = \<lparr>r_start = 0xf0000000, r_end = 0xf0000fff, r_mem = True, r_io = False\<rparr>"

definition demo_pdev :: pci_dev where
  "demo_pdev = \<lparr>p_vendor = 0x1a39, p_device = 4, p_subvendor = 0x1a39, p_subdevice = 4,
     p_bus = 0x20, p_devfn = 0, p_irq = 17, p_res = (\<lambda>_. demo_res)\<rparr>"

definition demo_env :: kenv where
  "demo_env = \<lparr>hw_mem = (\<lambda>_ _ off _. if off = 0x910 then 1 else 0), hw_blk = (\<lambda>_ _ _ n. replicate n 0),
     hw_pio = (\<lambda>_ _ _. 0), pci_matches = (\<lambda>_. [demo_pdev]), pci_enable = (\<lambda>_. 0),
     pci_register = (\<lambda>_. 0), irq_request = (\<lambda>_. 0), irq_wait = (\<lambda>_. Wait_Irq),
     clock = (\<lambda>_. (0, 0)), pfn = (\<lambda>i. 0x1000 + i)\<rparr>"

definition demo_kernel :: kernel where
  "demo_kernel = \<lparr>devsel = \<lparr>vendor = 0x1a39, device = 4, subvendor = 0xffff, subdevice = 0xffff,
       bus = 0xffff, devfn = 0xffff\<rparr>,
     id_table = \<lparr>id_vendor = 0x1a39, id_device = 4, id_subvendor = None, id_subdevice = None\<rparr>,
     pdev = Some demo_pdev, dmabuf = replicate 8192 0, bufsize = 8192, irqtime = (0, 0), irqcount = 0,
     completed = False, area = (\<lambda>i. if i \<in> {0, 2} then Some demo_res else None),
     remap = (\<lambda>i. i \<in> {0, 2}), flags = 1, usecount = 1, mmio = [], irq_depth = 0, irq_held = False,
     irq_unbalanced = False, fdtab = [3 \<mapsto> 0], next_fd = 4, node = True, shlib = True\<rparr>"

definition demo :: machine where
  "demo = \<lparr>krn = demo_kernel, objs = [\<lparr>g_fd = 3, g_errno = 0, g_attrs = Map.empty\<rparr>],
     con = \<lparr>out = [], soft = False, inp = [], fls = Map.empty\<rparr>\<rparr>"

lemmas demo_defs = demo_def demo_kernel_def demo_res_def

end
