(* ===== verification/Eeprom_Theorems.thy ===== *)
theory Eeprom_Theorems
  imports Eeprom_Files_Props Eeprom_Text Eeprom_Answers Demo "HOL-Library.Sublist"
begin

text \<open>
  The properties of the EEPROM utility. Each is a few steps over the lemmas of the theories
  before; those with hypotheses are applied to the board of theory Demo.
\<close>

section \<open>Glue\<close>

lemma demo_reg_good: "reg_good 0 demo"
  by (simp add: reg_good_def bound_obj_def mapped_def self_fd_def demo_defs r_size_def)

text \<open>A prefix of the bursts carries a prefix of the data, byte by byte at its address.\<close>

lemma addressed_take: "addressed off (take n ds) = take n (addressed off ds)"
  by (induction ds arbitrary: off n) (auto simp: take_Cons split: nat.split)

lemma length_addressed [simp]: "length (addressed off ds) = length ds"
  by (induction ds arbitrary: off) auto

lemma burst_bytes_nonneg: "0 \<le> burst_bytes bs"
  by (induction bs) auto

lemma burst_bytes_append [simp]: "burst_bytes (bs @ cs) = burst_bytes bs + burst_bytes cs"
  by (induction bs) auto

lemma bursts_prefix_addressed:
  "concat (map (\<lambda>b. addressed (fst b) (snd b)) (take k (bursts off ds)))
     = addressed off (take (nat (burst_bytes (take k (bursts off ds)))) ds)"
proof -
  let ?f = "\<lambda>b :: int \<times> int list. addressed (fst b) (snd b)"
  let ?c = "concat (map ?f (take k (bursts off ds)))"
  have "length (concat (map ?f bs)) = nat (burst_bytes bs)" for bs
    using burst_bytes_nonneg by (induction bs) (auto simp: nat_add_distrib)
  then have len: "length ?c = nat (burst_bytes (take k (bursts off ds)))" .
  have "addressed off ds = ?c @ concat (map ?f (drop k (bursts off ds)))"
    using bursts_addressed [of off ds] by (metis append_take_drop_id concat_append map_append)
  then have "?c = take (length ?c) (addressed off ds)" by simp
  then show ?thesis by (simp add: len addressed_take)
qed

text \<open>The board of theory Demo with another answer in the status register of its interface.\<close>

definition status_env :: "nat \<Rightarrow> kenv" where
  "status_env v = demo_env\<lparr>hw_mem := (\<lambda>_ _ off _. if off = 0x910 then v else 0)\<rparr>"

lemma status_env_in: "v < 2 ^ 32 \<Longrightarrow> int v \<in> V \<Longrightarrow> status_in V (status_env v)"
  by (simp add: status_in_def status_env_def)

lemma status_values: "done_st 1" "\<not> done_st 4" "\<not> nack_st 0" "\<not> done_st 0"
  by (simp_all add: done_st_def nack_st_def)

lemma subset_Collect: "xs \<subseteq> {v. P v} \<Longrightarrow> \<forall>v \<in> xs. P v"
  by auto

section \<open>Transfers\<close>



text \<open>C2: \<open>i2c_write\<close> with enough data returns a count, no exception; the bytes it sends are cut
  into bursts of one to six bytes inside one page of eight, every byte goes to its own address
  in order, the count is the number of bytes sent, and it is less than what was asked for only
  if a status with a NACK or timeout flag was read. (So a burst that never completes is not
  reported: nothing else makes the count smaller.)\<close>

theorem i2c_write_transfer:
  assumes "reg_good self m" "0 \<le> len" "len \<le> int (length dat)"
  shows "\<exists>n t lb es1 es2 bs. i2c_write (gennum_port env self) i2c_addr offset len dat m = (Inr n, t)
     \<and> reg_good self t \<and> bar4_trace t = bar4_trace m @ Rd 0x804 lb # es1 @ es2
     \<and> wrs es1 = init_writes lb @ [(0x900, 0x384E)]
     \<and> wrs es2 = concat (map (burst_writes i2c_addr) bs)
     \<and> (\<forall>b \<in> set bs. snd b \<noteq> [] \<and> length (snd b) \<le> 6
          \<and> fst b div 8 = (fst b + int (length (snd b)) - 1) div 8)
     \<and> concat (map (\<lambda>b. addressed (fst b) (snd b)) bs)
         = addressed offset (take (nat n) (map (\<lambda>d. 0xFF AND d) (take (nat len) dat)))
     \<and> n = burst_bytes bs \<and> n \<le> len
     \<and> (n < len \<longrightarrow> (\<exists>v \<in> set (reads_of 0x910 es2). nack_st v))"
proof -
  let ?ds = "map (\<lambda>d. 0xFF AND d) (take (nat len) dat)" and ?P = "gennum_port env self"
  from gennum_i2c.i2c_write_does [OF assms, of env i2c_addr offset] obtain r t es where
    t: "i2c_write ?P i2c_addr offset len dat m = (r, t)" "reg_good self t"
    "bar4_trace t = bar4_trace m @ es" "i2c_write_post i2c_addr offset ?ds r es"
    unfolding does_def by blast
  from t(4) obtain lb es1 es2 where es: "es = Rd 0x804 lb # es1 @ es2"
    "wrs es1 = init_writes lb @ [(0x900, 0x384E)]" "write_post i2c_addr (bursts offset ?ds) 0 r es2"
    unfolding i2c_write_post_def by blast
  from es(3) obtain k where k: "k \<le> length (bursts offset ?ds)"
    "r = Inr (burst_bytes (take k (bursts offset ?ds)))"
    "wrs es2 = concat (map (burst_writes i2c_addr) (take k (bursts offset ?ds)))"
    "k < length (bursts offset ?ds) \<longrightarrow> (\<exists>v \<in> set (reads_of 0x910 es2). nack_st v)"
    unfolding write_post_def by auto
  have le: "burst_bytes (take k bs) \<le> burst_bytes bs" for bs
    using burst_bytes_append [of "take k bs" "drop k bs"] burst_bytes_nonneg [of "drop k bs"] by simp
  have tot: "burst_bytes (bursts offset ?ds) = len"
    using assms(2,3) by (simp add: burst_bytes_bursts)
  have full: "burst_bytes (take k (bursts offset ?ds)) = len" if "\<not> k < length (bursts offset ?ds)"
    using that tot by simp
  have page: "\<forall>b \<in> set (take k (bursts offset ?ds)). snd b \<noteq> [] \<and> length (snd b) \<le> 6
      \<and> fst b div 8 = (fst b + int (length (snd b)) - 1) div 8"
    using bursts_page in_set_takeD by metis
  have short: "burst_bytes (take k (bursts offset ?ds)) < len \<longrightarrow> (\<exists>v \<in> set (reads_of 0x910 es2). nack_st v)"
    using k(4) full by (metis less_irrefl)
  have le': "burst_bytes (take k (bursts offset ?ds)) \<le> len" using le [of "bursts offset ?ds"] tot by simp
  show ?thesis
    by (intro exI [where x = "burst_bytes (take k (bursts offset ?ds))"] exI [where x = t] exI [where x = lb]
        exI [where x = es1] exI [where x = es2] exI [where x = "take k (bursts offset ?ds)"] conjI)
      (use t(1-3) es(1,2) k(2,3) page bursts_prefix_addressed [of k offset ?ds] short le' in simp_all)
qed

theorem i2c_write_transfer_witness:
  "\<exists>n t. i2c_write (gennum_port demo_env 0) 0x56 5 4 [1, 2, 3, 4] demo = (Inr n, t) \<and> n \<le> 4 \<and> reg_good 0 t"
  using i2c_write_transfer [OF demo_reg_good, of 4 "[1, 2, 3, 4]" demo_env "0x56" 5] by auto

text \<open>C3: on a device whose status always shows completion, \<open>i2c_read\<close> returns the length asked for,
  and the list has grown by exactly that many bytes: the low bytes of the values read from the
  FIFO register, in the order of the reads.\<close>

theorem i2c_read_complete:
  assumes "reg_good self m" "status_in {v. done_st v} env" "0 \<le> len"
  shows "\<exists>t es. i2c_read (gennum_port env self) i2c_addr offset len dat m
       = (Inr (len, dat @ map (\<lambda>v. 0xFF AND v) (reads_of 0x90C es)), t)
     \<and> bar4_trace t = bar4_trace m @ es \<and> int (length (reads_of 0x90C es)) = len"
proof -
  from read_answers [OF assms(1,2)] obtain r t es where
    t: "i2c_read (gennum_port env self) i2c_addr offset len dat m = (r, t)" "bar4_trace t = bar4_trace m @ es"
    "i2c_read_post i2c_addr offset len dat r es" "set (reads_of 0x910 es) \<subseteq> {v. done_st v}"
    unfolding does_def by blast
  from read_completes [OF t(3) subset_Collect [OF t(4)] assms(3)] t(1,2) show ?thesis by auto
qed

theorem i2c_read_complete_witness:
  "\<exists>t es. i2c_read (gennum_port (status_env 1) 0) 0x56 0 252 [] demo
       = (Inr (252, map (\<lambda>v. 0xFF AND v) (reads_of 0x90C es)), t) \<and> length (reads_of 0x90C es) = 252"
proof -
  have "status_in {v. done_st v} (status_env 1)" using status_values by (intro status_env_in) auto
  from i2c_read_complete [OF demo_reg_good this, of 252 "0x56" 0 "[]"] show ?thesis by auto
qed

text \<open>C4: on a device whose status never shows completion, be it a NACK, a timeout flag or nothing
  at all for two million polls, \<open>i2c_read\<close> ends the program before it reads a single byte.\<close>

theorem i2c_read_refused:
  assumes "reg_good self m" "status_in {v. \<not> done_st v} env"
  shows "\<exists>t es. i2c_read (gennum_port env self) i2c_addr offset len dat m = (Inl SystemExit, t)
     \<and> bar4_trace t = bar4_trace m @ es \<and> address_post i2c_addr offset es \<and> reads_of 0x90C es = []"
proof -
  from read_answers [OF assms] obtain r t es where
    t: "i2c_read (gennum_port env self) i2c_addr offset len dat m = (r, t)" "bar4_trace t = bar4_trace m @ es"
    "i2c_read_post i2c_addr offset len dat r es" "set (reads_of 0x910 es) \<subseteq> {v. \<not> done_st v}"
    unfolding does_def by blast
  from read_refused [OF t(3) subset_Collect [OF t(4)]] t(1,2) show ?thesis by auto
qed

theorem i2c_read_refused_witness:
  "\<exists>t. i2c_read (gennum_port (status_env 4) 0) 0x56 0 252 [] demo = (Inl SystemExit, t)"
proof -
  have "status_in {v. \<not> done_st v} (status_env 4)" using status_values by (intro status_env_in) auto
  from i2c_read_refused [OF demo_reg_good this, of "0x56" 0 252 "[]"] show ?thesis by auto
qed

text \<open>C5: \<open>i2c_write\<close> reports success on a device that never answers: if no status carries a NACK or
  timeout flag, all bytes count as written even though no burst was ever seen to complete.\<close>

theorem i2c_write_silent:
  assumes "reg_good self m" "status_in {v. \<not> nack_st v \<and> \<not> done_st v} env" "0 \<le> len" "len \<le> int (length dat)"
  shows "\<exists>t es. i2c_write (gennum_port env self) i2c_addr offset len dat m = (Inr len, t)
     \<and> bar4_trace t = bar4_trace m @ es \<and> (\<forall>v \<in> set (reads_of 0x910 es). \<not> done_st v)"
proof -
  from write_answers [OF assms] obtain r t es where
    t: "i2c_write (gennum_port env self) i2c_addr offset len dat m = (r, t)" "bar4_trace t = bar4_trace m @ es"
    "i2c_write_post i2c_addr offset (map (\<lambda>d. 0xFF AND d) (take (nat len) dat)) r es"
    "set (reads_of 0x910 es) \<subseteq> {v. \<not> nack_st v \<and> \<not> done_st v}"
    unfolding does_def by blast
  from subset_Collect [OF t(4)] have n: "\<forall>v \<in> set (reads_of 0x910 es). \<not> nack_st v"
    "\<forall>v \<in> set (reads_of 0x910 es). \<not> done_st v" by auto
  from write_unrefused [OF t(3) n(1)] t(1,2) n(2) assms(3,4) show ?thesis by auto
qed

theorem i2c_write_silent_witness:
  "\<exists>t. i2c_write (gennum_port (status_env 0) 0) 0x56 0 2 [7, 8] demo = (Inr 2, t)"
proof -
  have "status_in {v. \<not> nack_st v \<and> \<not> done_st v} (status_env 0)" using status_values by (intro status_env_in) auto
  from i2c_write_silent [OF demo_reg_good this, of 2 "[7, 8]" "0x56" 0] show ?thesis by auto
qed

section \<open>The menu and the files\<close>

text \<open>C6: the utility ends for every device and every input, always by an exception that leaves
  the main loop (\<open>SystemExit\<close> for option 0): each turn of the menu consumes a line of input.\<close>

theorem eeprom_utils_ends: "\<exists>e t. eeprom_utils env m = Some (Inl e, t)"
proof -
  obtain r t where r: "gennum_init m = (r, t)" by force
  show ?thesis
  proof (cases r)
    case (Inl e)
    with r show ?thesis by (simp add: eeprom_utils_def)
  next
    case (Inr self)
    with r menu_loop_returns [of env self t] show ?thesis by (simp add: eeprom_utils_def)
  qed
qed

text \<open>C7: only option 2 writes to the file system; every other choice leaves all files as they
  are, whatever the device does and also when the action fails.\<close>

theorem menu_bind_files:
  assumes "l \<noteq> ''2''"
  shows "fls (con (snd (menu_bind l (gennum_port env self) m))) = fls (con m)"
proof -
  have "keeps (only {}) (menu_bind l (gennum_port env self))"
    unfolding menu_bind_def if_not_P [OF assms] by (intro only_steps action_only)
  then show ?thesis by (auto simp: keeps_def only_def)
qed

theorem menu_bind_files_witness: "fls (con (snd (menu_bind ''3'' (gennum_port demo_env 0) demo))) = fls (con demo)"
  by (rule menu_bind_files) simp

text \<open>C8: what a dump writes to an emptied file is read back as the bytes of the records up to
  and including the first one with address 0xFFFF: each record as one line of two hexadecimal
  numbers, each line as six bytes, least significant first.\<close>

theorem dump_read_round_trip:
  assumes "list_all record_ok rs" "rs \<noteq> []" "fls (con m) name = Some []"
  shows "\<exists>t text. write_records name (concat (map record_bytes rs)) (record_range (length rs)) m = (Inr (), t)
     \<and> fls (con t) name = Some text
     \<and> read_lines False (file_lines text) [] t = (Inr (concat (map record_bytes (until_end rs))), t)"
proof -
  have "write_records name (concat (map record_bytes rs)) (record_range (length rs)) m
      = (Inr (), with_file name (records_text (until_end rs)) m)"
    using write_records_text [OF assms(1) _ assms(3), of "[]" 0] assms(2) by (simp add: record_range_def)
  with read_records_text [OF list_all_until_end [OF assms(1)]] show ?thesis by auto
qed

definition demo_records :: "(nat \<times> nat) list" where
  "demo_records = [(0x90, 0xCAFEF00D), (0xFFFF, 1), (3, 4)]"

theorem dump_read_round_trip_witness:
  "\<exists>t text. write_records ''f'' (concat (map record_bytes demo_records)) (record_range (length demo_records))
       (with_file ''f'' [] demo) = (Inr (), t)
     \<and> fls (con t) ''f'' = Some text
     \<and> read_lines False (file_lines text) [] t = (Inr [0x90, 0, 0x0D, 0xF0, 0xFE, 0xCA, 0xFF, 0xFF, 1, 0, 0, 0], t)"
proof -
  have "list_all record_ok demo_records" "demo_records \<noteq> []"
    by (simp_all add: demo_records_def record_ok_def)
  moreover have "concat (map record_bytes (until_end demo_records))
      = [0x90, 0, 0x0D, 0xF0, 0xFE, 0xCA, 0xFF, 0xFF, 1, 0, 0, 0]"
    by (simp add: demo_records_def record_bytes_def le_enc_2 le_enc_4)
  ultimately show ?thesis
    using dump_read_round_trip [of demo_records "with_file ''f'' [] demo" "''f''"] by simp
qed

definition entered :: "string \<Rightarrow> string" where
  "entered l = (if l = [] then ''eeprom.dat'' else l)"

lemma ask_file_apply:
  assumes "inp (con m) = l # ls"
  shows "\<exists>t. ask_file prompt m = (Inr (entered l), t) \<and> inp (con t) = ls \<and> fls (con t) = fls (con m)
     \<and> krn t = krn m \<and> objs t = objs m"
  using assms by (simp add: ask_file_def on_con_def raw_input_def py_bind_def entered_def)

lemma reg_good_con:
  "krn t = krn m \<Longrightarrow> objs t = objs m \<Longrightarrow> reg_good self t = reg_good self m"
  by (simp add: reg_good_def bound_obj_def self_fd_def)

text \<open>C9: the dump empties the file before it talks to the device, so a transfer that is refused
  costs the previous content: the program ends and the file is empty.\<close>

theorem dump_to_file_loses:
  assumes "reg_good self m" "status_in {v. \<not> done_st v} env" "inp (con m) = l # ls"
  shows "\<exists>t. eeprom_dump_to_file (gennum_port env self) m = (Inl SystemExit, t)
     \<and> fls (con t) (entered l) = Some []"
proof -
  from ask_file_apply [OF assms(3)] obtain u where u: "ask_file ''Enter a file name (default=eeprom.dat) :'' m
      = (Inr (entered l), u)" "krn u = krn m" "objs u = objs m" by blast
  let ?v = "with_file (entered l) [] u"
  have "reg_good self ?v"
    using assms(1) u(2,3) reg_good_con [of u m self] by (simp add: with_file_def)
  from read_answers [OF this assms(2)] obtain r t es where
    t: "i2c_read (gennum_port env self) 0x56 0 600 [] ?v = (r, t)"
    "i2c_read_post 0x56 0 600 [] r es" "set (reads_of 0x910 es) \<subseteq> {v. \<not> done_st v}"
    unfolding does_def by blast
  from read_refused [OF t(2) subset_Collect [OF t(3)]] have r: "r = Inl SystemExit" by simp
  have "same_world ?v t"
    using gennum_frame.i2c_read_R [of env self "0x56" 0 600 "[]"] t(1) unfolding keeps_def by (metis snd_conv)
  then have "fls (con t) (entered l) = Some []" by (simp add: same_world_def)
  with u(1) t(1) r show ?thesis
    by (simp add: eeprom_dump_to_file_def py_bind_def py_seq_def open_write_def file_put_apply)
qed

theorem dump_to_file_loses_witness:
  "\<exists>t. eeprom_dump_to_file (gennum_port (status_env 4) 0)
       (demo\<lparr>con := \<lparr>out = [], soft = False, inp = [''x''], fls = [''x'' \<mapsto> ''precious'']\<rparr>\<rparr>) = (Inl SystemExit, t)
     \<and> fls (con t) ''x'' = Some []"
proof -
  have "status_in {v. \<not> done_st v} (status_env 4)" using status_values by (intro status_env_in) auto
  from dump_to_file_loses [OF _ this, of 0 "demo\<lparr>con := \<lparr>out = [], soft = False, inp = [''x''], fls = [''x'' \<mapsto> ''precious'']\<rparr>\<rparr>" "''x''" "[]"]
  show ?thesis using demo_reg_good by (simp add: entered_def)
qed

text \<open>C10: the byte dump on the screen ends with an \<open>IndexError\<close> unless two consecutive bytes 0xFF
  follow some byte of the data: it looks two bytes ahead without checking the length.\<close>

theorem screen_dump_outcome:
  assumes "dat \<noteq> []"
  shows "fst (show_bytes_until dat [0..<length dat] m) = (if \<exists>i. ends_ff dat i then Inr () else Inl IndexError)"
  using show_bytes_until_outcome [of 0 dat m] assms by simp

theorem screen_dump_outcome_witness:
  "fst (show_bytes_until [1, 2, 3] [0..<length [1, 2, 3 :: int]] demo) = Inl IndexError"
  using screen_dump_outcome [of "[1, 2, 3]" demo] by (auto simp: ends_ff_def split: if_splits)

definition write_confirmed :: "machine port \<Rightarrow> string \<Rightarrow> int list \<Rightarrow> string \<Rightarrow> (machine, int) py" where
  "write_confirmed P file_name file_data confirm =
     (if confirm \<noteq> ''Yes'' then py_ret 1
      else py_bind (i2c_write P 0x56 0 (int (length file_data)) file_data) (\<lambda>written.
          py_seq (if written = int (length file_data)
                  then print_con (''EEPROM written with '' @ file_name @ '' content!'')
                  else print_con ''ERROR!!'')
                 (py_ret 0)))"

lemma file_to_eeprom_start:
  assumes "inp (con m) = l # answer # ls" "fls (con m) (entered l) = Some (records_text rs)"
    and "list_all record_ok rs"
  shows "\<exists>v. krn v = krn m \<and> objs v = objs m \<and> file_dump_to_eeprom P m
    = write_confirmed P (entered l) (concat (map record_bytes rs)) answer v"
proof -
  from ask_file_apply [OF assms(1)] obtain u where u: "ask_file ''Enter a file name (default=eeprom.dat):'' m
      = (Inr (entered l), u)" "inp (con u) = answer # ls" "fls (con u) = fls (con m)" "krn u = krn m"
    "objs u = objs m" by blast
  have rl: "read_lines False (file_lines (records_text rs)) [] u = (Inr (concat (map record_bytes rs)), u)"
    by (rule read_records_text [OF assms(3)])
  have op: "open_read (entered l) u = (Inr (records_text rs), u)"
    using u(3) assms(2) by (simp add: open_read_def)
  obtain v where v: "on_con (raw_input ''Do you really want to write the EEPROM? (Type \"Yes\" to confirm) :'') u
      = (Inr answer, v)" "krn v = krn u" "objs v = objs u"
    using u(2) by (simp add: on_con_def raw_input_def)
  have "file_dump_to_eeprom P m = write_confirmed P (entered l) (concat (map record_bytes rs)) answer v"
    by (simp only: file_dump_to_eeprom_def py_bind_def [of "ask_file _"] u(1) prod.case sum.case
        py_bind_def [of "open_read _"] op py_bind_def [of "read_lines _ _ _"] rl py_bind_def [of "on_con _"] v(1)
        write_confirmed_def)
  with u(4,5) v(2,3) show ?thesis by (intro exI [where x = v]) simp
qed

text \<open>C11: writing a file of well-formed record lines to the EEPROM, confirmed with "Yes": the device
  gets the bytes of the records as bursts from address 0, and the last line printed says that
  the content was written exactly when the count returned is the number of bytes.\<close>

theorem file_to_eeprom:
  assumes "reg_good self m" "inp (con m) = l # ''Yes'' # ls" "fls (con m) (entered l) = Some (records_text rs)"
    and "list_all record_ok rs"
  shows "\<exists>t es n msg. file_dump_to_eeprom (gennum_port env self) m = (Inr 0, t)
     \<and> bar4_trace t = bar4_trace m @ es
     \<and> i2c_write_post 0x56 0 (map (\<lambda>d. 0xFF AND d) (concat (map record_bytes rs))) (Inr n) es
     \<and> suffix (msg @ [newline]) (out (con t))
     \<and> msg = (if n = int (length (concat (map record_bytes rs)))
              then ''EEPROM written with '' @ entered l @ '' content!'' else ''ERROR!!'')"
proof -
  let ?fd = "concat (map record_bytes rs)" and ?P = "gennum_port env self"
  from file_to_eeprom_start [OF assms(2-4), of ?P] obtain v where
    v: "krn v = krn m" "objs v = objs m" "file_dump_to_eeprom ?P m = write_confirmed ?P (entered l) ?fd ''Yes'' v"
    by blast
  have "reg_good self v" using assms(1) reg_good_con [OF v(1,2), of self] by blast
  from gennum_i2c.i2c_write_does [OF this, of "int (length ?fd)" ?fd env "0x56" 0]
  have "does (reg_good self) bar4_trace (i2c_write ?P 0x56 0 (int (length ?fd)) ?fd) v
      (i2c_write_post 0x56 0 (map (\<lambda>d. 0xFF AND d) ?fd))"
    by (simp only: nat_int take_all order_refl of_nat_0_le_iff simp_thms)
  then obtain r t es where
    t: "i2c_write ?P 0x56 0 (int (length ?fd)) ?fd v = (r, t)" "bar4_trace t = bar4_trace v @ es"
    "i2c_write_post 0x56 0 (map (\<lambda>d. 0xFF AND d) ?fd) r es"
    unfolding does_def by blast
  from t(3) obtain n where r: "r = Inr n" unfolding i2c_write_post_def write_post_def by auto
  have tr: "bar4_trace v = bar4_trace m" using v(1) by (simp add: bar4_trace_def)
  define msg where "msg = (if n = int (length ?fd)
      then ''EEPROM written with '' @ entered l @ '' content!'' else ''ERROR!!'')"
  have run: "file_dump_to_eeprom ?P m = (Inr 0, t\<lparr>con := print_ln msg (con t)\<rparr>)"
    unfolding v(3) write_confirmed_def using t(1) r by (simp add: py_bind_Inr py_seq_def print_con_def py_bind_def msg_def)
  have "suffix (msg @ [newline]) (out (print_ln msg (con t)))"
    by (simp add: print_ln_def suffix_def)
  with run t(2,3) r tr show ?thesis
    by (intro exI [where x = "t\<lparr>con := print_ln msg (con t)\<rparr>"] exI [where x = es] exI [where x = n]
        exI [where x = msg]) (simp add: msg_def)
qed

definition demo_typed :: "string list \<Rightarrow> machine" where
  "demo_typed ls = demo\<lparr>con := \<lparr>out = [], soft = False, inp = ls, fls = [''x'' \<mapsto> records_text demo_records]\<rparr>\<rparr>"

lemma demo_typed:
  "reg_good 0 (demo_typed ls)" "inp (con (demo_typed ls)) = ls"
  "fls (con (demo_typed ls)) (entered ''x'') = Some (records_text demo_records)" "list_all record_ok demo_records"
  using demo_reg_good by (simp_all add: demo_typed_def entered_def demo_records_def record_ok_def)

theorem file_to_eeprom_witness:
  "\<exists>t es n. file_dump_to_eeprom (gennum_port demo_env 0) (demo_typed [''x'', ''Yes'']) = (Inr 0, t)
     \<and> i2c_write_post 0x56 0 (map (\<lambda>d. 0xFF AND d) (concat (map record_bytes demo_records))) (Inr n) es"
  using file_to_eeprom [OF demo_typed(1) demo_typed(2) demo_typed(3,4), of demo_env] by blast

text \<open>Any other answer than "Yes" leaves the device and the kernel untouched; the result is 1.\<close>

lemma file_to_eeprom_declined:
  assumes "inp (con m) = l # answer # ls" "answer \<noteq> ''Yes''" "fls (con m) (entered l) = Some (records_text rs)"
    and "list_all record_ok rs"
  shows "\<exists>t. file_dump_to_eeprom P m = (Inr 1, t) \<and> krn t = krn m"
  using file_to_eeprom_start [OF assms(1,3,4), of P] assms(2) by (auto simp: write_confirmed_def)

text \<open>Comparing prints one line per byte of the file, "OK" exactly where the two agree; the
  comparison of equally long data raises nothing.\<close>

lemma compare_prints:
  assumes "length f \<le> length e"
  shows "compare_bytes f e [0..<length f] m
    = (Inr (), m\<lparr>con := fold print_ln (map (\<lambda>i. ''EEPROM= '' @ fmt_hex True 2 (e ! i) @ '', FILE= ''
        @ fmt_hex True 2 (f ! i) @ (if f ! i = e ! i then '' => OK'' else '' => ERROR'')) [0..<length f]) (con m)\<rparr>)"
  using compare_bytes_text [of 0 f e m] assms by (simp add: compare_line_def)

end
