(* ===== verification/Gennum_Addr.thy ===== *)
theory Gennum_Addr
  imports Gennum
begin

text \<open>
  The address syntax of \<open>Gennum.bind\<close>: every match of the pattern of \<open>parse_addr\<close> splits the
  text into its numbers, a number of at most four hexadecimal digits is read without an error,
  and \<open>parse_addr\<close> is solved for every text.
\<close>

section \<open>Hexadecimal numbers\<close>

definition hexs :: "string \<Rightarrow> bool" where
  "hexs t \<longleftrightarrow> t \<noteq> [] \<and> length t \<le> 4 \<and> list_all is_hexd t"

text \<open>The value of a string of digits.\<close>

definition hex_value :: "string \<Rightarrow> nat" where
  "hex_value t = foldl (\<lambda>n c. n * 16 + the (digit_val c)) 0 t"

lemma is_hexd_iff: "is_hexd c \<longleftrightarrow> (\<exists>d < 16. digit_val c = Some d)"
  by (auto simp: is_hexd_def split: option.splits)

lemma digits_val_hex: "list_all is_hexd t \<Longrightarrow> digits_val 16 acc t = Some (foldl (\<lambda>n c. n * 16 + the (digit_val c)) acc t)"
  by (induction t arbitrary: acc) (auto simp: is_hexd_iff)

lemma foldl_hex_bound:
  "list_all is_hexd t \<Longrightarrow> acc < 16 ^ k \<Longrightarrow> foldl (\<lambda>n c. n * 16 + the (digit_val c)) acc t < 16 ^ (k + length t)"
proof (induction t arbitrary: acc k)
  case (Cons c t)
  then obtain d where d: "digit_val c = Some d" "d < 16" by (auto simp: is_hexd_iff)
  from Cons.prems(2) have "Suc acc * 16 \<le> 16 ^ k * 16" by (intro mult_le_mono1) simp
  with d(2) have "acc * 16 + d < 16 ^ Suc k" by simp
  from Cons.IH [OF _ this] Cons.prems(1) d(1) show ?case by simp
qed simp

lemma hex_value_bound: "hexs t \<Longrightarrow> hex_value t < 65536"
proof -
  assume h: "hexs t"
  then have "hex_value t < 16 ^ (0 + length t)"
    unfolding hex_value_def hexs_def by (intro foldl_hex_bound) auto
  also have "\<dots> \<le> (16 :: nat) ^ 4"
    using h by (intro power_increasing) (auto simp: hexs_def)
  finally show ?thesis by simp
qed

lemma special_not_hex: "is_hexd c \<Longrightarrow> \<not> is_space c \<and> c \<noteq> CHR ''-'' \<and> c \<noteq> CHR ''+'' \<and> c \<noteq> CHR ''x'' \<and> c \<noteq> CHR ''X''"
proof -
  have no: "\<not> is_hexd (CHR ''-'')" "\<not> is_hexd (CHR ''+'')" "\<not> is_hexd (CHR ''x'')" "\<not> is_hexd (CHR ''X'')"
    by code_simp+
  have "\<not> is_space c" if "is_hexd c"
    using that by (auto simp: is_hexd_def digit_val_def is_space_def Let_def split: if_splits)
  with no show "is_hexd c \<Longrightarrow> ?thesis" by auto
qed

lemma py_int_hexdigits: "t \<noteq> [] \<Longrightarrow> list_all is_hexd t \<Longrightarrow> py_int 16 t = Inr (int (hex_value t))"
proof -
  assume h: "t \<noteq> []" "list_all is_hexd t"
  then obtain c cs where t: "t = c # cs" by (cases t) auto
  have all: "\<forall>x \<in> set t. is_hexd x" using h by (simp add: list_all_iff)
  then have sp: "\<forall>x \<in> set t. \<not> is_space x" using special_not_hex by blast
  have strip: "py_strip t = t"
  proof -
    have "dropWhile is_space xs = xs" if "\<forall>x \<in> set xs. \<not> is_space x" for xs
      using that by (cases xs) auto
    from this [OF sp] this [of "rev t"] sp show ?thesis by (simp add: py_strip_def)
  qed
  have x: "take 2 t \<noteq> ''0x''" "take 2 t \<noteq> ''0X''"
    using all special_not_hex t by (cases cs; auto)+
  have "digits_val 16 0 t = Some (hex_value t)"
    using h unfolding hex_value_def by (intro digits_val_hex) simp
  with strip t x all special_not_hex show ?thesis
    by (auto simp: py_int_def unsigned_val_def drop_0x_def)
qed

lemma py_int_hexs: "hexs t \<Longrightarrow> py_int 16 t = Inr (int (hex_value t))"
  by (simp add: hexs_def py_int_hexdigits)

text \<open>A number printed in hexadecimal is read back.\<close>

lemma is_hexd_hexd [simp]: "d < 16 \<Longrightarrow> is_hexd (hexd up d)"
  by (simp add: is_hexd_def)

lemma hexnum_digits: "hexnum up n \<noteq> [] \<and> list_all is_hexd (hexnum up n) \<and> hex_value (hexnum up n) = n"
proof (induction n rule: less_induct)
  case (less n)
  show ?case
  proof (cases "n < 16")
    case True
    then show ?thesis by (simp add: hexnum.simps hex_value_def)
  next
    case False
    with less [of "n div 16"] have "list_all is_hexd (hexnum up (n div 16))" "hex_value (hexnum up (n div 16)) = n div 16"
      by simp_all
    with False show ?thesis by (subst hexnum.simps, subst (2) hexnum.simps, subst (3) hexnum.simps) (simp add: hex_value_def)
  qed
qed

lemma py_int_hexnum: "py_int 16 (hexnum up n) = Inr (int n)"
  using hexnum_digits [of up n] py_int_hexdigits by simp

lemma hexnum_no_space: "\<forall>c \<in> set (hexnum up n). \<not> is_space c"
  using hexnum_digits [of up n] special_not_hex by (auto simp: list_all_iff)

section \<open>Matches of the pattern\<close>

text \<open>An optional pair of numbers after a separator.\<close>

definition pair_text :: "string \<Rightarrow> (string \<times> string) option \<Rightarrow> string" where
  "pair_text x p = (case p of None \<Rightarrow> [] | Some (a, b) \<Rightarrow> x @ a @ '':'' @ b)"

definition pair_ok :: "(string \<times> string) option \<Rightarrow> bool" where
  "pair_ok p = (case p of None \<Rightarrow> True | Some (a, b) \<Rightarrow> hexs a \<and> hexs b)"

definition pair_captures :: "string \<Rightarrow> string \<Rightarrow> (string \<times> string) option \<Rightarrow> captures" where
  "pair_captures g h p = (case p of None \<Rightarrow> [] | Some (a, b) \<Rightarrow> [(h, b), (g, a)])"

lemma piece_hex:
  "i \<le> length s \<Longrightarrow> (j, d) \<in> set (run (rx_hex g) s (i, c)) \<longleftrightarrow> (\<exists>t. at s i t \<and> hexs t \<and> j = i + length t \<and> d = (g, t) # c)"
  unfolding rx_hex_def mem_run_Grp piece_Rep by (auto simp: hexs_def at_def Suc_le_eq)

lemma piece_pair:
  assumes "i \<le> length s"
  shows "(j, d) \<in> set (run (Opt (cats [Lit x, rx_hex g, Lit '':'', rx_hex h])) s (i, c)) \<longleftrightarrow>
    (\<exists>p. at s i (pair_text x p) \<and> pair_ok p \<and> j = i + length (pair_text x p) \<and> d = pair_captures g h p @ c)" (is "?l \<longleftrightarrow> ?r")
proof
  assume ?l
  then consider "j = i" "d = c" | i1 e1 i2 e2 i3 e3 where "(i1, e1) \<in> set (run (Lit x) s (i, c))" "(i2, e2) \<in> set (run (rx_hex g) s (i1, e1))"
    "(i3, e3) \<in> set (run (Lit '':'') s (i2, e2))" "(j, d) \<in> set (run (rx_hex h) s (i3, e3))"
    unfolding cats.simps mem_run_Opt mem_run_Cat by blast
  then show ?r
  proof cases
    case 1
    with assms show ?thesis by (intro exI [where x = None]) (simp add: pair_text_def pair_ok_def pair_captures_def)
  next
    case 2
    from 2(1) have 1: "at s i x" "i1 = i + length x" "e1 = c" unfolding piece_Lit [OF assms] by blast+
    note b1 = piece_bound [OF 1(1,2)]
    from 2(2) obtain a where a: "at s i1 a" "hexs a" "i2 = i1 + length a" "e2 = (g, a) # e1" unfolding piece_hex [OF b1] by blast
    note b2 = piece_bound [OF a(1,3)]
    from 2(3) have 3: "at s i2 '':''" "i3 = i2 + length '':''" "e3 = e2" unfolding piece_Lit [OF b2] by blast+
    note b3 = piece_bound [OF 3(1,2)]
    from 2(4) obtain b where b: "at s i3 b" "hexs b" "j = i3 + length b" "d = (h, b) # e3" unfolding piece_hex [OF b3] by blast
    have "at s i (x @ a @ '':'' @ b)" unfolding at_append using 1 a 3 b by simp
    with 1 a 3 b show ?thesis
      by (intro exI [where x = "Some (a, b)"]) (simp add: pair_text_def pair_ok_def pair_captures_def)
  qed
next
  assume ?r
  then obtain p where p: "at s i (pair_text x p)" "pair_ok p" "j = i + length (pair_text x p)" "d = pair_captures g h p @ c" by blast
  show ?l
  proof (cases p)
    case None
    with p show ?thesis by (simp add: mem_run_Opt pair_text_def pair_captures_def del: run.simps)
  next
    case (Some q)
    obtain a b where q: "q = (a, b)" by force
    let ?i1 = "i + length x" let ?i2 = "?i1 + length a" let ?i3 = "?i2 + length '':''"
    have pt: "pair_text x p = x @ a @ '':'' @ b" using Some q by (simp add: pair_text_def)
    have t: "at s i x" "at s ?i1 a" "at s ?i2 '':''" "at s ?i3 b" using p(1) unfolding pt at_append by blast+
    have h: "hexs a" "hexs b" "j = ?i3 + length b" "d = (h, b) # (g, a) # c"
      using p(2-4) Some q pt by (simp_all add: pair_ok_def pair_captures_def)
    note b = at_length [OF t(1)] at_length [OF t(2)] at_length [OF t(3)]
    have "(?i2, (g, a) # c) \<in> set (run (rx_hex g) s (?i1, c))" unfolding piece_hex [OF b(1)] using t h by blast
    moreover have "(?i3, (g, a) # c) \<in> set (run (Lit '':'') s (?i2, (g, a) # c))" unfolding piece_Lit [OF b(2)] using t by blast
    moreover have "(j, d) \<in> set (run (rx_hex h) s (?i3, (g, a) # c))" unfolding piece_hex [OF b(3)] using t h by blast
    ultimately show ?thesis using t(1) unfolding cats.simps mem_run_Opt mem_run_Cat piece_Lit [OF assms] by blast
  qed
qed

text \<open>The texts of an address, \<open>vendor:device[/subvendor:subdevice][@bus:devfn]\<close>; a line end may follow.\<close>

definition addr_text :: "string \<Rightarrow> string \<Rightarrow> (string \<times> string) option \<Rightarrow> (string \<times> string) option \<Rightarrow> string" where
  "addr_text v d sub geo = v @ '':'' @ d @ pair_text ''/'' sub @ pair_text ''@'' geo"

definition addr_form :: "string \<Rightarrow> string \<Rightarrow> string \<Rightarrow> bool" where
  "addr_form s v d \<longleftrightarrow> hexs v \<and> hexs d
     \<and> (\<exists>sub geo nl. pair_ok sub \<and> pair_ok geo \<and> nl \<in> {[], [newline]} \<and> s = addr_text v d sub geo @ nl)"

lemma run_addr:
  "(j, e) \<in> set (run addr_reg s (0, [])) \<longleftrightarrow>
    (\<exists>v d sub geo. at s 0 (addr_text v d sub geo) \<and> hexs v \<and> hexs d \<and> pair_ok sub \<and> pair_ok geo
      \<and> j = length (addr_text v d sub geo) \<and> drop j s \<in> {[], [newline]}
      \<and> e = pair_captures ''bus'' ''devfn'' geo @ pair_captures ''subvendor'' ''subdevice'' sub @ [(''device'', d), (''vendor'', v)])"
    (is "?l \<longleftrightarrow> ?r")
proof
  let ?sub = "Opt (cats [Lit ''/'', rx_hex ''subvendor'', Lit '':'', rx_hex ''subdevice''])"
  let ?geo = "Opt (cats [Lit ''@'', rx_hex ''bus'', Lit '':'', rx_hex ''devfn''])"
  define rs where "rs = ?sub"
  define rg where "rg = ?geo"
  have reg: "addr_reg = cats [Bol, rx_hex ''vendor'', Lit '':'', rx_hex ''device'', rs, rg, Eol]"
    by (simp add: addr_reg_def rs_def rg_def)
  {
    assume ?l
    then obtain i1 e1 i2 e2 i3 e3 i4 e4 i5 e5 where
      m: "(i1, e1) \<in> set (run (rx_hex ''vendor'') s (0, []))" "(i2, e2) \<in> set (run (Lit '':'') s (i1, e1))"
      "(i3, e3) \<in> set (run (rx_hex ''device'') s (i2, e2))" "(i4, e4) \<in> set (run rs s (i3, e3))"
      "(i5, e5) \<in> set (run rg s (i4, e4))" "(j, e) \<in> set (run Eol s (i5, e5))"
      unfolding reg cats.simps mem_run_Cat mem_run_Bol by blast
    have b0: "0 \<le> length s" by simp
    from m(1) obtain v where v: "at s 0 v" "hexs v" "i1 = 0 + length v" "e1 = [(''vendor'', v)]" unfolding piece_hex [OF b0] by blast
    note b1 = piece_bound [OF v(1,3)]
    from m(2) have c: "at s i1 '':''" "i2 = i1 + length '':''" "e2 = e1" unfolding piece_Lit [OF b1] by blast+
    note b2 = piece_bound [OF c(1,2)]
    from m(3) obtain d where d: "at s i2 d" "hexs d" "i3 = i2 + length d" "e3 = (''device'', d) # e2" unfolding piece_hex [OF b2] by blast
    note b3 = piece_bound [OF d(1,3)]
    from m(4) obtain sub where sub: "at s i3 (pair_text ''/'' sub)" "pair_ok sub" "i4 = i3 + length (pair_text ''/'' sub)"
      "e4 = pair_captures ''subvendor'' ''subdevice'' sub @ e3" unfolding rs_def piece_pair [OF b3] by blast
    note b4 = piece_bound [OF sub(1,3)]
    from m(5) obtain geo where geo: "at s i4 (pair_text ''@'' geo)" "pair_ok geo" "i5 = i4 + length (pair_text ''@'' geo)"
      "e5 = pair_captures ''bus'' ''devfn'' geo @ e4" unfolding rg_def piece_pair [OF b4] by blast
    note b5 = piece_bound [OF geo(1,3)]
    from m(6) have e: "j = i5" "e = e5" "drop j s \<in> {[], [newline]}" unfolding piece_Eol [OF b5] by blast+
    have "at s 0 (addr_text v d sub geo)" unfolding addr_text_def at_append using v c d sub geo by simp
    moreover have "j = length (addr_text v d sub geo)" using v(3) c(2) d(3) sub(3) geo(3) e(1) by (simp add: addr_text_def)
    moreover have "e = pair_captures ''bus'' ''devfn'' geo @ pair_captures ''subvendor'' ''subdevice'' sub @ [(''device'', d), (''vendor'', v)]"
      using v(4) c(3) d(4) sub(4) geo(4) e(2) by simp
    ultimately show ?r using v(2) d(2) sub(2) geo(2) e(3) by blast
  next
    assume ?r
    then obtain v d sub geo where p: "at s 0 (addr_text v d sub geo)" "hexs v" "hexs d" "pair_ok sub" "pair_ok geo"
      "j = length (addr_text v d sub geo)" "drop j s \<in> {[], [newline]}"
      "e = pair_captures ''bus'' ''devfn'' geo @ pair_captures ''subvendor'' ''subdevice'' sub @ [(''device'', d), (''vendor'', v)]" by blast
    let ?i1 = "length v" let ?i2 = "?i1 + length '':''" let ?i3 = "?i2 + length d"
    let ?i4 = "?i3 + length (pair_text ''/'' sub)" let ?i5 = "?i4 + length (pair_text ''@'' geo)"
    let ?e3 = "[(''device'', d), (''vendor'', v)]" let ?e4 = "pair_captures ''subvendor'' ''subdevice'' sub @ ?e3"
    have a: "at s 0 v" "at s ?i1 '':''" "at s ?i2 d" "at s ?i3 (pair_text ''/'' sub)" "at s ?i4 (pair_text ''@'' geo)"
      by (use p(1) in \<open>simp_all only: addr_text_def at_append add_0\<close>)
    note b = at_length [OF a(1), unfolded add_0] at_length [OF a(2)] at_length [OF a(3)] at_length [OF a(4)] at_length [OF a(5)]
    have j: "j = ?i5" using p(6) by (simp add: addr_text_def)
    have c1: "(?i1, [(''vendor'', v)]) \<in> set (run (rx_hex ''vendor'') s (0, []))" unfolding piece_hex [OF le0] using a(1) p(2) by auto
    have c2: "(?i2, [(''vendor'', v)]) \<in> set (run (Lit '':'') s (?i1, [(''vendor'', v)]))" unfolding piece_Lit [OF b(1)] using a(2) by blast
    have c3: "(?i3, ?e3) \<in> set (run (rx_hex ''device'') s (?i2, [(''vendor'', v)]))" unfolding piece_hex [OF b(2)] using a(3) p(3) by blast
    have c4: "(?i4, ?e4) \<in> set (run rs s (?i3, ?e3))" unfolding rs_def piece_pair [OF b(3)] using a(4) p(4) by blast
    have c5: "(?i5, e) \<in> set (run rg s (?i4, ?e4))" unfolding rg_def piece_pair [OF b(4)] p(8) using a(5) p(5) by blast
    have c6: "(j, e) \<in> set (run Eol s (?i5, e))" unfolding piece_Eol [OF b(5)] using p(7) j by blast
    have c0: "(0, []) \<in> set (run Bol s (0, []))" by simp
    note step = mem_run_CatI
    show ?l unfolding reg cats.simps by (rule step [OF c0 step [OF c1 step [OF c2 step [OF c3 step [OF c4 step [OF c5 c6]]]]]])
  }
qed

section \<open>The dictionary\<close>

definition addr_dict :: "string \<Rightarrow> string \<Rightarrow> dict" where
  "addr_dict v d = [(''vendor'', VInt (int (hex_value v))), (''device'', VInt (int (hex_value d))),
     (''subvendor'', VInt 0xffff), (''subdevice'', VInt 0xffff), (''bus'', VInt 0xffff), (''devfn'', VInt 0xffff)]"

lemma parse_addr_match:
  assumes "re_match addr_reg s = Some (j, e)"
  shows "\<exists>v d. addr_form s v d \<and> parse_addr s = Inr (addr_dict v d)"
proof -
  from re_match_Some [OF assms] obtain v d sub geo where m: "at s 0 (addr_text v d sub geo)" "hexs v" "hexs d" "pair_ok sub" "pair_ok geo"
    "j = length (addr_text v d sub geo)" "drop j s \<in> {[], [newline]}"
    "e = pair_captures ''bus'' ''devfn'' geo @ pair_captures ''subvendor'' ''subdevice'' sub @ [(''device'', d), (''vendor'', v)]"
    unfolding run_addr by blast
  have "s = addr_text v d sub geo @ drop j s" using at_0 [OF m(1)] m(6) by simp
  with m have "addr_form s v d" unfolding addr_form_def by blast
  moreover have "map_of e ''vendor'' = Some v" "map_of e ''device'' = Some d"
    unfolding m(8) by (auto simp: pair_captures_def split: option.split)
  then have "parse_addr s = Inr (addr_dict v d)"
    using py_int_hexs [OF m(2)] py_int_hexs [OF m(3)]
    by (simp add: parse_addr_def assms groupdict_def addr_groups_def has_key_def dict_set_def
        addr_dict_def RR_DEVSEL_UNUSED_def Let_def)
  ultimately show ?thesis by blast
qed

lemma parse_addr_nomatch: "re_match addr_reg s = None \<Longrightarrow> parse_addr s = Inl AttributeError"
  by (simp add: parse_addr_def)

lemma addr_form_match: "addr_form s v d \<Longrightarrow> re_match addr_reg s \<noteq> None"
proof -
  assume "addr_form s v d"
  then obtain sub geo nl where f: "hexs v" "hexs d" "pair_ok sub" "pair_ok geo" "nl \<in> {[], [newline]}" "s = addr_text v d sub geo @ nl"
    unfolding addr_form_def by blast
  have "at s 0 (addr_text v d sub geo)" using f(6) at_self [of "[]"] by simp
  moreover have "drop (length (addr_text v d sub geo)) s = nl" using f(6) by simp
  ultimately have "\<exists>j e. (j, e) \<in> set (run addr_reg s (0, []))" unfolding run_addr using f by blast
  then show ?thesis unfolding re_match_None by (metis empty_iff)
qed

text \<open>The two numbers are determined by the text.\<close>

lemma hexs_takeWhile:
  assumes "hexs t" "rest = [] \<or> \<not> is_hexd (hd rest)"
  shows "takeWhile is_hexd (t @ rest) = t" "dropWhile is_hexd (t @ rest) = rest"
proof -
  have "\<forall>x \<in> set t. is_hexd x" using assms(1) by (simp add: hexs_def list_all_iff)
  moreover from assms(2) have "takeWhile is_hexd rest = []" "dropWhile is_hexd rest = rest"
    by (cases rest; simp)+
  ultimately show "takeWhile is_hexd (t @ rest) = t" "dropWhile is_hexd (t @ rest) = rest"
    by simp_all
qed

lemma separators_not_hex: "\<not> is_hexd (CHR '':'')" "\<not> is_hexd (CHR ''/'')" "\<not> is_hexd (CHR ''@'')" "\<not> is_hexd newline"
  by code_simp+

lemma addr_form_split:
  assumes "addr_form s v d"
  obtains rest where "s = v @ '':'' @ d @ rest" "hexs v" "hexs d" "rest = [] \<or> \<not> is_hexd (hd rest)"
proof -
  from assms obtain sub geo nl where f: "hexs v" "hexs d" "nl \<in> {[], [newline]}" "s = addr_text v d sub geo @ nl"
    unfolding addr_form_def by blast
  let ?rest = "pair_text ''/'' sub @ pair_text ''@'' geo @ nl"
  have "?rest = [] \<or> \<not> is_hexd (hd ?rest)"
    using f(3) separators_not_hex by (auto simp: pair_text_def split: option.split)
  with f show thesis by (intro that [of ?rest]) (simp_all add: addr_text_def)
qed

lemma addr_form_unique: "addr_form s v d \<Longrightarrow> addr_form s v' d' \<Longrightarrow> v = v' \<and> d = d'"
proof -
  assume "addr_form s v d" "addr_form s v' d'"
  then obtain r r' where r: "s = v @ '':'' @ d @ r" "hexs v" "hexs d" "r = [] \<or> \<not> is_hexd (hd r)"
    and r': "s = v' @ '':'' @ d' @ r'" "hexs v'" "hexs d'" "r' = [] \<or> \<not> is_hexd (hd r')" by (metis addr_form_split)
  have c: "\<not> is_hexd (hd ('':'' @ x))" for x using separators_not_hex(1) by simp
  have v: "v = v'" using hexs_takeWhile(1) [OF r(2) disjI2, OF c] hexs_takeWhile(1) [OF r'(2) disjI2, OF c] r(1) r'(1) by metis
  with r(1) r'(1) have "d @ r = d' @ r'" by simp
  with hexs_takeWhile(1) [OF r(3,4)] hexs_takeWhile(1) [OF r'(3,4)] v show ?thesis by metis
qed

end
