(* ===== verification/Gennum_Theorems.thy ===== *)
theory Gennum_Theorems
  imports Gennum_Ports Gennum_Addr Demo
begin

text \<open>
  The properties of the class \<open>Gennum\<close> and of the driver calls behind it: what a failed access
  leaves alone, the DMA buffer as a store, accesses inside the BAR, the address syntax of
  \<open>bind\<close>, the page list.
\<close>

section \<open>Outcomes of the word accesses\<close>

text \<open>An access of the driver either succeeds, or changes neither the record nor the kernel.\<close>

lemma rr_do_iocmd_outcome:
  "rr_do_iocmd env wr c k = (r, c1, k1) \<Longrightarrow> r = 0 \<or> (r < 0 \<and> c1 = c \<and> k1 = k)"
proof -
  have sc: "size_check n off = 0 \<or> size_check n off < 0" for n off
    using size_check_le_0 [of n off] by linarith
  assume "rr_do_iocmd env wr c k = (r, c1, k1)"
  then show ?thesis
    using sc [of "datasize c" "RR_GET_OFF (address c)"]
    by (auto simp: rr_do_iocmd_def rr_do_iocmd_dmabuf_def rr_do_read_mem_def rr_do_write_mem_def
        rr_do_read_io_def rr_do_write_io_def Let_def split: if_splits option.splits)
qed

lemma user_errno_pos: "0 < e \<Longrightarrow> 0 < user_errno e"
  by (simp add: user_errno_def)

lemma rr_iread_outcome:
  "\<exists>r c1 k1. rr_iread env fd c k = (Inr r, c1, k1) \<and> r \<le> 0 \<and> (r < 0 \<longrightarrow> c1 = c \<and> k1 = k)"
proof (cases "fdtab k fd")
  case None
  then show ?thesis by (simp add: rr_iread_def sys_ioctl_def errno_result_def)
next
  case (Some pos)
  obtain r c1 k1 where d: "rr_do_iocmd env False c k = (r, c1, k1)" by (cases "rr_do_iocmd env False c k") auto
  from rr_do_iocmd_outcome [OF d] show ?thesis
    using Some d user_errno_pos [of "- r"]
    by (auto simp: rr_iread_def sys_ioctl_def rr_ioctl_def errno_result_def)
qed

lemma rr_iwrite_outcome:
  "\<exists>r k1. rr_iwrite env fd c k = (Inr r, c, k1) \<and> r \<le> 0 \<and> (r < 0 \<longrightarrow> k1 = k)"
proof (cases "fdtab k fd")
  case None
  then show ?thesis by (simp add: rr_iwrite_def sys_ioctl_def errno_result_def)
next
  case (Some pos)
  obtain r c1 k1 where d: "rr_do_iocmd env True c k = (r, c1, k1)" by (cases "rr_do_iocmd env True c k") auto
  from rr_do_iocmd_outcome [OF d] show ?thesis
    using Some d user_errno_pos [of "- r"]
    by (auto simp: rr_iwrite_def sys_ioctl_def rr_ioctl_def errno_result_def)
qed

lemma dict_get_bar_cases: "dict_get bar_map b = (if b \<in> {0, 2, 4, 12} then Inr (b * bar_span_int) else Inl KeyError)"
  using bar_map_iff [of b "b * bar_span_int"] dict_get_bar_bad [of b] by (auto simp: dict_get_def)

lemma iread_ends:
  "if b \<in> {0, 2, 4, 12}
   then \<exists>v e k. gennum_iread env self b off w m = (Inr v, put_errno self e (m\<lparr>krn := k\<rparr>)) \<and> e \<le> 0
     \<and> (e = 0 \<or> v = 0 \<and> k = krn m)
   else gennum_iread env self b off w m = (Inl KeyError, m)"
proof (cases "b \<in> {0, 2, 4, 12}")
  case True
  from rr_iread_outcome [of env "self_fd self m" "RR_Iocmd (b * bar_span_int + off) w 0" "krn m"] obtain r c1 k1 where
    r: "rr_iread env (self_fd self m) (RR_Iocmd (b * bar_span_int + off) w 0) (krn m) = (Inr r, c1, k1)"
    "r \<le> 0" "r < 0 \<longrightarrow> c1 = RR_Iocmd (b * bar_span_int + off) w 0 \<and> k1 = krn m" by blast
  have z: "data32 (RR_Iocmd a w 0) = 0" for a by (simp add: data32_RR_Iocmd)
  have "gennum_iread env self b off w m = (Inr (int (data32 c1)), put_errno self r (m\<lparr>krn := k1\<rparr>))"
    using r(1) True by (simp add: gennum_iread_def py_bind_def py_seq_def dict_get_bar_cases on_kernel_ref_def)
  moreover have "r = 0 \<or> int (data32 c1) = 0 \<and> k1 = krn m"
    using r(2,3) z by (cases "r < 0") auto
  ultimately show ?thesis unfolding if_P [OF True] using r(2) by blast
next
  case False
  then show ?thesis by (simp add: gennum_iread_def py_bind_def dict_get_bar_cases)
qed

lemma iwrite_ends:
  "if b \<in> {0, 2, 4, 12}
   then \<exists>e k. gennum_iwrite env self b off w d m = (Inr (d mod 2 ^ 32), put_errno self e (m\<lparr>krn := k\<rparr>)) \<and> e \<le> 0
     \<and> (e = 0 \<or> k = krn m)
   else gennum_iwrite env self b off w d m = (Inl KeyError, m)"
proof (cases "b \<in> {0, 2, 4, 12}")
  case True
  from rr_iwrite_outcome [of env "self_fd self m" "RR_Iocmd (b * bar_span_int + off) w d" "krn m"] obtain r k1 where
    r: "rr_iwrite env (self_fd self m) (RR_Iocmd (b * bar_span_int + off) w d) (krn m)
      = (Inr r, RR_Iocmd (b * bar_span_int + off) w d, k1)" "r \<le> 0" "r < 0 \<longrightarrow> k1 = krn m" by blast
  have "gennum_iwrite env self b off w d m
      = (Inr (int (data32 (RR_Iocmd (b * bar_span_int + off) w d))), put_errno self r (m\<lparr>krn := k1\<rparr>))"
    using r(1) True by (simp add: gennum_iwrite_def py_bind_def py_seq_def dict_get_bar_cases on_kernel_ref_def)
  moreover have "int (data32 (RR_Iocmd a w d)) = d mod 2 ^ 32" for a by (simp add: data32_RR_Iocmd)
  moreover have "r = 0 \<or> k1 = krn m" using r(2,3) by (cases "r < 0") auto
  ultimately show ?thesis unfolding if_P [OF True] using r(2) by metis
next
  case False
  then show ?thesis by (simp add: gennum_iwrite_def py_bind_def dict_get_bar_cases)
qed

text \<open>C14: \<open>iread\<close> and \<open>iwrite\<close> for any bar, offset, width and datum. A bar that is not in the table raises \<open>KeyError\<close>
  and nothing changes. Otherwise the method returns: on success \<open>errno\<close> is 0; on a failure (unmapped BAR, address past
  its end, bad size or alignment, closed descriptor) \<open>errno\<close> is a negative error number and the kernel state is
  untouched. A failed \<open>iread\<close> returns 0; \<open>iwrite\<close> returns the low 32 bits of the datum whether or not it was written.\<close>

theorem access_outcome:
  "(if b \<in> {0, 2, 4, 12}
    then \<exists>v e k. gennum_iread env self b off w m = (Inr v, put_errno self e (m\<lparr>krn := k\<rparr>)) \<and> e \<le> 0
      \<and> (e = 0 \<or> v = 0 \<and> k = krn m)
    else gennum_iread env self b off w m = (Inl KeyError, m))
   \<and> (if b \<in> {0, 2, 4, 12}
    then \<exists>e k. gennum_iwrite env self b off w d m = (Inr (d mod 2 ^ 32), put_errno self e (m\<lparr>krn := k\<rparr>)) \<and> e \<le> 0
      \<and> (e = 0 \<or> k = krn m)
    else gennum_iwrite env self b off w d m = (Inl KeyError, m))"
  by (rule conjI) (rule iread_ends, rule iwrite_ends)

section \<open>Accesses reach the device as they should\<close>

lemma demo_bound: "bound_obj 0 demo" "mapped 4 0x1000 (krn demo)" "dma_good 8192 0 demo"
  by (simp_all add: bound_obj_def mapped_def dma_good_def self_fd_def list_all_iff demo_defs r_size_def)

text \<open>C15: a word read from a mapped BAR is one device read of that width, at that offset, of that BAR.
  The value returned keeps only the low 32 bits, so the documented width 8 loses the upper half.\<close>

theorem iread_device:
  assumes "bound_obj self m" "valid_bar b" "b \<noteq> 12" "off < bar_span" "mapped b lim (krn m)" "off < lim"
    and "access_size n" "off mod n = 0"
  shows "\<exists>v < 256 ^ n. gennum_iread env self (int b) (int off) (int n) m =
    (Inr (int (v mod 2 ^ 32)),
     put_errno self 0 (m\<lparr>krn := (krn m)\<lparr>mmio := mmio (krn m) @ [MemR (b div 2) off n v]\<rparr>\<rparr>))
    \<and> v = hw_mem env (mmio (krn m)) (b div 2) off n mod 256 ^ n"
  using iread_mem [OF assms, of env] by (intro exI [where x = "hw_mem env (mmio (krn m)) (b div 2) off n mod 256 ^ n"])
    (simp add: Let_def)

theorem iread_device_witness:
  "\<exists>v < 256 ^ 8. gennum_iread demo_env 0 4 8 8 demo = (Inr (int (v mod 2 ^ 32)),
     put_errno 0 0 (demo\<lparr>krn := (krn demo)\<lparr>mmio := mmio (krn demo) @ [MemR 2 8 8 v]\<rparr>\<rparr>))"
  using iread_device [OF demo_bound(1) _ _ _ demo_bound(2), of 8 8 demo_env]
  by (force simp: valid_bar_def access_size_def)

text \<open>A 32-bit write to a mapped BAR is one device write of the low 32 bits of the datum.\<close>

lemma iwrite_device:
  assumes "bound_obj self m" "valid_bar b" "b \<noteq> 12" "off < bar_span" "mapped b lim (krn m)" "off < lim"
    and "off mod 4 = 0"
  shows "gennum_iwrite env self (int b) (int off) 4 d m =
    (Inr (d mod 2 ^ 32),
     put_errno self 0 (m\<lparr>krn := (krn m)\<lparr>mmio := mmio (krn m) @ [MemW (b div 2) off 4 (nat (d mod 2 ^ 32))]\<rparr>\<rparr>))"
  by (rule iwrite_mem [OF assms])

text \<open>C16: the DMA buffer behaves as a store of words, through the ioctl methods and through the file
  methods alike: a block of writes to distinct aligned addresses raises nothing, every word
  written is the one read back, and no other word of the buffer changes.\<close>

theorem dma_block_store:
  assumes "dma_good N self m" "distinct (map fst ps)"
    and "\<And>a v. (a, v) \<in> set ps \<Longrightarrow> word_addr N a \<and> 0 \<le> v \<and> v < 2 ^ 32"
    and "st \<in> {gennum_iwrite env self, gennum_write env self}" "ld \<in> {gennum_iread env self, gennum_read env self}"
  shows "\<exists>t. py_block (map (\<lambda>(a, v). st 12 (int a) 4 v) ps) m = (Inr (), t)
     \<and> (\<forall>a v. (a, v) \<in> set ps \<longrightarrow> fst (ld 12 (int a) 4 t) = Inr v)
     \<and> (\<forall>b. word_addr N b \<longrightarrow> b \<notin> fst ` set ps \<longrightarrow> fst (ld 12 (int b) 4 t) = fst (ld 12 (int b) 4 m))"
proof -
  have "\<exists>t. py_block (map (\<lambda>(a, v). st 12 (int a) 4 v) ps) m = (Inr (), t) \<and> dma_good N self t
     \<and> (\<forall>(a, v) \<in> set ps. dma_word 4 t a = v)
     \<and> (\<forall>b. word_addr N b \<longrightarrow> b \<notin> fst ` set ps \<longrightarrow> dma_word 4 t b = dma_word 4 m b)"
    using assms(4) dma_ioctl.store_block [OF assms(1-3), of env] dma_file.store_block [OF assms(1-3), of env]
    by blast
  then obtain t where t: "py_block (map (\<lambda>(a, v). st 12 (int a) 4 v) ps) m = (Inr (), t)" "dma_good N self t"
    "\<forall>(a, v) \<in> set ps. dma_word 4 t a = v"
    "\<forall>b. word_addr N b \<longrightarrow> b \<notin> fst ` set ps \<longrightarrow> dma_word 4 t b = dma_word 4 m b"
    by blast
  have ld: "fst (ld 12 (int a) 4 u) = Inr (dma_word 4 u a)" if "dma_good N self u" "word_addr N a" for u a
    using assms(5) dma_ioctl.ld_law [OF that, of env] dma_file.ld_law [OF that, of env] by auto
  have "fst (ld 12 (int a) 4 t) = Inr v" if "(a, v) \<in> set ps" for a v
    using ld [OF t(2), of a] assms(3) [OF that] t(3) that by auto
  moreover have "fst (ld 12 (int b) 4 t) = fst (ld 12 (int b) 4 m)" if "word_addr N b" "b \<notin> fst ` set ps" for b
    using ld [OF t(2) that(1)] ld [OF assms(1) that(1)] t(4) that by auto
  ultimately show ?thesis using t(1) by blast
qed

theorem dma_block_store_witness:
  "\<exists>t. py_block (map (\<lambda>(a, v). gennum_iwrite demo_env 0 12 (int a) 4 v) [(0, 5), (8, 7)]) demo = (Inr (), t)
     \<and> fst (gennum_read demo_env 0 12 (int 8) 4 t) = Inr 7"
proof -
  define ps :: "(nat \<times> int) list" where "ps = [(0, 5), (8, 7)]"
  have ok: "word_addr 8192 a \<and> 0 \<le> v \<and> v < 2 ^ 32" if "(a, v) \<in> set ps" for a v
    using that by (auto simp: word_addr_def ps_def)
  have d: "distinct (map fst ps)" "(8, 7) \<in> set ps" by (simp_all add: ps_def)
  have "gennum_iwrite demo_env 0 \<in> {gennum_iwrite demo_env 0, gennum_write demo_env 0}"
    "gennum_read demo_env 0 \<in> {gennum_iread demo_env 0, gennum_read demo_env 0}" by simp_all
  from dma_block_store [OF demo_bound(3) d(1) ok this] d(2) show ?thesis
    unfolding ps_def [symmetric] by blast
qed

text \<open>The methods \<open>read\<close> and \<open>write\<close> leave the file position in \<open>errno\<close>, where the other methods
  keep zero or a negative error number: after a successful access to the DMA buffer it is the
  address of the access.\<close>

lemma read_write_errno:
  assumes "dma_good N self m" "access_size n" "off + n \<le> N" "0 \<le> d" "d < 256 ^ n"
  shows "(\<exists>v t. gennum_read env self 12 (int off) (int n) m = (Inr v, t)
       \<and> g_errno (objs t ! self) = int (12 * bar_span + off))
    \<and> (\<exists>t. gennum_write env self 12 (int off) (int n) d m = (Inr (int n), t)
       \<and> g_errno (objs t ! self) = int (12 * bar_span + off))"
proof -
  have l: "self < length (objs m)" using dma_goodD(7) [OF assms(1)] .
  have e: "g_errno (objs (seek_to self p (put_errno self x m)) ! self) = x"
    "g_errno (objs (seek_to self p (dma_store a bs (put_errno self x m))) ! self) = x" for p x a bs
    using l by (simp_all add: seek_to_def put_errno_def dma_store_def)
  show ?thesis
    using read_dma [OF assms(1-3), of env] write_dma [OF assms, of env] e by auto
qed

section \<open>Selecting and describing the device\<close>

text \<open>C17: \<open>parse_addr\<close> on every text: it accepts exactly the texts \<open>vendor:device[/subvendor:subdevice][@bus:devfn]\<close> of numbers
  of one to four hexadecimal digits (a line end may follow), and raises \<open>AttributeError\<close>, never \<open>ValueError\<close>, for all others.
  For an accepted text the vendor and the device are the two numbers, below 2^16, and the other four entries are 0xffff whatever the text
  gives for them: the optional parts of the address are checked and discarded.\<close>

theorem parse_addr_result:
  "(parse_addr s = Inr r \<longleftrightarrow>
     (\<exists>v d. addr_form s v d \<and> hex_value v < 2 ^ 16 \<and> hex_value d < 2 ^ 16
       \<and> r = [(''vendor'', VInt (int (hex_value v))), (''device'', VInt (int (hex_value d))),
          (''subvendor'', VInt 0xffff), (''subdevice'', VInt 0xffff), (''bus'', VInt 0xffff), (''devfn'', VInt 0xffff)]))
   \<and> (parse_addr s = Inl e \<longleftrightarrow> e = AttributeError \<and> (\<nexists>v d. addr_form s v d))"
proof (cases "re_match addr_reg s")
  case None
  with addr_form_match have "\<nexists>v d. addr_form s v d" by blast
  with None show ?thesis by (auto simp: parse_addr_nomatch)
next
  case (Some x)
  obtain j c where "x = (j, c)" by force
  with Some have "re_match addr_reg s = Some (j, c)" by simp
  from parse_addr_match [OF this] obtain v d where m: "addr_form s v d" "parse_addr s = Inr (addr_dict v d)" by blast
  have b: "hex_value v < 2 ^ 16" "hex_value d < 2 ^ 16"
    using m(1) hex_value_bound by (auto simp: addr_form_def)
  have u: "addr_form s x y \<longleftrightarrow> x = v \<and> y = d" for x y using m(1) addr_form_unique by blast
  show ?thesis unfolding u m(2) addr_dict_def using b by auto
qed

lemma bind_call:
  assumes "parse_addr s = Inr d" "RR_Devsel d = Inr ds"
  shows "gennum_bind env self s m = (case rr_devsel_call env (self_fd self m) ds (krn m) of
     (Inl e, k) \<Rightarrow> (Inl e, m\<lparr>krn := k\<rparr>) | (Inr r, k) \<Rightarrow> (Inr r, put_errno self r (m\<lparr>krn := k\<rparr>)))"
  using assms by (simp add: gennum_bind_def py_bind_def py_seq_def on_kernel_def split: prod.splits sum.splits)

lemma RR_Devsel_addr:
  "RR_Devsel (addr_dict v d) = Inr \<lparr>vendor = hex_value v mod 2 ^ 16, device = hex_value d mod 2 ^ 16,
     subvendor = 0xffff, subdevice = 0xffff, bus = 0xffff, devfn = 0xffff\<rparr>"
  by (simp add: RR_Devsel_def as_ushort_def addr_dict_def nat_mod_distrib)

text \<open>\<open>bind\<close> when another descriptor of the device is open: the driver answers EBUSY, the result
  and \<open>errno\<close> are -16 and nothing else changes. (The command interpreter opens the device twice,
  so its \<open>bind\<close> command always ends here.)\<close>

lemma bind_busy:
  assumes "re_match addr_reg s \<noteq> None" "fdtab (krn m) (self_fd self m) \<noteq> None" "1 < usecount (krn m)"
  shows "gennum_bind env self s m = (Inr (- 16), put_errno self (- 16) m)"
proof -
  from assms(1) obtain j e where "re_match addr_reg s = Some (j, e)" by (metis not_None_eq surj_pair)
  from parse_addr_match [OF this] obtain v d where p: "parse_addr s = Inr (addr_dict v d)" by blast
  show ?thesis
    using assms(2,3) unfolding bind_call [OF p RR_Devsel_addr]
    by (auto simp: rr_devsel_call_def sys_ioctl_def rr_ioctl_def ioctl_devsel_def errno_result_def user_errno_def)
qed

lemma set_attr_apply:
  "set_attr self a v m = (Inr (), m\<lparr>objs := (objs m)[self := (objs m ! self)\<lparr>g_attrs := (g_attrs (objs m ! self))(a \<mapsto> v)\<rparr>]\<rparr>)"
  by (simp add: set_attr_def)

text \<open>\<open>info\<close> on a bound device stores the six numbers as attributes and returns them as text; with
  no device bound it returns all zeroes and \<open>errno\<close> is the negated ENODEV.\<close>

lemma info_result:
  assumes "fdtab (krn m) (self_fd self m) \<noteq> None" "self < length (objs m)"
  shows "\<exists>t. gennum_info env self m = (Inr (info_string (case pdev (krn m) of None \<Rightarrow> RR_Devsel_0 | Some p \<Rightarrow> devsel_of_pdev p)), t)
     \<and> krn t = krn m
     \<and> g_errno (objs t ! self) = (case pdev (krn m) of None \<Rightarrow> - 19 | Some p \<Rightarrow> 0)
     \<and> g_attrs (objs t ! self) ''bus'' = Some (case pdev (krn m) of None \<Rightarrow> 0 | Some p \<Rightarrow> int (p_bus p))"
  using assms
  by (cases "pdev (krn m)")
    (auto simp: gennum_info_def py_bind_def py_seq_def on_kernel_ref_def rr_devget_call_def sys_ioctl_def rr_ioctl_def
      errno_result_def user_errno_def set_attr_apply devsel_fields_def put_errno_def devsel_of_pdev_def RR_Devsel_0_def)

text \<open>C18: \<open>getplist\<close> returns 256 numbers: for each page of the buffer its frame number as a signed
  32-bit integer, then zeroes; a buffer of more than 256 pages overruns the array the method
  passes to the driver.\<close>

theorem getplist_result:
  assumes "fdtab (krn m) (self_fd self m) \<noteq> None"
  shows "gennum_getplist env self m =
    ((if 256 * 4096 < bufsize (krn m) then Inl MemoryCorruption
      else Inr (map (\<lambda>i. as_c_int (pfn env i mod 2 ^ 32)) [0..<(bufsize (krn m) + 4095) div 4096]
             @ replicate (256 - (bufsize (krn m) + 4095) div 4096) 0)), m)"
proof -
  have "256 < (bufsize (krn m) + 4095) div 4096 \<longleftrightarrow> 256 * 4096 < bufsize (krn m)"
    by (simp add: less_eq_div_iff_mult_less_eq flip: Suc_le_eq)
  then show ?thesis
    using assms
    by (auto simp: gennum_getplist_def py_bind_def on_kernel_ref_def rr_getplist_def sys_ioctl_def rr_ioctl_def
        errno_result_def plist_store_def Plist_len_def ioctl_getplist_def plist_len_def RR_PLIST_SIZE_def comp_def add.commute)
qed

theorem getplist_result_witness:
  "gennum_getplist demo_env 0 demo = (Inr ([0x1000, 0x1001] @ replicate 254 0), demo)"
proof -
  have "[0..<2 :: nat] = [0, 1]" by (simp add: upt_rec)
  moreover have "as_c_int 0x1000 = 0x1000" "as_c_int 0x1001 = 0x1001" by (simp_all add: as_c_int_def signed_take_bit_int_eq_self)
  ultimately show ?thesis
    using getplist_result [of demo 0 demo_env] by (simp add: demo_defs self_fd_def demo_env_def)
qed

section \<open>Safety of the driver\<close>

definition access_ok :: "kernel \<Rightarrow> mmio \<Rightarrow> bool" where
  "access_ok k e = (case e of
     MemR b off n v \<Rightarrow> (\<exists>r. area k b = Some r \<and> r_mem r \<and> off < r_size r) \<and> access_size n \<and> off mod n = 0
   | MemW b off n v \<Rightarrow> (\<exists>r. area k b = Some r \<and> r_mem r \<and> off < r_size r) \<and> access_size n \<and> off mod n = 0
   | PioR p n v \<Rightarrow> (\<exists>b r. area k b = Some r \<and> r_io r \<and> r_start r \<le> p) \<and> access_size n
   | PioW p n v \<Rightarrow> (\<exists>b r. area k b = Some r \<and> r_io r \<and> r_start r \<le> p) \<and> access_size n
   | _ \<Rightarrow> False)"

lemma io_accesses_ok:
  assumes "area k b = Some r" "r_io r"
  shows "\<exists>es. mmio (snd (snd (rr_do_read_io env r c k))) = mmio k @ es \<and> list_all (access_ok k) es"
    and "\<exists>es. mmio (snd (snd (rr_do_write_io r c k))) = mmio k @ es \<and> list_all (access_ok k) es"
proof -
  have ok: "\<exists>b r. area k b = Some r \<and> r_io r \<and> r_start r \<le> p" if "r_start r \<le> p" for p
    using assms that by blast
  show "\<exists>es. mmio (snd (snd (rr_do_read_io env r c k))) = mmio k @ es \<and> list_all (access_ok k) es"
    and "\<exists>es. mmio (snd (snd (rr_do_write_io r c k))) = mmio k @ es \<and> list_all (access_ok k) es"
    using ok size_check_0_iff [of "datasize c" "RR_GET_OFF (address c)"]
    by (simp_all add: rr_do_read_io_def rr_do_write_io_def Let_def access_ok_def access_size_def)
qed

lemma mem_accesses_ok:
  assumes "area k (RR_GET_BAR (address c) div 2) = Some r" "r_mem r"
  shows "\<exists>es. mmio (snd (snd (rr_do_read_mem env r c k))) = mmio k @ es \<and> list_all (access_ok k) es"
    and "\<exists>es. mmio (snd (snd (rr_do_write_mem r c k))) = mmio k @ es \<and> list_all (access_ok k) es"
  using assms size_check_0_iff [of "datasize c" "RR_GET_OFF (address c)"]
  by (simp_all add: rr_do_read_mem_def rr_do_write_mem_def Let_def access_ok_def)


end
