(* ===== verification/Driver_Irq.thy ===== *)
theory Driver_Irq
  imports Gennum Demo
begin

text \<open>
  The interrupt line of the driver as a step relation: the interrupt handler, the two interrupt
  ioctls and the accesses that leave the line alone, in any order. The lemmas give the invariant
  that ties the driver's flag to the disable depth of the line, the count of handled interrupts,
  what the shared bit of \<open>RR_FLAG_IRQREQUEST\<close> and \<open>RR_FLAG_IRQDISABLE\<close> does when a device is probed
  and removed, and that a program alternating \<open>irqena\<close> and \<open>irqwait\<close> gets every interrupt.
\<close>

section \<open>Steps\<close>

text \<open>The driver believes the line disabled.\<close>

abbreviation irq_off :: "kernel \<Rightarrow> bool" where
  "irq_off k \<equiv> has_flag RR_FLAG_IRQDISABLE k"

text \<open>An event carries what the call returned; an \<open>irqena\<close> is refused when the driver believes the
  line enabled already.\<close>

datatype irq_event = Handled | Waited "exn + int" | Enabled int | Refused int | Accessed

inductive irq_step :: "kenv \<Rightarrow> kernel \<Rightarrow> irq_event \<Rightarrow> kernel \<Rightarrow> bool" for env where
  handle: "irq_deliverable k \<Longrightarrow> irq_step env k Handled (rr_interrupt env k)"
| wait: "ioctl_irqwait env k = (r, k1) \<Longrightarrow> irq_step env k (Waited r) k1"
| enable: "irq_off k \<Longrightarrow> ioctl_irqena env k = (r, k1) \<Longrightarrow> irq_step env k (Enabled r) k1"
| refuse: "\<not> irq_off k \<Longrightarrow> ioctl_irqena env k = (r, k1) \<Longrightarrow> irq_step env k (Refused r) k1"
| iocmd: "rr_do_iocmd env wr c k = (r, c1, k1) \<Longrightarrow> irq_step env k Accessed k1"
| file_read: "rr_read env pos n k = (r, bs, k1) \<Longrightarrow> irq_step env k Accessed k1"
| file_write: "rr_write pos bs k = (r, k1) \<Longrightarrow> irq_step env k Accessed k1"

inductive irq_run :: "kenv \<Rightarrow> kernel \<Rightarrow> irq_event list \<Rightarrow> kernel \<Rightarrow> bool" for env where
  stop: "irq_run env k [] k"
| step: "irq_step env k e k1 \<Longrightarrow> irq_run env k1 es k2 \<Longrightarrow> irq_run env k (e # es) k2"

inductive_cases irq_HandledE: "irq_step env k Handled k1"
inductive_cases irq_WaitedE: "irq_step env k (Waited r) k1"
inductive_cases irq_EnabledE: "irq_step env k (Enabled r) k1"
inductive_cases irq_RefusedE: "irq_step env k (Refused r) k1"
inductive_cases irq_AccessedE: "irq_step env k Accessed k1"

inductive_simps irq_run_Nil: "irq_run env k [] k1"
inductive_simps irq_run_Cons: "irq_run env k (e # es) k1"

section \<open>The interrupt part of the state\<close>

definition irq_view :: "kernel \<Rightarrow> nat \<times> nat \<times> nat \<times> bool \<times> bool" where
  "irq_view k = (flags k, irq_depth k, irqcount k, irq_held k, irq_unbalanced k)"

lemma irq_view_eqD:
  assumes "irq_view k1 = irq_view k"
  shows "flags k1 = flags k" "irq_depth k1 = irq_depth k" "irqcount k1 = irqcount k"
    "irq_held k1 = irq_held k" "irq_unbalanced k1 = irq_unbalanced k" "has_flag f k1 = has_flag f k"
  using assms by (simp_all add: irq_view_def has_flag_def)

lemma and_2: "n AND 2 = 2 * (n div 2 mod 2)" for n :: nat
  by (subst and_rec) (simp add: and_one_eq)

lemma and_2_or_2: "(n OR 2) AND 2 = (2 :: nat)"
  by (rule bit_eqI) (simp only: bit_and_iff bit_or_iff, blast)

lemma and_2_minus: "(n - (n AND 2)) AND 2 = (0 :: nat)"
proof (cases "odd (n div 2)")
  case True
  then have "n AND 2 = 2" by (simp add: and_2 mod_2_eq_odd)
  moreover have "odd (n div 2) \<Longrightarrow> even ((n - 2) div 2)" by presburger
  ultimately show ?thesis using True by (simp add: and_2 [of "n - 2"] mod_2_eq_odd)
next
  case False
  then show ?thesis by (simp add: and_2 mod_2_eq_odd)
qed

lemma flag_set [simp]: "irq_off (set_flag RR_FLAG_IRQDISABLE k)" "irq_off (set_flag RR_FLAG_IRQREQUEST k)"
  by (simp_all add: has_flag_def set_flag_def RR_FLAG_IRQDISABLE_def RR_FLAG_IRQREQUEST_def and_2_or_2)

lemma flag_cleared [simp]: "\<not> irq_off (clear_flag RR_FLAG_IRQDISABLE k)" "\<not> irq_off (clear_flag RR_FLAG_IRQREQUEST k)"
  by (simp_all add: has_flag_def clear_flag_def RR_FLAG_IRQDISABLE_def RR_FLAG_IRQREQUEST_def and_2_minus)

lemma off_iff: "has_flag RR_FLAG_IRQREQUEST k \<longleftrightarrow> irq_off k"
  by (simp add: RR_FLAG_IRQDISABLE_def RR_FLAG_IRQREQUEST_def)

lemma irq_off_update [simp]:
  "has_flag f (k\<lparr>irq_depth := d\<rparr>) = has_flag f k" "has_flag f (k\<lparr>irq_unbalanced := b\<rparr>) = has_flag f k"
  "has_flag f (k\<lparr>irqtime := t, irqcount := n\<rparr>) = has_flag f k" "has_flag f (k\<lparr>pdev := p\<rparr>) = has_flag f k"
  "has_flag f (k\<lparr>irq_held := b\<rparr>) = has_flag f k" "has_flag f (k\<lparr>completed := b\<rparr>) = has_flag f k"
  by (simp_all add: has_flag_def)

section \<open>What each call does to the line\<close>

lemma rr_do_iocmd_view: "rr_do_iocmd env wr c k = (r, c1, k1) \<Longrightarrow> irq_view k1 = irq_view k"
  by (auto simp: rr_do_iocmd_def rr_do_iocmd_dmabuf_def rr_do_read_mem_def rr_do_write_mem_def
      rr_do_read_io_def rr_do_write_io_def irq_view_def Let_def split: if_splits option.splits)

lemma rr_read_view: "rr_read env pos n k = (r, bs, k1) \<Longrightarrow> irq_view k1 = irq_view k"
  by (auto simp: rr_read_def irq_view_def Let_def split: if_splits option.splits)

lemma rr_write_view: "rr_write pos bs k = (r, k1) \<Longrightarrow> irq_view k1 = irq_view k"
  by (auto simp: rr_write_def irq_view_def Let_def split: if_splits option.splits)

lemma rr_interrupt_line:
  "irq_off (rr_interrupt env k)" "irq_depth (rr_interrupt env k) = irq_depth k + 1"
  "irqcount (rr_interrupt env k) = irqcount k + 1" "irq_held (rr_interrupt env k) = irq_held k"
  "irq_unbalanced (rr_interrupt env k) = irq_unbalanced k" "fdtab (rr_interrupt env k) = fdtab k"
  by (simp_all add: rr_interrupt_def disable_irq_nosync_def) (simp_all add: set_flag_def)

text \<open>Enabling: the driver's flag goes off and the depth falls by one, unless it was zero.\<close>

lemma irqena_line:
  assumes "irq_off k"
  shows "\<exists>r. ioctl_irqena env k = (r, enable_irq (clear_flag RR_FLAG_IRQDISABLE k))"
  using assms by (simp add: ioctl_irqena_def Let_def split: prod.split)

lemma irqena_refused: "\<not> irq_off k \<Longrightarrow> ioctl_irqena env k = (- EAGAIN, k)"
  by (simp add: ioctl_irqena_def Let_def split: prod.split)

lemma enabled_line:
  fixes k :: kernel
  defines "t \<equiv> enable_irq (clear_flag RR_FLAG_IRQDISABLE k)"
  shows "\<not> irq_off t" "irq_depth t = irq_depth k - 1" "irqcount t = irqcount k" "irq_held t = irq_held k"
    "irq_unbalanced t \<longleftrightarrow> irq_unbalanced k \<or> irq_depth k = 0" "fdtab t = fdtab k" "mmio t = mmio k"
  unfolding t_def by (simp_all add: enable_irq_def) (simp_all add: clear_flag_def)

lemma irqwait_line:
  "ioctl_irqwait env k = (r, k1) \<Longrightarrow>
    (r = Inr 0 \<and> \<not> irq_off k \<and> irq_deliverable k \<and> k1 = rr_interrupt env k) \<or> (r \<noteq> Inr 0 \<and> k1 = k)"
  by (auto simp: ioctl_irqwait_def split: if_splits wait_outcome.splits)

section \<open>The invariant\<close>

text \<open>A handler is installed, and the disable depth of the line is what the flag says.\<close>

definition balanced :: "kernel \<Rightarrow> bool" where
  "balanced k \<longleftrightarrow> irq_held k \<and> irq_depth k = of_bool (irq_off k)"

text \<open>Interrupts handled and lines enabled by an event.\<close>

fun handled :: "irq_event \<Rightarrow> nat" where
  "handled Handled = 1"
| "handled (Waited r) = of_bool (r = Inr 0)"
| "handled _ = 0"

fun enabled :: "irq_event \<Rightarrow> nat" where
  "enabled (Enabled r) = 1"
| "enabled _ = 0"

lemma untouched_line:
  assumes "irq_view k1 = irq_view k" "balanced k"
  shows "balanced k1" "irq_unbalanced k1 = irq_unbalanced k" "irqcount k1 = irqcount k" "irq_off k1 = irq_off k"
  using assms by (simp_all add: balanced_def irq_view_def has_flag_def)

lemma balanced_interrupt: "balanced k \<Longrightarrow> irq_deliverable k \<Longrightarrow> balanced (rr_interrupt env k) \<and> \<not> irq_off k"
  by (simp add: balanced_def rr_interrupt_line irq_deliverable_def)

lemma balanced_enabled:
  "balanced k \<Longrightarrow> irq_off k \<Longrightarrow> balanced (enable_irq (clear_flag RR_FLAG_IRQDISABLE k)) \<and> irq_depth k = 1"
  by (simp add: balanced_def enabled_line)

lemma step_line:
  assumes "irq_step env k e k1" "balanced k"
  shows "balanced k1 \<and> irq_unbalanced k1 = irq_unbalanced k \<and> irqcount k1 = irqcount k + handled e
    \<and> handled e + of_bool (irq_off k) = enabled e + (of_bool (irq_off k1) :: nat)"
  using assms
proof cases
  case handle
  with assms(2) balanced_interrupt [of k env] show ?thesis by (simp add: rr_interrupt_line)
next
  case (wait r)
  with assms(2) irqwait_line [OF wait(2)] balanced_interrupt [of k env] show ?thesis
    by (auto simp: rr_interrupt_line)
next
  case (enable r)
  with irqena_line [of k env] have "k1 = enable_irq (clear_flag RR_FLAG_IRQDISABLE k)" by auto
  with enable assms(2) balanced_enabled [of k] show ?thesis by (simp add: enabled_line)
next
  case (refuse r)
  with irqena_refused [of k env] assms(2) show ?thesis by simp
next
  case (iocmd wr c r c1)
  from untouched_line [OF rr_do_iocmd_view [OF iocmd(2)] assms(2)] iocmd(1) show ?thesis by simp
next
  case (file_read pos n r bs)
  from untouched_line [OF rr_read_view [OF file_read(2)] assms(2)] file_read(1) show ?thesis by simp
next
  case (file_write pos bs r)
  from untouched_line [OF rr_write_view [OF file_write(2)] assms(2)] file_write(1) show ?thesis by simp
qed

lemma run_line:
  assumes "irq_run env k es k1" "balanced k"
  shows "balanced k1 \<and> irq_unbalanced k1 = irq_unbalanced k \<and> irqcount k1 = irqcount k + sum_list (map handled es)
    \<and> sum_list (map handled es) + of_bool (irq_off k) = sum_list (map enabled es) + (of_bool (irq_off k1) :: nat)"
  using assms
proof (induction rule: irq_run.induct)
  case (stop k)
  then show ?case by simp
next
  case (step k e k1 es k2)
  from step_line [OF step.hyps(1) step.prems] step.IH show ?case by simp
qed

section \<open>Probing and removing\<close>

lemma rr_record_bar_view: "irq_view (rr_record_bar p i k) = irq_view k"
  by (simp add: rr_record_bar_def irq_view_def Let_def)

lemma rr_pciprobe_line:
  assumes "rr_pciprobe env p k = (0, k1)" "0 < p_irq p" "0 \<le> irq_request env p" "0 \<le> pci_enable env p"
  shows "irq_off k1 \<and> irq_held k1 \<and> irq_depth k1 = irq_depth k \<and> irq_unbalanced k1 = irq_unbalanced k"
proof -
  let ?k2 = "(rr_probe_irq env p (k\<lparr>pdev := Some p\<rparr>))\<lparr>completed := True\<rparr>"
  have "k1 = rr_record_bar p 2 (rr_record_bar p 1 (rr_record_bar p 0 ?k2))"
    using assms(1,4) by (auto simp: rr_pciprobe_def Let_def split: if_splits)
  then have v: "irq_view k1 = irq_view ?k2" by (simp add: rr_record_bar_view)
  have "irq_off ?k2" "irq_held ?k2 \<and> irq_depth ?k2 = irq_depth k \<and> irq_unbalanced ?k2 = irq_unbalanced k"
    using assms(2,3) by (simp_all add: rr_probe_irq_def) (simp add: set_flag_def)
  with irq_view_eqD [OF v] show ?thesis by metis
qed

lemma rr_pciremove_line: "irq_held (rr_pciremove k) \<longleftrightarrow> irq_held k \<and> \<not> irq_off k"
proof -
  have h: "irq_held (clear_flag f t) = irq_held t" "irq_held (enable_irq t) = irq_held t" for f t
    by (simp_all add: clear_flag_def enable_irq_def)
  show ?thesis unfolding rr_pciremove_def Let_def off_iff by (simp add: h)
qed

section \<open>Properties\<close>


text \<open>The demonstration board with the handler installed and the line enabled.\<close>

definition demo_line :: kernel where
  "demo_line = demo_kernel\<lparr>irq_held := True\<rparr>"

lemma demo_line: "irq_held demo_line" "irq_depth demo_line = of_bool (irq_off demo_line)"
proof -
  have "\<not> irq_off demo_line"
    by (simp add: has_flag_def demo_line_def demo_kernel_def RR_FLAG_IRQDISABLE_def and_2)
  then show "irq_held demo_line" "irq_depth demo_line = of_bool (irq_off demo_line)"
    by (simp_all add: demo_line_def demo_kernel_def)
qed


text \<open>C23: a device whose interrupt was requested at probe time starts out of step, because
  \<open>RR_FLAG_IRQREQUEST\<close> and \<open>RR_FLAG_IRQDISABLE\<close> are the same bit: the line is enabled but the driver
  believes it disabled, so \<open>irqwait\<close> reports -EAGAIN, an interrupt that already happened, without
  waiting; the first \<open>irqena\<close> is accepted, enables a line that is not disabled, and from then on the
  invariant holds.\<close>

theorem probe_irq_flag_clash:
  assumes "rr_pciprobe env p k = (0, k1)" "0 < p_irq p" "0 \<le> irq_request env p" "0 \<le> pci_enable env p" "irq_depth k = 0"
  shows "irq_deliverable k1 \<and> ioctl_irqwait env k1 = (Inr (- 11), k1)
    \<and> (\<exists>r k2. ioctl_irqena env k1 = (r, k2) \<and> irq_unbalanced k2 \<and> irq_depth k2 = 0 \<and> \<not> irq_off k2 \<and> irq_held k2)"
proof -
  from rr_pciprobe_line [OF assms(1-4)] assms(5) have k1: "irq_off k1" "irq_held k1" "irq_depth k1 = 0" by auto
  from irqena_line [OF k1(1)] obtain r where "ioctl_irqena env k1 = (r, enable_irq (clear_flag RR_FLAG_IRQDISABLE k1))"
    by blast
  with k1 show ?thesis by (simp add: irq_deliverable_def ioctl_irqwait_def enabled_line)
qed

theorem probe_irq_flag_clash_witness:
  "irq_unbalanced (snd (ioctl_irqena demo_env (snd (rr_pciprobe demo_env demo_pdev (demo_kernel\<lparr>pdev := None\<rparr>)))))"
proof -
  have "fst (rr_pciprobe demo_env demo_pdev (demo_kernel\<lparr>pdev := None\<rparr>)) = 0"
    by (simp add: rr_pciprobe_def demo_kernel_def demo_env_def RR_DEVSEL_UNUSED_def Let_def)
  then have "rr_pciprobe demo_env demo_pdev (demo_kernel\<lparr>pdev := None\<rparr>)
    = (0, snd (rr_pciprobe demo_env demo_pdev (demo_kernel\<lparr>pdev := None\<rparr>)))" by (simp add: prod_eq_iff)
  from probe_irq_flag_clash [OF this] show ?thesis
    by (auto simp: demo_pdev_def demo_env_def demo_kernel_def)
qed

text \<open>Removing the device (binding another one does it) frees the interrupt handler only when the
  line happens to be disabled: the flag tested is the one \<open>irqena\<close> clears. With the line enabled the
  handler stays installed on a device that is gone.\<close>

lemma remove_keeps_handler:
  "irq_held (rr_pciremove k) = (irq_held k \<and> \<not> irq_off k) \<and> pdev (rr_pciremove k) = None"
  by (simp add: rr_pciremove_line) (simp add: rr_pciremove_def Let_def)

section \<open>A program that waits for interrupts\<close>

text \<open>One round of such a program: re-enable the interrupt, wait for the next one.\<close>

definition irq_round :: "kenv \<Rightarrow> nat \<Rightarrow> (machine, int) py" where
  "irq_round env self = py_seq (gennum_irqena env self) (gennum_irqwait env self)"

text \<open>The state between rounds: an interrupt was handled and not yet acknowledged.\<close>

definition pending :: "nat \<Rightarrow> machine \<Rightarrow> bool" where
  "pending self m \<longleftrightarrow> fdtab (krn m) (self_fd self m) \<noteq> None \<and> irq_held (krn m)
     \<and> irq_off (krn m) \<and> irq_depth (krn m) \<le> 1"

lemma irq_calls:
  assumes "fdtab (krn m) (self_fd self m) \<noteq> None"
  shows "\<exists>v. gennum_irqena env self m = (Inr v, m\<lparr>krn := snd (ioctl_irqena env (krn m))\<rparr>)"
    and "ioctl_irqwait env (krn m) = (Inr 0, k) \<Longrightarrow> gennum_irqwait env self m = (Inr 0, m\<lparr>krn := k\<rparr>)"
  using assms
  by (auto simp: gennum_irqena_def gennum_irqwait_def py_bind_def on_kernel_def rr_irqena_def rr_irqwait_def
      sys_ioctl_def rr_ioctl_def errno_result_def split: prod.splits)

lemma irq_round_pending:
  assumes "pending self m" "\<And>h. irq_wait env h = Wait_Irq"
  shows "\<exists>t. irq_round env self m = (Inr 0, t) \<and> pending self t \<and> irqcount (krn t) = irqcount (krn m) + 1
    \<and> mmio (krn t) = mmio (krn m)"
proof -
  let ?k1 = "enable_irq (clear_flag RR_FLAG_IRQDISABLE (krn m))"
  from assms(1) have p: "fdtab (krn m) (self_fd self m) \<noteq> None" "irq_held (krn m)" "irq_off (krn m)" "irq_depth (krn m) \<le> 1"
    by (auto simp: pending_def)
  from irqena_line [OF p(3)] have "snd (ioctl_irqena env (krn m)) = ?k1" by (metis snd_conv)
  with irq_calls(1) [OF p(1), of env] obtain v where e: "gennum_irqena env self m = (Inr v, m\<lparr>krn := ?k1\<rparr>)" by auto
  have "irq_deliverable ?k1" using p by (simp add: irq_deliverable_def enabled_line)
  then have "ioctl_irqwait env ?k1 = (Inr 0, rr_interrupt env ?k1)"
    using assms(2) by (simp add: ioctl_irqwait_def enabled_line)
  then have w: "gennum_irqwait env self (m\<lparr>krn := ?k1\<rparr>) = (Inr 0, m\<lparr>krn := rr_interrupt env ?k1\<rparr>)"
    using irq_calls(2) [of "m\<lparr>krn := ?k1\<rparr>" self env] p(1) by (simp add: enabled_line self_fd_def)
  have "mmio (rr_interrupt env ?k1) = mmio (krn m)"
    by (simp add: rr_interrupt_def disable_irq_nosync_def set_flag_def enabled_line)
  with e w p show ?thesis
    by (simp add: irq_round_def py_seq_Inr pending_def rr_interrupt_line enabled_line self_fd_def)
qed



end
