(* ===== verification/Rrcmd.thy ===== *)
theory Rrcmd
  imports Program
begin

text \<open>
  The command interpreter sw/gnurabbit/python/rrcmd.py: one definition per command, the dispatch and
  the loop of the class it inherits from (the standard module cmd), and the program. A command
  returns whether the loop is to stop. What the inherited \<open>help\<close> command prints is a parameter,
  \<open>help\<close>. A print statement evaluates and prints its items one by one.
\<close>

section \<open>The commands\<close>

definition print_bound :: "kenv \<Rightarrow> nat \<Rightarrow> (machine, unit) py" where
  "print_bound env gennum =
     py_seq (print_con_comma ''bound to '') (py_bind (gennum_info env gennum) print_con)"

definition do_info :: "kenv \<Rightarrow> nat \<Rightarrow> string \<Rightarrow> (machine, unit) py" where
  "do_info env gennum args = print_bound env gennum"

definition do_bind :: "kenv \<Rightarrow> nat \<Rightarrow> string \<Rightarrow> (machine, unit) py" where
  "do_bind env gennum args = py_seq (gennum_bind env gennum args) (print_bound env gennum)"

definition do_irqwait :: "kenv \<Rightarrow> nat \<Rightarrow> string \<Rightarrow> (machine, unit) py" where
  "do_irqwait env gennum args = py_seq (gennum_irqwait env gennum) (py_ret ())"

definition do_irqena :: "kenv \<Rightarrow> nat \<Rightarrow> string \<Rightarrow> (machine, unit) py" where
  "do_irqena env gennum args = py_seq (gennum_irqena env gennum) (py_ret ())"

text \<open>The conversions of the \<open>try\<close> blocks, left to right.\<close>

definition and_then :: "exn + 'a \<Rightarrow> ('a \<Rightarrow> exn + 'b) \<Rightarrow> exn + 'b" where
  "and_then r f = (case r of Inl e \<Rightarrow> Inl e | Inr v \<Rightarrow> f v)"

definition read_args :: "string \<Rightarrow> exn + int \<times> int \<times> int" where
  "read_args args =
     (case py_split args of
        [sz, bar, offset] \<Rightarrow>
          and_then (py_int 10 sz) (\<lambda>sz. and_then (py_int 10 bar) (\<lambda>bar.
          and_then (py_int 16 offset) (\<lambda>offset. Inr (sz, bar, offset))))
      | _ \<Rightarrow> Inl ValueError)"

definition write_args :: "string \<Rightarrow> exn + int \<times> int \<times> int \<times> int" where
  "write_args args =
     (case py_split args of
        [sz, bar, offset, datum] \<Rightarrow>
          and_then (py_int 10 sz) (\<lambda>sz. and_then (py_int 10 bar) (\<lambda>bar.
          and_then (py_int 16 offset) (\<lambda>offset. and_then (py_int 16 datum) (\<lambda>datum.
          Inr (sz, bar, offset, datum)))))
      | _ \<Rightarrow> Inl ValueError)"

definition do_read :: "kenv \<Rightarrow> nat \<Rightarrow> string \<Rightarrow> (machine, unit) py" where
  "do_read env gennum args =
     (case read_args args of
        Inl e \<Rightarrow> if e = ValueError then print_con ''syntax: read size bar address'' else py_raise e
      | Inr (sz, bar, offset) \<Rightarrow>
          py_bind (gennum_read env gennum bar offset sz) (\<lambda>v. print_con (py_hex v)))"

definition do_write :: "kenv \<Rightarrow> nat \<Rightarrow> string \<Rightarrow> (machine, unit) py" where
  "do_write env gennum args =
     (case write_args args of
        Inl e \<Rightarrow> if e = ValueError then print_con ''syntax: write size bar address datum'' else py_raise e
      | Inr (sz, bar, offset, datum) \<Rightarrow>
          py_seq (gennum_write env gennum bar offset sz datum) (py_ret ()))"

definition do_getdmasize :: "kenv \<Rightarrow> nat \<Rightarrow> string \<Rightarrow> (machine, unit) py" where
  "do_getdmasize env gennum args = py_bind (gennum_getdmasize env gennum) (\<lambda>v. print_con (py_hex v))"

text \<open>The loop of \<open>do_getplist\<close>: eight frames to a line, after the index of the first. The loop
  variable is undefined after an empty loop.\<close>

definition plist_item :: "nat \<Rightarrow> int \<Rightarrow> (machine, unit) py" where
  "plist_item i addr =
     py_seq (if i mod 8 = 0 then print_con_comma (fmt_hexw 8 (int i) @ '' '') else py_ret ())
    (py_seq (print_con_comma (fmt_hexw 8 (push_bit 12 addr) @ '' ''))
            (if i mod 8 = 8 - 1 then print_con_nl else py_ret ()))"

definition do_getplist :: "kenv \<Rightarrow> nat \<Rightarrow> string \<Rightarrow> (machine, unit) py" where
  "do_getplist env gennum args =
     py_bind (gennum_getplist env gennum) (\<lambda>plist.
     py_seq (py_block (map (\<lambda>(i, addr). plist_item i addr) (enumerate 0 plist)))
            (if plist = [] then py_raise NameError
             else if (length plist - 1) mod 8 \<noteq> 8 - 1 then print_con_nl else py_ret ()))"

section \<open>The command loop\<close>

text \<open>A line is stripped; \<open>?\<close> stands for \<open>help\<close>, \<open>!\<close> would run a shell command; otherwise the leading
  identifier is the command and the rest its argument.\<close>

definition is_ident :: "char \<Rightarrow> bool" where
  "is_ident c = (digit_val c \<noteq> None \<or> c = CHR ''_'')"

definition full_line :: "string \<Rightarrow> string" where
  "full_line l = (if take 1 l = ''?'' then ''help '' @ drop 1 l else l)"

definition parseline :: "string \<Rightarrow> (string \<times> string) option" where
  "parseline l =
     (if take 1 l = ''!'' then None
      else Some (takeWhile is_ident (full_line l), py_strip (dropWhile is_ident (full_line l))))"

definition no_command :: "string \<Rightarrow> (machine, unit) py" where
  "no_command l = write_con (''*** Unknown syntax: '' @ l @ [newline])"

definition emptyline :: "(machine, unit) py" where
  "emptyline = py_ret ()"

definition do_EOF :: "string \<Rightarrow> (machine, bool) py" where
  "do_EOF args = py_ret True"

text \<open>The commands by name; \<open>None\<close> where the class has no such method.\<close>

definition go_on :: "(machine, unit) py \<Rightarrow> (machine, bool) py" where
  "go_on m = py_seq m (py_ret False)"

definition command :: "kenv \<Rightarrow> (string \<Rightarrow> string) \<Rightarrow> nat \<Rightarrow> string \<Rightarrow> (string \<Rightarrow> (machine, bool) py) option" where
  "command env help gennum c =
     (if c = ''info'' then Some (\<lambda>a. go_on (do_info env gennum a))
      else if c = ''bind'' then Some (\<lambda>a. go_on (do_bind env gennum a))
      else if c = ''irqwait'' then Some (\<lambda>a. go_on (do_irqwait env gennum a))
      else if c = ''read'' then Some (\<lambda>a. go_on (do_read env gennum a))
      else if c = ''write'' then Some (\<lambda>a. go_on (do_write env gennum a))
      else if c = ''irqena'' then Some (\<lambda>a. go_on (do_irqena env gennum a))
      else if c = ''getdmasize'' then Some (\<lambda>a. go_on (do_getdmasize env gennum a))
      else if c = ''getplist'' then Some (\<lambda>a. go_on (do_getplist env gennum a))
      else if c = ''help'' then Some (\<lambda>a. go_on (write_con (help a)))
      else if c \<in> {''EOF'', ''quit'', ''exit''} then Some do_EOF
      else None)"

definition onecmd :: "kenv \<Rightarrow> (string \<Rightarrow> string) \<Rightarrow> nat \<Rightarrow> string \<Rightarrow> (machine, bool) py" where
  "onecmd env help gennum line =
     (let l = py_strip line
      in if l = [] then go_on emptyline
         else case parseline l of
             None \<Rightarrow> go_on (no_command l)
           | Some (c, arg) \<Rightarrow>
               (case command env help gennum c of
                  None \<Rightarrow> go_on (no_command (full_line l))
                | Some f \<Rightarrow> f arg))"

text \<open>\<open>cmdloop\<close>: the end of the input is the command \<open>EOF\<close>.\<close>

definition next_line :: "(machine, string) py" where
  "next_line m =
     (case on_con (raw_input ''rr> '') m of
        (Inl EOFError, t) \<Rightarrow> (Inr ''EOF'', t)
      | r \<Rightarrow> r)"

definition cmd_turn :: "kenv \<Rightarrow> (string \<Rightarrow> string) \<Rightarrow> nat \<Rightarrow> (machine, bool) py" where
  "cmd_turn env help gennum = py_bind next_line (onecmd env help gennum)"

partial_function (option) cmd_loop ::
    "kenv \<Rightarrow> (string \<Rightarrow> string) \<Rightarrow> nat \<Rightarrow> machine \<Rightarrow> ((exn + unit) \<times> machine) option" where
  "cmd_loop env help gennum m =
     (case cmd_turn env help gennum m of
        (Inl e, t) \<Rightarrow> Some (Inl e, t)
      | (Inr stop, t) \<Rightarrow> if stop then Some (Inr (), t) else cmd_loop env help gennum t)"

section \<open>The program\<close>

definition preloop :: "kenv \<Rightarrow> (machine, nat) py" where
  "preloop env =
     py_seq (print_con ''Initializing...'')
       (py_bind gennum_init (\<lambda>gennum. py_seq (do_info env gennum []) (py_ret gennum)))"

text \<open>The program opens a first \<open>Gennum\<close> object, which it never uses, before the interpreter opens
  its own.\<close>

definition rrcmd :: "kenv \<Rightarrow> (string \<Rightarrow> string) \<Rightarrow> machine \<Rightarrow> ((exn + unit) \<times> machine) option" where
  "rrcmd env help m =
     (case py_seq gennum_init (preloop env) m of
        (Inl e, t) \<Rightarrow> Some (Inl e, t)
      | (Inr gennum, t) \<Rightarrow> cmd_loop env help gennum t)"

end
