(* ===== verification/Rrcmd_Props.thy ===== *)
theory Rrcmd_Props
  imports Rrcmd Gennum_Ports Gennum_Addr Demo
begin

text \<open>
  The properties of the command interpreter: it ends for every input, it never changes the device
  the driver is bound to (the program holds two descriptors, and the driver refuses to rebind while
  more than one is open), what a line with a number too many prints, what is written by one command is read
  back by the next, and the table of frames is complete.
\<close>

section \<open>The device stays bound\<close>

text \<open>Which device the driver is bound to, and what it was asked for.\<close>

definition binding :: "kernel \<Rightarrow> pci_dev option \<times> rr_devsel \<times> pci_id" where
  "binding k = (pdev k, devsel k, id_table k)"

definition still_bound :: "machine \<Rightarrow> machine \<Rightarrow> bool" where
  "still_bound m t \<longleftrightarrow> (1 < usecount (krn m) \<longrightarrow>
     usecount (krn m) \<le> usecount (krn t) \<and> binding (krn t) = binding (krn m))"

lemma still_bound_order: "reflp still_bound" "transp still_bound"
  by (auto simp: still_bound_def intro!: reflpI transpI)

definition use_view :: "kernel \<Rightarrow> int \<times> pci_dev option \<times> rr_devsel \<times> pci_id" where
  "use_view k = (usecount k, binding k)"

lemma use_view_simps [simp]:
  "use_view (k\<lparr>mmio := a\<rparr>) = use_view k" "use_view (k\<lparr>dmabuf := b\<rparr>) = use_view k"
  "use_view (k\<lparr>fdtab := f\<rparr>) = use_view k" "use_view (k\<lparr>flags := n\<rparr>) = use_view k"
  "use_view (k\<lparr>irq_unbalanced := c\<rparr>) = use_view k" "use_view (k\<lparr>irq_depth := n\<rparr>) = use_view k"
  "use_view (k\<lparr>irqtime := p, irqcount := n\<rparr>) = use_view k"
  by (simp_all add: use_view_def binding_def)

lemma rr_do_iocmd_use: "rr_do_iocmd env w c k = (r, c1, k1) \<Longrightarrow> use_view k1 = use_view k"
  by (auto simp: rr_do_iocmd_def rr_do_iocmd_dmabuf_def rr_do_read_mem_def rr_do_write_mem_def
      rr_do_read_io_def rr_do_write_io_def Let_def split: if_splits option.splits)

lemma irq_use:
  "ioctl_irqwait env k = (r, k1) \<Longrightarrow> use_view k1 = use_view k"
  "ioctl_irqena env k = (s, k1) \<Longrightarrow> use_view k1 = use_view k"
  by (auto simp: ioctl_irqwait_def ioctl_irqena_def rr_interrupt_def disable_irq_nosync_def set_flag_def
      enable_irq_def clear_flag_def Let_def split: if_splits wait_outcome.splits prod.splits)

lemma sys_ioctl_use:
  assumes "1 < usecount k"
  shows "use_view (snd (snd (sys_ioctl env fd cmd k))) = use_view k"
  using assms
  by (cases cmd)
    (auto simp: sys_ioctl_def rr_ioctl_def ioctl_devsel_def split: prod.splits option.split
      dest: rr_do_iocmd_use irq_use)

lemma file_use:
  "use_view (snd (sys_lseek fd p k)) = use_view k"
  "use_view (snd (sys_read env fd n k)) = use_view k"
  "use_view (snd (sys_write fd bs k)) = use_view k"
  by (auto simp: sys_lseek_def sys_read_def sys_write_def rr_read_def rr_write_def Let_def split: option.split)

lemma still_bound_krn: "(1 < usecount (krn m) \<Longrightarrow> use_view k = use_view (krn m)) \<Longrightarrow> still_bound m (m\<lparr>krn := k\<rparr>)"
  by (simp add: still_bound_def use_view_def)

section \<open>Frames of the commands\<close>

text \<open>A frame of the methods that printing keeps is a frame of every command.\<close>

locale command_frame = method_frame R env for R :: "machine \<Rightarrow> machine \<Rightarrow> bool" and env :: kenv +
  assumes console_R: "same_world m t \<Longrightarrow> krn t = krn m \<Longrightarrow> objs t = objs m \<Longrightarrow> R m t"
begin

lemma print_R: "keeps R (print_con x)" "keeps R (print_con_comma x)" "keeps R print_con_nl" "keeps R (write_con x)"
  by (auto simp: keeps_def print_con_def print_con_comma_def print_con_nl_def write_con_def same_world_def
      intro: console_R)

lemma if_R: "keeps R m \<Longrightarrow> keeps R n \<Longrightarrow> keeps R (if b then m else n)"
  by simp

lemma raise_R: "keeps R (py_raise e)"
  using R_refl by (simp add: keeps_def reflpD)

lemmas command_steps = bind_R seq_R pure_R raise_R if_R print_R method_R info_R init_R

lemma print_bound_R: "keeps R (print_bound env g)"
  unfolding print_bound_def by (intro command_steps)

lemma do_read_R: "keeps R (do_read env g a)" and do_write_R: "keeps R (do_write env g a)"
  unfolding do_read_def do_write_def
  by (auto split: sum.split intro!: command_steps)

lemma plist_item_R: "keeps R (plist_item i a)"
  unfolding plist_item_def by (intro command_steps)

lemma do_getplist_R: "keeps R (do_getplist env g a)"
  unfolding do_getplist_def by (intro command_steps block_R) (auto intro: plist_item_R)

lemma do_simple_R: "keeps R (do_info env g a)" "keeps R (do_bind env g a)" "keeps R (do_irqwait env g a)"
  "keeps R (do_irqena env g a)" "keeps R (do_getdmasize env g a)"
  unfolding do_info_def do_bind_def do_irqwait_def do_irqena_def do_getdmasize_def
  by (intro command_steps print_bound_R)+

lemma command_R: "command env help g c = Some f \<Longrightarrow> keeps R (f a)"
  unfolding command_def go_on_def do_EOF_def
  by (auto split: if_splits intro!: seq_R pure_R do_simple_R do_read_R do_write_R do_getplist_R print_R)

lemma onecmd_R: "keeps R (onecmd env help g l)"
  unfolding onecmd_def Let_def emptyline_def no_command_def go_on_def
  by (auto split: option.split intro: command_R intro!: seq_R pure_R print_R)

end

interpretation same_frame: command_frame same_world env for env
  by unfold_locales simp

interpretation bound_frame: command_frame still_bound env for env
proof (unfold_locales, goal_cases)
  case (8 m)
  show ?case by (simp add: still_bound_def sys_open_def rr_open_def binding_def Let_def)
qed (rule still_bound_order still_bound_krn, (rule sys_ioctl_use file_use, assumption?)?
    | simp add: still_bound_def)+

section \<open>The loop ends\<close>

lemma onecmd_EOF: "onecmd env help g ''EOF'' m = (Inr True, m)"
proof -
  have "py_strip ''EOF'' = ''EOF''" "takeWhile is_ident ''EOF'' = ''EOF''" "dropWhile is_ident ''EOF'' = []"
    by code_simp+
  then show ?thesis
    by (simp add: onecmd_def parseline_def full_line_def command_def do_EOF_def py_strip_def)
qed

text \<open>A turn that goes on has taken a line.\<close>

lemma cmd_turn_shrinks:
  assumes "cmd_turn env help g m = (Inr False, t)"
  shows "length (inp (con t)) < length (inp (con m))"
proof (cases "inp (con m)")
  case Nil
  then have "next_line m = (Inr ''EOF'', m\<lparr>con := (con m)\<lparr>out := out (con m) @ ''rr> '', soft := False\<rparr>\<rparr>)"
    by (simp add: next_line_def on_con_def raw_input_def)
  with assms show ?thesis by (simp add: cmd_turn_def py_bind_Inr onecmd_EOF)
next
  case (Cons l ls)
  then obtain u where u: "next_line m = (Inr l, u)" "inp (con u) = ls"
    by (simp add: next_line_def on_con_def raw_input_def)
  with assms have "onecmd env help g l u = (Inr False, t)" by (simp add: cmd_turn_def py_bind_Inr)
  then have "inp (con t) = ls"
    using keepsD [OF same_frame.onecmd_R] u(2) by (auto simp: same_world_def)
  with Cons show ?thesis by simp
qed

lemma cmd_loop_returns: "\<exists>r t. cmd_loop env help g m = Some (r, t)"
proof (induction "length (inp (con m))" arbitrary: m rule: less_induct)
  case less
  obtain x t where x: "cmd_turn env help g m = (x, t)" by force
  show ?case
  proof (cases "x = Inr False")
    case True
    with x have "length (inp (con t)) < length (inp (con m))" by (simp add: cmd_turn_shrinks)
    from less [OF this] x True show ?thesis by (subst cmd_loop.simps) simp
  next
    case False
    with x show ?thesis by (subst cmd_loop.simps) (auto split: sum.split)
  qed
qed


section \<open>No command binds\<close>

lemma next_line_krn: "krn (snd (next_line m)) = krn m"
  by (auto simp: next_line_def on_con_def raw_input_def split: list.split)

lemma cmd_turn_bound:
  assumes "cmd_turn env help g m = (r, t)"
  shows "still_bound m t"
proof -
  obtain l u where u: "next_line m = (Inr l, u)"
    by (cases "inp (con m)") (auto simp: next_line_def on_con_def raw_input_def)
  then have "krn u = krn m" using next_line_krn [of m] by simp
  moreover have "still_bound u t"
    using assms u by (intro keepsD [OF bound_frame.onecmd_R]) (simp add: cmd_turn_def py_bind_Inr)
  ultimately show ?thesis by (simp add: still_bound_def)
qed

lemma cmd_loop_bound: "cmd_loop env help g m = Some (r, t) \<Longrightarrow> still_bound m t"
proof (induction "length (inp (con m))" arbitrary: m rule: less_induct)
  case less
  obtain x u where x: "cmd_turn env help g m = (x, u)" by force
  show ?case
  proof (cases "x = Inr False")
    case True
    with x have "length (inp (con u)) < length (inp (con m))" by (simp add: cmd_turn_shrinks)
    moreover have "cmd_loop env help g u = Some (r, t)"
      using less.prems x True by (subst (asm) cmd_loop.simps) simp
    ultimately have "still_bound u t" by (rule less.hyps)
    with cmd_turn_bound [OF x] show ?thesis by (rule transpD [OF still_bound_order(2)])
  next
    case False
    with less.prems x have "t = u" by (subst (asm) cmd_loop.simps) (auto split: sum.splits)
    with cmd_turn_bound [OF x] show ?thesis by simp
  qed
qed

lemma gennum_init_bound:
  assumes "gennum_init m = (r, t)"
  shows "binding (krn t) = binding (krn m)" and "r = Inr g \<Longrightarrow> usecount (krn t) = usecount (krn m) + 1"
  using assms
  by (auto simp: gennum_init_def py_bind_def py_seq_def on_kernel_def load_lib_def sys_open_def rr_open_def binding_def
      Let_def split: if_splits)

text \<open>C26: the interpreter's \<open>bind\<close> command never takes effect: whatever is typed, the program ends
  with the driver bound to the device it was bound to at the start (or to none), and with the same selection
  stored in the driver. The program holds two descriptors of the device node, and the driver refuses to
  rebind while more than one is open.\<close>

theorem rrcmd_never_binds:
  assumes "0 \<le> usecount (krn m)" "rrcmd env help m = Some (r, t)"
  shows "pdev (krn t) = pdev (krn m) \<and> devsel (krn t) = devsel (krn m) \<and> id_table (krn t) = id_table (krn m)"
proof -
  obtain r1 t1 where 1: "gennum_init m = (r1, t1)" by force
  obtain u1 where p: "print_con ''Initializing...'' t1 = (Inr (), u1)" "krn u1 = krn t1"
    by (simp add: print_con_def)
  obtain r2 t2 where 2: "gennum_init u1 = (r2, t2)" by force
  have b1: "binding (krn t1) = binding (krn m)" using gennum_init_bound(1) [OF 1] .
  have b2: "binding (krn t2) = binding (krn m)" using gennum_init_bound(1) [OF 2] p(2) b1 by simp
  have "binding (krn t) = binding (krn m)"
  proof (cases "r1 \<in> range Inr \<and> r2 \<in> range Inr")
    case False
    then have "t = (if r1 \<in> range Inr then t2 else t1)"
      using assms(2) 1 2 p(1) unfolding rrcmd_def preloop_def
      by (auto simp: py_seq_def py_bind_def split: sum.splits)
    with b1 b2 show ?thesis by simp
  next
    case True
    then obtain g1 g2 where g: "r1 = Inr g1" "r2 = Inr g2" by auto
    have u: "1 < usecount (krn t2)"
      using gennum_init_bound(2) [OF 1 g(1)] gennum_init_bound(2) [OF 2 g(2)] p(2) assms(1) by simp
    obtain r3 t3 where 3: "do_info env g2 [] t2 = (r3, t3)" by force
    have s3: "still_bound t2 t3" by (rule keepsD [OF bound_frame.do_simple_R(1) 3])
    have "t = t3 \<or> cmd_loop env help g2 t3 = Some (r, t)"
      using assms(2) 1 2 3 g p(1) unfolding rrcmd_def preloop_def
      by (auto simp: py_seq_def py_bind_def split: sum.splits)
    then have "still_bound t2 t"
      using s3 cmd_loop_bound transpD [OF still_bound_order(2)] by blast
    with u b2 show ?thesis by (simp add: still_bound_def)
  qed
  then show ?thesis by (simp add: binding_def)
qed

theorem rrcmd_never_binds_witness:
  "\<exists>r t. rrcmd demo_env (\<lambda>_. []) (demo\<lparr>con := (con demo)\<lparr>inp := [''bind 10dc:18d'']\<rparr>\<rparr>) = Some (r, t)
    \<and> pdev (krn t) = Some demo_pdev"
proof -
  let ?m = "demo\<lparr>con := (con demo)\<lparr>inp := [''bind 10dc:18d'']\<rparr>\<rparr>"
  have *: "\<exists>r t. rrcmd demo_env (\<lambda>_. []) ?m = Some (r, t)"
    using cmd_loop_returns by (fastforce simp: rrcmd_def split: prod.splits sum.splits)
  have "0 \<le> usecount (krn ?m)" "pdev (krn ?m) = Some demo_pdev" by (simp_all add: demo_defs)
  with rrcmd_never_binds [of ?m] * show ?thesis by auto
qed

section \<open>Reading back what was written\<close>

interpretation con_frame: method_frame "\<lambda>m t. con t = con m" env for env
  by unfold_locales (auto intro!: reflpI transpI)

lemma split_ws_last: "\<forall>c \<in> set w. \<not> is_space c \<Longrightarrow> w \<noteq> [] \<Longrightarrow> split_ws [] w = [w]"
  using split_ws_word [of w "[]" "[]"] by simp

lemma split_ws_next:
  "\<forall>c \<in> set w. \<not> is_space c \<Longrightarrow> w \<noteq> [] \<Longrightarrow> is_space x \<Longrightarrow> split_ws [] (w @ x # cs) = w # split_ws [] cs"
  by (simp add: split_ws_word)

lemma split_ws_4_12: "split_ws [] (''4 12 '' @ cs) = ''4'' # ''12'' # split_ws [] cs"
  by (simp add: is_space_def)

lemma py_int_4_12: "py_int 10 ''4'' = Inr 4" "py_int 10 ''12'' = Inr 12"
proof -
  have "digits_val 10 0 ''4'' = Some 4" "digits_val 10 0 ''12'' = Some 12" "py_strip ''4'' = ''4''" "py_strip ''12'' = ''12''"
    by code_simp+
  then show "py_int 10 ''4'' = Inr 4" "py_int 10 ''12'' = Inr 12"
    by (simp_all add: py_int_def unsigned_val_def drop_0x_def)
qed

lemma blank: "is_space (CHR '' '')"
  by (simp add: is_space_def)

lemma hexnum_words:
  "split_ws [] (hexnum False n) = [hexnum False n]"
  "split_ws [] (hexnum False n @ CHR '' '' # cs) = hexnum False n # split_ws [] cs"
  using hexnum_no_space [of False n] hexnum_digits [of False n] blank by (simp_all add: split_ws_last split_ws_next)

lemma command_args:
  "read_args (''4 12 '' @ hexnum False off) = Inr (4, 12, int off)"
  "write_args (''4 12 '' @ hexnum False off @ '' '' @ hexnum False v) = Inr (4, 12, int off, int v)"
  unfolding read_args_def write_args_def py_split_def split_ws_4_12
  by (simp_all add: hexnum_words py_int_4_12 py_int_hexnum and_then_def)

text \<open>C27: a word written into the DMA buffer by the \<open>write\<close> command, with its address and value typed
  in hexadecimal, is printed in the same form by the \<open>read\<close> command; neither prints anything else.\<close>

theorem write_read_commands:
  assumes "dma_good N self m" "word_addr N off" "v < 2 ^ 32"
  shows "\<exists>t u. do_write env self (''4 12 '' @ hexnum False off @ '' '' @ hexnum False v) m = (Inr (), t)
    \<and> do_read env self (''4 12 '' @ hexnum False off) t = (Inr (), u)
    \<and> con u = print_ln (''0x'' @ hexnum False v) (con m)"
proof -
  have "0 \<le> int v" "int v < 2 ^ 32" using assms(3) by simp_all
  from dma_file.st_law [OF assms(1,2) this, of env] obtain r t where
    t: "gennum_write env self 12 (int off) 4 (int v) m = (Inr r, t)" "dma_good N self t" "dma_word 4 t off = int v" by blast
  from dma_file.ld_law [OF t(2) assms(2), of env] t(3) obtain u where
    u: "gennum_read env self 12 (int off) 4 t = (Inr (int v), u)" by auto
  have "con u = con m"
    using keepsD [OF con_frame.method_R(4) t(1)] keepsD [OF con_frame.method_R(3) u] by simp
  moreover have "py_hex (int v) = ''0x'' @ hexnum False v" using assms(3) by (simp add: py_hex_def)
  ultimately show ?thesis
    using t(1) u unfolding do_write_def do_read_def command_args
    by (simp add: py_seq_Inr py_bind_Inr print_con_def)
qed

theorem write_read_commands_witness:
  "\<exists>t u. do_write demo_env 0 (''4 12 '' @ hexnum False 8 @ '' '' @ hexnum False 0xdead0000) demo = (Inr (), t)
    \<and> do_read demo_env 0 (''4 12 '' @ hexnum False 8) t = (Inr (), u)
    \<and> con u = print_ln (''0x'' @ hexnum False 0xdead0000) (con demo)"
proof (rule write_read_commands)
  show "dma_good 8192 0 demo"
    by (simp add: bound_obj_def dma_good_def self_fd_def list_all_iff demo_defs)
qed (simp_all add: word_addr_def)

section \<open>The table of frames\<close>

definition plist_row :: "int list \<Rightarrow> nat \<Rightarrow> string" where
  "plist_row ps r = fmt_hexw 8 (int (8 * r)) @ '' ''
     @ concat (map (\<lambda>a. '' '' @ fmt_hexw 8 (push_bit 12 a) @ '' '') (take 8 (drop (8 * r) ps))) @ [newline]"

definition print_text :: "string \<Rightarrow> machine \<Rightarrow> machine" where
  "print_text s m = m\<lparr>con := (con m)\<lparr>out := out (con m) @ s, soft := False\<rparr>\<rparr>"

lemma plist_row_prints:
  assumes "length xs = 8" "\<not> soft (con m)"
  shows "py_block (map (\<lambda>(i, a). plist_item i a) (enumerate (8 * r) xs)) m
    = (Inr (), print_text (fmt_hexw 8 (int (8 * r)) @ '' ''
        @ concat (map (\<lambda>a. '' '' @ fmt_hexw 8 (push_bit 12 a) @ '' '') xs) @ [newline]) m)"
proof -
  obtain a b c d e f g h where xs: "xs = [a, b, c, d, e, f, g, h]"
    using assms(1) by (auto simp: length_Suc_conv numeral_eq_Suc)
  have "Suc (8 * r) mod 8 = 1" "Suc (Suc (8 * r)) mod 8 = 2" "Suc (Suc (Suc (8 * r))) mod 8 = 3"
    "Suc (Suc (Suc (Suc (8 * r)))) mod 8 = 4" "Suc (Suc (Suc (Suc (Suc (8 * r))))) mod 8 = 5"
    "Suc (Suc (Suc (Suc (Suc (Suc (8 * r)))))) mod 8 = 6" "Suc (Suc (Suc (Suc (Suc (Suc (Suc (8 * r))))))) mod 8 = 7"
    by presburger+
  then show ?thesis
    using assms(2) unfolding xs plist_item_def print_con_comma_def print_con_nl_def
    by (simp add: py_bind_def py_seq_def print_comma_def print_nl_def print_text_def)
qed

lemma plist_rows_print:
  "length xs = 8 * n \<Longrightarrow> \<not> soft (con m) \<Longrightarrow>
   py_block (map (\<lambda>(i, a). plist_item i a) (enumerate (8 * r) xs)) m
    = (Inr (), print_text (concat (map (\<lambda>k. fmt_hexw 8 (int (8 * (r + k))) @ '' ''
        @ concat (map (\<lambda>a. '' '' @ fmt_hexw 8 (push_bit 12 a) @ '' '') (take 8 (drop (8 * k) xs))) @ [newline]) [0..<n])) m)"
proof (induction n arbitrary: xs m r)
  case 0
  then show ?case by (simp add: print_text_def)
next
  case (Suc n)
  let ?row = "\<lambda>r ys. fmt_hexw 8 (int (8 * r)) @ '' ''
        @ concat (map (\<lambda>a. '' '' @ fmt_hexw 8 (push_bit 12 a) @ '' '') ys) @ [newline]"
  let ?m1 = "print_text (?row r (take 8 xs)) m"
  have l: "length (take 8 xs) = 8" "length (drop 8 xs) = 8 * n" using Suc.prems by simp_all
  have e: "enumerate (8 * r) xs = enumerate (8 * r) (take 8 xs) @ enumerate (8 * Suc r) (drop 8 xs)"
    using l(1) by (metis append_take_drop_id enumerate_append_eq add.commute mult_Suc_right)
  have rows: "[0..<Suc n] = 0 # map Suc [0..<n]" by (simp add: map_Suc_upt upt_conv_Cons)
  have "\<not> soft (con ?m1)" by (simp add: print_text_def)
  from Suc.IH [OF l(2) this, of "Suc r"] plist_row_prints [OF l(1) Suc.prems(2), of r]
  have "py_block (map (\<lambda>(i, a). plist_item i a) (enumerate (8 * r) xs)) m
    = (Inr (), print_text (concat (map (\<lambda>k. ?row (Suc r + k) (take 8 (drop (8 * k) (drop 8 xs)))) [0..<n])) ?m1)"
    unfolding e map_append py_block_append by (simp add: py_bind_Inr)
  then show ?case
    unfolding rows by (simp add: print_text_def comp_def algebra_simps)
qed

lemma getplist_length: "gennum_getplist env self m = (Inr ps, t) \<Longrightarrow> length ps = 256"
  by (auto simp: gennum_getplist_def plist_store_def Plist_len_def elim!: py_bind_InrE split: prod.splits if_splits)

text \<open>The \<open>getplist\<close> command prints 32 lines, each with the index of its first page and the physical addresses
  of eight pages, every address once and in order.\<close>

lemma getplist_table:
  assumes "gennum_getplist env self m = (Inr ps, t)" "\<not> soft (con m)"
  shows "do_getplist env self args m = (Inr (), print_text (concat (map (plist_row ps) [0..<32])) t)"
proof -
  have l: "length ps = 8 * 32" using getplist_length [OF assms(1)] by simp
  then have n: "ps \<noteq> []" "(length ps - 1) mod 8 = 7" by auto
  have "con t = con m" using keepsD [OF con_frame.method_R(8) assms(1)] .
  with assms(2) have "\<not> soft (con t)" by simp
  from plist_rows_print [OF l this, of 0] show ?thesis
    unfolding do_getplist_def using n assms(1) by (simp add: py_bind_Inr py_seq_Inr plist_row_def [abs_def])
qed

end
