(* ===== verification/Dmatest.thy ===== *)
theory Dmatest
  imports Program
begin

text \<open>
  The DMA test script sw/gnurabbit/python/dmatest.py, phase by phase: it describes one transfer
  from the board to the third page of the DMA buffer by a chain item in the first page, fills the second
  page with data, programs and starts the DMA engine, waits for the interrupt and prints the pages.
  Also the self-test at the end of sw/gnurabbit/python/rr.py. A script is a sequence of statements on
  the \<open>Gennum\<close> object it opens; it never looks at \<open>errno\<close>.
\<close>

section \<open>Phases\<close>

text \<open>\<open>card.iwrite(bar, offset, 4, value)\<close>, a list of them.\<close>

definition iwrites :: "kenv \<Rightarrow> nat \<Rightarrow> (int \<times> int \<times> int) list \<Rightarrow> (machine, unit) py" where
  "iwrites env crd ws = py_block (map (\<lambda>(bar, offset, value). gennum_iwrite env crd bar offset 4 value) ws)"

definition clock_and_gpio :: "(int \<times> int \<times> int) list" where
  "clock_and_gpio =
     [(4, 0x0808, 0xe001f07c),
      (4, 0x0A04, 0x00000100), (4, 0x0A1C, 0x0000FEFF), (4, 0x0A18, 0x00000100), (4, 0x0A28, 0x00000100),
      (4, 0x0820, 0x00008000)]"

definition chain_item :: "int \<Rightarrow> int \<Rightarrow> (int \<times> int \<times> int) list" where
  "chain_item carrier_start1 address2 =
     [(0xc, 0x0000, carrier_start1), (0xc, 0x0004, address2), (0xc, 0x0008, 0), (0xc, 0x000c, 0x40),
      (0xc, 0x0010, 0), (0xc, 0x0014, 0), (0xc, 0x0018, 0)]"

text \<open>The data loop: sixteen words, counted up from \<open>0xdead0000\<close>.\<close>

fun write_data :: "kenv \<Rightarrow> nat \<Rightarrow> int \<Rightarrow> nat list \<Rightarrow> (machine, unit) py" where
  "write_data env crd wdata [] = py_ret ()"
| "write_data env crd wdata (addr # addrs) =
     py_seq (gennum_iwrite env crd 0xc (0x1000 + push_bit 2 (int addr)) 4 wdata)
       (write_data env crd (wdata + 1) addrs)"

definition first_transfer :: "int \<Rightarrow> int \<Rightarrow> int \<Rightarrow> (int \<times> int \<times> int) list" where
  "first_transfer carrier_start1 address1 address0 =
     [(0, 0x0008, carrier_start1), (0, 0x000c, address1), (0, 0x0014, 0x40), (0, 0x0018, address0),
      (0, 0x0020, 0x3)]"

definition run_transfer :: "kenv \<Rightarrow> nat \<Rightarrow> (machine, unit) py" where
  "run_transfer env crd =
     py_seq (print_con ''Enable interrupts'')
    (py_seq (gennum_irqena env crd)
    (py_seq (print_con ''Starting transfer'')
    (py_seq (iwrites env crd [(0, 0, 1)])
    (py_seq (print_con ''Wait for end DMA interrupt'')
    (py_seq (gennum_irqwait env crd)
            (print_con ''INTERRUPT RECEIVED''))))))"

text \<open>Printing a word read from the board, and the words of a page.\<close>

definition print_word :: "kenv \<Rightarrow> nat \<Rightarrow> string \<Rightarrow> int \<Rightarrow> int \<Rightarrow> (machine, unit) py" where
  "print_word env crd label bar offset =
     py_bind (gennum_iread env crd bar offset 4) (\<lambda>v. print_con (label @ fmt_hex True 8 v))"

definition print_page :: "kenv \<Rightarrow> nat \<Rightarrow> string \<Rightarrow> int \<Rightarrow> int \<Rightarrow> nat \<Rightarrow> (machine, unit) py" where
  "print_page env crd title page_addr base n =
     py_seq (print_con (title @ py_hex page_addr))
       (py_block (map (\<lambda>i. print_word env crd [] 0xc (base + 4 * int i)) [0..<n]))"

definition print_status :: "kenv \<Rightarrow> nat \<Rightarrow> (machine, unit) py" where
  "print_status env crd =
     py_seq (print_word env crd ''INT status  : '' 4 0x814) (print_word env crd ''GPIO status : '' 4 0xA20)"

section \<open>The script\<close>

definition dmatest :: "kenv \<Rightarrow> (machine, unit) py" where
  "dmatest env =
     py_bind gennum_init (\<lambda>crd.
     py_bind (gennum_getplist env crd) (\<lambda>plist.
     let pages = map (\<lambda>addr. push_bit 12 addr) (py_slice plist 0 3) in
     py_seq (print_con ''Set local bus freq to 100MHz'')
    (py_seq (iwrites env crd clock_and_gpio)
    (py_bind (py_lift (py_index pages 0)) (\<lambda>address0.
     py_bind (py_lift (py_index pages 1)) (\<lambda>address1.
     py_bind (py_lift (py_index pages 2)) (\<lambda>address2.
     py_seq (iwrites env crd (chain_item 0 address2))
    (py_seq (write_data env crd 0xdead0000 [0..<16])
    (py_seq (iwrites env crd (first_transfer 0 address1 address0))
    (py_seq (run_transfer env crd)
    (py_seq (print_status env crd)
    (py_seq (print_page env crd ''Page 0 - Next transfer - '' address0 0 6)
    (py_seq (print_page env crd ''Page 1 - Data to write to the board - '' address1 0x1000 16)
            (print_page env crd ''Page 2 - Data read back from the board - '' address2 0x2000 16))))))))))))))"

section \<open>The self-test of the class\<close>

definition self_test_addr :: string where
  "self_test_addr = ''1a39:0004/1a39:0004@0020:0000''"

definition py_str :: "int \<Rightarrow> string" where
  "py_str z = (if z < 0 then ''-'' else []) @ decnum (nat \<bar>z\<bar>)"

text \<open>What \<open>print\<close> shows of a dictionary is a parameter, \<open>repr\<close>.\<close>

definition rr_self_test :: "kenv \<Rightarrow> (dict \<Rightarrow> string) \<Rightarrow> (machine, unit) py" where
  "rr_self_test env repr =
     py_bind gennum_init (\<lambda>g.
     py_bind (py_lift (parse_addr self_test_addr)) (\<lambda>d.
     py_seq (print_con (repr d))
    (py_bind (gennum_bind env g self_test_addr) (\<lambda>r.
     py_seq (print_con (py_str r))
    (py_bind (gennum_write env g RR_BAR_4 0xa08 4 0xdeadface) (\<lambda>n.
     py_seq (print_con (fmt_hex False 1 n))
    (py_bind (gennum_read env g RR_BAR_4 0xa08 4) (\<lambda>v.
     py_seq (print_con (fmt_hex False 1 v))
    (py_bind (gennum_getdmasize env g) (\<lambda>s.
     py_seq (print_con (py_str s))
    (py_bind (gennum_getplist env g) (\<lambda>ps.
     py_block (map (\<lambda>page. print_con_comma (fmt_hexw 8 (push_bit 12 page) @ '' '')) ps)))))))))))))"

end
