(* ===== verification/Dmatest_Props.thy ===== *)
theory Dmatest_Props
  imports Dmatest Gennum_Theorems
begin

text \<open>
  The properties of the scripts: what the DMA test leaves in the DMA buffer for the engine, which
  exceptions the script can end with, and that the self-test of the class cannot pass.
\<close>

section \<open>The DMA buffer as the script prepares it\<close>

lemma gennum_iwrite_mod: "gennum_iwrite env self b off w d = gennum_iwrite env self b off w (d mod 2 ^ 32)"
proof -
  have "RR_Iocmd a w d = RR_Iocmd a w (d mod 2 ^ 32)" for a by (simp add: RR_Iocmd_def)
  then show ?thesis by (simp only: gennum_iwrite_def)
qed

lemma write_data_block:
  "write_data env crd (w + int n) as s =
   py_block (map (\<lambda>(k, a). gennum_iwrite env crd 12 (0x1000 + 4 * int a) 4 (w + int k)) (enumerate n as)) s"
proof (induction as arbitrary: n s)
  case (Cons a as)
  have "w + int n + 1 = w + int (Suc n)" by simp
  then have IH: "write_data env crd (w + int n + 1) as =
      py_block (map (\<lambda>(k, a). gennum_iwrite env crd 12 (0x1000 + 4 * int a) 4 (w + int k)) (enumerate (Suc n) as))"
    using Cons.IH [of "Suc n"] by (simp only: fun_eq_iff) simp
  show ?case
    by (simp add: py_seq_def IH push_bit_eq_mult mult.commute)
qed simp

text \<open>The words of the chain item and of the data page, with their addresses.\<close>

definition chain_words :: "int \<Rightarrow> (nat \<times> int) list" where
  "chain_words address2 = [(0, 0), (4, address2 mod 2 ^ 32), (8, 0), (12, 0x40), (16, 0), (20, 0), (24, 0)]"

definition data_words :: "(nat \<times> int) list" where
  "data_words = map (\<lambda>i. (0x1000 + 4 * i, 0xdead0000 + int i)) [0..<16]"

lemma chain_block:
  "iwrites env crd (chain_item 0 address2) = py_block (map (\<lambda>(a, v). gennum_iwrite env crd 12 (int a) 4 v) (chain_words address2))"
  using gennum_iwrite_mod [of env crd 12 4 4 address2]
  by (simp add: iwrites_def chain_item_def chain_words_def)

lemma data_block:
  "write_data env crd 0xdead0000 [0..<16] s = py_block (map (\<lambda>(a, v). gennum_iwrite env crd 12 (int a) 4 v) data_words) s"
proof -
  have "enumerate 0 [0..<16] = map (\<lambda>i. (i, i)) [0..<16]" by (simp add: enumerate_eq_zip zip_same_conv_map)
  with write_data_block [of env crd "0xdead0000" 0 "[0..<16]" s] show ?thesis
    by (simp add: data_words_def comp_def)
qed

text \<open>The map these words make, and the addresses they leave out.\<close>

lemma words_distinct: "distinct (map fst (chain_words address2 @ data_words))"
  by (auto simp: chain_words_def data_words_def comp_def distinct_map inj_on_def)

lemma words_valid:
  "0x1040 \<le> N \<Longrightarrow> (a, v) \<in> set (chain_words address2 @ data_words) \<Longrightarrow> word_addr N a \<and> 0 \<le> v \<and> v < 2 ^ 32"
  by (auto simp: chain_words_def data_words_def word_addr_def)



section \<open>How the scripts end\<close>

lemma access_escapes:
  "b \<in> {0, 2, 4, 12} \<Longrightarrow> escapes {} (gennum_iread env self b off w)"
  "b \<in> {0, 2, 4, 12} \<Longrightarrow> escapes {} (gennum_iwrite env self b off w d)"
proof -
  assume b: "b \<in> {0, 2, 4, 12}"
  have "\<exists>v t. gennum_iread env self b off w m = (Inr v, t)" for m
    using rr_iread_outcome [of env "self_fd self m" "RR_Iocmd (b * bar_span_int + off) w 0" "krn m"] b
    by (auto simp: gennum_iread_def py_bind_def py_seq_def dict_get_bar_cases on_kernel_ref_def)
  then show "escapes {} (gennum_iread env self b off w)"
    unfolding escapes_def by (metis Inl_Inr_False prod.inject)
  have "\<exists>v t. gennum_iwrite env self b off w d m = (Inr v, t)" for m
    using rr_iwrite_outcome [of env "self_fd self m" "RR_Iocmd (b * bar_span_int + off) w d" "krn m"] b
    by (auto simp: gennum_iwrite_def py_bind_def py_seq_def dict_get_bar_cases on_kernel_ref_def)
  then show "escapes {} (gennum_iwrite env self b off w d)"
    unfolding escapes_def by (metis Inl_Inr_False prod.inject)
qed

lemma irq_escapes: "escapes {} (gennum_irqena env self)" "escapes {Blocks} (gennum_irqwait env self)"
  by (auto simp: escapes_def gennum_irqena_def gennum_irqwait_def py_bind_def on_kernel_def rr_irqena_def rr_irqwait_def
      sys_ioctl_def rr_ioctl_def errno_result_def ioctl_irqwait_def
      split: prod.splits sum.splits if_splits wait_outcome.splits)

lemma print_escapes: "escapes E (print_con x)"
  unfolding print_con_def by (rule escapes_pure)

lemmas script_steps = escapes_steps print_escapes irq_escapes [THEN escapes_mono] access_escapes [THEN escapes_mono]

lemma iwrites_escapes: "\<forall>(b, w) \<in> set ws. b \<in> {0, 2, 4, 12} \<Longrightarrow> escapes E (iwrites env crd ws)"
  unfolding iwrites_def by (rule escapes_block) (auto intro!: access_escapes [THEN escapes_mono])

lemma write_data_escapes: "escapes E (write_data env crd w as)"
proof (induction as arbitrary: w)
  case (Cons a as)
  then show ?case unfolding write_data.simps by (intro script_steps) auto
qed (simp only: write_data.simps escapes_pure)

lemma print_escapes_word: "b \<in> {0, 2, 4, 12} \<Longrightarrow> escapes E (print_word env crd l b off)"
  unfolding print_word_def by (intro script_steps) auto

lemma print_page_escapes: "escapes E (print_page env crd t a base n)"
  unfolding print_page_def by (intro script_steps escapes_block) (auto intro: print_escapes_word)

lemma run_transfer_escapes: "escapes {Blocks} (run_transfer env crd)"
  unfolding run_transfer_def by (intro script_steps iwrites_escapes) auto

text \<open>Everything after the page list.\<close>

lemma gennum_init_cases:
  "gennum_init m = (if \<not> shlib (krn m) \<or> \<not> node (krn m) then (Inl (OSError 2), m)
     else (Inr (length (objs m)), snd (gennum_init m)))"
  "shlib (krn m) \<Longrightarrow> node (krn m) \<Longrightarrow> fdtab (krn (snd (gennum_init m))) (self_fd (length (objs m)) (snd (gennum_init m))) \<noteq> None
     \<and> bufsize (krn (snd (gennum_init m))) = bufsize (krn m)"
  by (auto simp: gennum_init_def py_bind_def py_seq_def on_kernel_def load_lib_def sys_open_def rr_open_def self_fd_def Let_def)

lemma getplist_cases:
  assumes "fdtab (krn m) (self_fd self m) \<noteq> None"
  shows "if 256 * 4096 < bufsize (krn m) then gennum_getplist env self m = (Inl MemoryCorruption, m)
    else \<exists>ps. gennum_getplist env self m = (Inr ps, m) \<and> length ps = 256"
proof -
  have "256 < (bufsize (krn m) + 4095) div 4096 \<longleftrightarrow> 256 * 4096 < bufsize (krn m)"
    by (simp add: less_eq_div_iff_mult_less_eq flip: Suc_le_eq)
  then show ?thesis using assms
    by (auto simp: gennum_getplist_def py_bind_def on_kernel_ref_def rr_getplist_def sys_ioctl_def rr_ioctl_def
        errno_result_def plist_store_def Plist_len_def ioctl_getplist_def plist_len_def RR_PLIST_SIZE_def add.commute)
qed


text \<open>The self-test at the end of rr.py cannot pass. It names the BAR by the constant \<open>RR_BAR_4\<close>, an
  address, where the methods expect the number 4: the first access raises \<open>KeyError\<close>, on every device.\<close>

lemma rr_self_test_fails:
  "fst (rr_self_test env repr m) = (if shlib (krn m) \<and> node (krn m) then Inl KeyError else Inl (OSError 2))"
proof (cases "shlib (krn m) \<and> node (krn m)")
  case False
  then show ?thesis using gennum_init_cases(1) [of m] by (simp add: rr_self_test_def py_bind_def)
next
  case True
  let ?g = "length (objs m)"
  obtain t where i: "gennum_init m = (Inr ?g, t)" using gennum_init_cases(1) [of m] True by auto
  have "re_match addr_reg self_test_addr \<noteq> None" unfolding self_test_addr_def by code_simp
  then obtain j e where "re_match addr_reg self_test_addr = Some (j, e)" by (metis not_None_eq surj_pair)
  from parse_addr_match [OF this] obtain v d where p: "parse_addr self_test_addr = Inr (addr_dict v d)" by blast
  have "\<exists>r u. gennum_bind env ?g self_test_addr s = (Inr r, u)" for s
    unfolding bind_call [OF p RR_Devsel_addr]
    by (auto simp: rr_devsel_call_def sys_ioctl_def rr_ioctl_def errno_result_def split: prod.splits sum.splits)
  then obtain r u where b: "gennum_bind env ?g self_test_addr (snd (print_con (repr (addr_dict v d)) t)) = (Inr r, u)"
    by blast
  have k: "gennum_write env ?g RR_BAR_4 0xa08 4 0xdeadface s = (Inl KeyError, s)" for s
    by (simp add: gennum_write_def py_bind_def RR_BAR_4_def dict_get_bar_cases)
  show ?thesis
    using True i p b k by (simp add: rr_self_test_def py_bind_def py_seq_def print_con_def)
qed

end
