(* ===== verification/Macholib.thy ===== *)
theory Macholib
  imports Gennum_Addr Interfaces
begin

text \<open>
  The library search of module ctypes for Mach-O systems (sw/gnurabbit/python/ctypes/macholib):
  the name patterns of dylib.py and framework.py, and the search of dyld.py. The generators of
  dyld.py are lists: what they yield does not depend on when they are asked. The file system, the
  process environment, \<open>os.path.expanduser\<close> and the UTF-8 encoder are the fields of \<open>host\<close>, a
  parameter of the definitions that use them.
\<close>

section \<open>Paths\<close>

definition path_join :: "string \<Rightarrow> string \<Rightarrow> string" where
  "path_join a b =
     (if take 1 b = ''/'' then b
      else if a = [] \<or> last a = CHR ''/'' then a @ b
      else a @ ''/'' @ b)"

definition basename :: "string \<Rightarrow> string" where
  "basename p = rev (takeWhile (\<lambda>c. c \<noteq> CHR ''/'') (rev p))"

text \<open>\<open>s.rfind(t)\<close>.\<close>

definition rfind :: "string \<Rightarrow> string \<Rightarrow> int" where
  "rfind s t =
     (case List.find (\<lambda>i. take (length t) (drop i s) = t) (rev [0..<Suc (length s)]) of
        None \<Rightarrow> -1
      | Some i \<Rightarrow> int i)"

section \<open>Name patterns\<close>

definition is_word :: "char \<Rightarrow> bool" where
  "is_word c = (digit_val c \<noteq> None \<or> c = CHR ''_'')"

text \<open>The same on the bits of a character, for evaluation.\<close>

lemma is_word_bits [code]:
  "is_word (Char b0 b1 b2 b3 b4 b5 b6 b7) =
    (\<not> b7 \<and> (if b6 then (b0 \<or> b1 \<or> b2 \<or> b3 \<or> b4) \<and> (b4 \<and> b3 \<longrightarrow> \<not> b2 \<and> \<not> (b1 \<and> b0)) \<or> b0 \<and> b1 \<and> b2 \<and> b3 \<and> b4 \<and> \<not> b5
       else b5 \<and> b4 \<and> (b3 \<longrightarrow> \<not> b2 \<and> \<not> b1)))"
  unfolding is_word_def digit_val_def
  by (cases b0; cases b1; cases b2; cases b3; cases b4; cases b5; cases b6; cases b7; simp)

definition rx_location :: "rx list" where
  "rx_location = [Grp ''location'' (Cat Bol (Rep 0 None True (\<lambda>c. c \<noteq> newline))), Alt Bol (Lit ''/'')]"

definition DYLIB_RE :: rx where
  "DYLIB_RE = cats (rx_location @
     [Grp ''name'' (cats
        [Grp ''shortname'' (Rep 1 None False is_word),
         Opt (Cat (Lit ''.'') (Grp ''version'' (Rep 1 None True (\<lambda>c. c \<noteq> CHR ''.'' \<and> c \<noteq> CHR ''_'')))),
         Opt (Cat (Lit ''_'') (Grp ''suffix'' (Rep 1 None True (\<lambda>c. c \<noteq> CHR ''.'' \<and> c \<noteq> CHR ''_'')))),
         Lit ''.dylib'', Eol])])"

definition info_groups :: "string list" where
  "info_groups = [''location'', ''name'', ''shortname'', ''version'', ''suffix'']"

definition dylib_info :: "string \<Rightarrow> dict option" where
  "dylib_info filename =
     (case re_match DYLIB_RE filename of
        None \<Rightarrow> None
      | Some (j, c) \<Rightarrow> Some (groupdict info_groups c))"

text \<open>The dot before \<open>framework\<close> is not escaped: it is any character but a line end.\<close>

definition STRICT_FRAMEWORK_RE :: rx where
  "STRICT_FRAMEWORK_RE = cats (rx_location @
     [Grp ''name'' (cats
        [Grp ''shortname'' (Rep 1 None True is_word), Rep 1 (Some 1) True (\<lambda>c. c \<noteq> newline), Lit ''framework/'',
         Opt (cats [Lit ''Versions/'', Grp ''version'' (Rep 1 None True (\<lambda>c. c \<noteq> CHR ''/'')), Lit ''/'']),
         Ref ''shortname'',
         Opt (Cat (Lit ''_'') (Grp ''suffix'' (Rep 1 None True (\<lambda>c. c \<noteq> CHR ''_''))))]),
      Eol])"

definition framework_info :: "string \<Rightarrow> dict option" where
  "framework_info filename =
     (case re_match STRICT_FRAMEWORK_RE filename of
        None \<Rightarrow> None
      | Some (j, c) \<Rightarrow> Some (groupdict info_groups c))"

section \<open>The environment\<close>

record host =
  environ :: "string \<Rightarrow> string option"
  isfile :: "string \<Rightarrow> bool"
  expanduser :: "string \<Rightarrow> string"
  utf8 :: "nat list \<Rightarrow> string"

datatype pytext = Bytes string | Unicode "nat list"

definition ensure_utf8 :: "host \<Rightarrow> pytext \<Rightarrow> string" where
  "ensure_utf8 h s = (case s of Unicode u \<Rightarrow> utf8 h u | Bytes b \<Rightarrow> b)"

definition DEFAULT_FRAMEWORK_FALLBACK :: "host \<Rightarrow> string list" where
  "DEFAULT_FRAMEWORK_FALLBACK h =
     [expanduser h ''~/Library/Frameworks'', ''/Library/Frameworks'', ''/Network/Library/Frameworks'',
      ''/System/Library/Frameworks'']"

definition DEFAULT_LIBRARY_FALLBACK :: "host \<Rightarrow> string list" where
  "DEFAULT_LIBRARY_FALLBACK h = [expanduser h ''~/lib'', ''/usr/local/lib'', ''/lib'', ''/usr/lib'']"

type_synonym env_arg = "(string \<Rightarrow> string option) option"

definition env_or_os :: "host \<Rightarrow> env_arg \<Rightarrow> string \<Rightarrow> string option" where
  "env_or_os h env = (case env of None \<Rightarrow> environ h | Some e \<Rightarrow> e)"

definition dyld_env :: "host \<Rightarrow> env_arg \<Rightarrow> string \<Rightarrow> string list" where
  "dyld_env h env var = (case env_or_os h env var of None \<Rightarrow> [] | Some rval \<Rightarrow> split_on (CHR '':'') rval)"

definition dyld_image_suffix :: "host \<Rightarrow> env_arg \<Rightarrow> string option" where
  "dyld_image_suffix h env = env_or_os h env ''DYLD_IMAGE_SUFFIX''"

definition dyld_framework_path :: "host \<Rightarrow> env_arg \<Rightarrow> string list" where
  "dyld_framework_path h env = dyld_env h env ''DYLD_FRAMEWORK_PATH''"

definition dyld_library_path :: "host \<Rightarrow> env_arg \<Rightarrow> string list" where
  "dyld_library_path h env = dyld_env h env ''DYLD_LIBRARY_PATH''"

definition dyld_fallback_framework_path :: "host \<Rightarrow> env_arg \<Rightarrow> string list" where
  "dyld_fallback_framework_path h env = dyld_env h env ''DYLD_FALLBACK_FRAMEWORK_PATH''"

definition dyld_fallback_library_path :: "host \<Rightarrow> env_arg \<Rightarrow> string list" where
  "dyld_fallback_library_path h env = dyld_env h env ''DYLD_FALLBACK_LIBRARY_PATH''"

section \<open>The search\<close>

fun inject_suffix :: "string \<Rightarrow> string list \<Rightarrow> string list" where
  "inject_suffix suffix [] = []"
| "inject_suffix suffix (path # iterator) =
     (if ends_with ''.dylib'' path
      then take (length path - length ''.dylib'') path @ suffix @ ''.dylib''
      else path @ suffix) # path # inject_suffix suffix iterator"

definition dyld_image_suffix_search :: "host \<Rightarrow> string list \<Rightarrow> env_arg \<Rightarrow> string list" where
  "dyld_image_suffix_search h iterator env =
     (case dyld_image_suffix h env of None \<Rightarrow> iterator | Some suffix \<Rightarrow> inject_suffix suffix iterator)"

text \<open>\<open>framework['name']\<close>: the group takes part in every match.\<close>

definition fw_name :: "dict \<Rightarrow> string" where
  "fw_name d = (case map_of d ''name'' of Some (VStr s) \<Rightarrow> s | _ \<Rightarrow> [])"

definition dyld_override_search :: "host \<Rightarrow> string \<Rightarrow> env_arg \<Rightarrow> string list" where
  "dyld_override_search h name env =
     (case framework_info name of
        None \<Rightarrow> []
      | Some framework \<Rightarrow> map (\<lambda>path. path_join path (fw_name framework)) (dyld_framework_path h env))
     @ map (\<lambda>path. path_join path (basename name)) (dyld_library_path h env)"

definition dyld_executable_path_search :: "string \<Rightarrow> string option \<Rightarrow> string list" where
  "dyld_executable_path_search name executable_path =
     (case executable_path of
        None \<Rightarrow> []
      | Some p \<Rightarrow> if starts_with ''@executable_path/'' name
                 then [path_join p (drop (length ''@executable_path/'') name)] else [])"

definition dyld_default_search :: "host \<Rightarrow> string \<Rightarrow> env_arg \<Rightarrow> string list" where
  "dyld_default_search h name env =
     (let framework = framework_info name;
          fallback_framework_path = dyld_fallback_framework_path h env;
          fallback_library_path = dyld_fallback_library_path h env
      in [name]
         @ (case framework of None \<Rightarrow> []
            | Some f \<Rightarrow> map (\<lambda>path. path_join path (fw_name f)) fallback_framework_path)
         @ map (\<lambda>path. path_join path (basename name)) fallback_library_path
         @ (case framework of None \<Rightarrow> []
            | Some f \<Rightarrow> if fallback_framework_path = []
                        then map (\<lambda>path. path_join path (fw_name f)) (DEFAULT_FRAMEWORK_FALLBACK h) else [])
         @ (if fallback_library_path = []
            then map (\<lambda>path. path_join path (basename name)) (DEFAULT_LIBRARY_FALLBACK h) else []))"

definition dyld_candidates :: "host \<Rightarrow> string \<Rightarrow> string option \<Rightarrow> env_arg \<Rightarrow> string list" where
  "dyld_candidates h name executable_path env =
     dyld_image_suffix_search h
       (dyld_override_search h name env @ dyld_executable_path_search name executable_path
        @ dyld_default_search h name env) env"

text \<open>The \<open>for\<close> loop of \<open>dyld_find\<close>.\<close>

fun first_file :: "host \<Rightarrow> string list \<Rightarrow> string option" where
  "first_file h [] = None"
| "first_file h (path # paths) = (if isfile h path then Some path else first_file h paths)"

definition dyld_find :: "host \<Rightarrow> pytext \<Rightarrow> pytext option \<Rightarrow> env_arg \<Rightarrow> exn + string" where
  "dyld_find h name executable_path env =
     (case first_file h (dyld_candidates h (ensure_utf8 h name) (map_option (ensure_utf8 h) executable_path) env) of
        Some path \<Rightarrow> Inr path
      | None \<Rightarrow> Inl ValueError)"

definition framework_find :: "host \<Rightarrow> string \<Rightarrow> pytext option \<Rightarrow> env_arg \<Rightarrow> exn + string" where
  "framework_find h fn executable_path env =
     (case dyld_find h (Bytes fn) executable_path env of
        Inr path \<Rightarrow> Inr path
      | Inl e \<Rightarrow>
          if e = ValueError then
            let i = rfind fn ''.framework'';
                fmwk_index = (if i = -1 then length fn else nat i);
                fn1 = (if i = -1 then fn @ ''.framework'' else fn);
                fn2 = path_join fn1 (basename (take fmwk_index fn1))
            in (case dyld_find h (Bytes fn2) executable_path env of
                  Inr path \<Rightarrow> Inr path
                | Inl e2 \<Rightarrow> if e2 = ValueError then Inl e else Inl e2)
          else Inl e)"

end
