(* ===== verification/Macholib_Names.thy ===== *)
theory Macholib_Names
  imports Macholib
begin

text \<open>
  What the name patterns accept and how they take a name apart, for every text. A name can often be taken apart in
  several ways; the engine takes the longest location, then the shortest (dylib.py) or longest (framework.py) short
  name, and the rest follows.
\<close>

section \<open>The location\<close>

text \<open>The part of a file name before its last component, and the separator; there is none when the name has no
  directory.\<close>

definition location_ok :: "string \<Rightarrow> string \<Rightarrow> bool" where
  "location_ok loc sep \<longleftrightarrow> list_all (\<lambda>c. c \<noteq> newline) loc \<and> (sep = ''/'' \<or> sep = [] \<and> loc = [])"

abbreviation rx_loc :: rx where
  "rx_loc \<equiv> Grp ''location'' (Cat Bol (Rep 0 None True (\<lambda>c. c \<noteq> newline)))"

abbreviation rx_sep :: rx where
  "rx_sep \<equiv> Alt Bol (Lit ''/'')"

lemma cats_location: "cats (rx_location @ [r]) = Cat rx_loc (Cat rx_sep r)"
  by (simp add: rx_location_def)

lemma mem_run_loc:
  "(j, e) \<in> set (run rx_loc s (0, [])) \<longleftrightarrow>
    (\<exists>loc. at s 0 loc \<and> list_all (\<lambda>c. c \<noteq> newline) loc \<and> j = length loc \<and> e = [(''location'', loc)])"
  by (auto simp: mem_run_Grp mem_run_Cat mem_run_Bol piece_Rep at_def simp del: run.simps)

lemma mem_run_sep:
  assumes "at s 0 loc"
  shows "(j, e) \<in> set (run rx_sep s (length loc, c)) \<longleftrightarrow>
    (\<exists>sep. at s 0 (loc @ sep) \<and> (sep = ''/'' \<or> sep = [] \<and> loc = []) \<and> j = length (loc @ sep) \<and> e = c)"
proof -
  have b: "length loc \<le> length s" using at_length [OF assms] by simp
  show ?thesis using assms b
    by (auto simp: mem_run_Alt mem_run_Bol piece_Lit [OF b] at_append simp del: run.simps)
qed

lemma sorted_loc: "sorted_wrt (\<lambda>u v. fst v < fst u) (run rx_loc s (0, []))"
proof -
  have "run rx_loc s (0, []) = run (Grp ''location'' (Rep 0 None True (\<lambda>c. c \<noteq> newline))) s (0, [])" by simp
  with sorted_Class [where greedy = True] show ?thesis by metis
qed

text \<open>The match after the location that comes first is the one with the longest location that the rest can follow.\<close>

lemma first_location:
  assumes "first_match (run (cats (rx_location @ [r])) s (0, [])) = Some y"
  shows "\<exists>loc sep. at s 0 (loc @ sep) \<and> location_ok loc sep
    \<and> first_match (run r s (length (loc @ sep), [(''location'', loc)])) = Some y
    \<and> (\<forall>l p. at s 0 (l @ p) \<longrightarrow> location_ok l p \<longrightarrow> run r s (length (l @ p), [(''location'', l)]) \<noteq> []
         \<longrightarrow> length l \<le> length loc)"
proof -
  from assms obtain u where u: "u \<in> set (run rx_loc s (0, []))" "first_match (run (Cat rx_sep r) s u) = Some y"
    "\<forall>v \<in> set (run rx_loc s (0, [])). run (Cat rx_sep r) s v \<noteq> [] \<longrightarrow> v = u \<or> fst v < fst u"
    unfolding cats_location using first_Cat_sorted [OF _ sorted_loc] by blast
  obtain i e where ue: "u = (i, e)" by force
  from u(1) obtain loc where loc: "at s 0 loc" "list_all (\<lambda>c. c \<noteq> newline) loc" "u = (length loc, [(''location'', loc)])"
    unfolding ue mem_run_loc by auto
  from u(2) obtain w where w: "w \<in> set (run rx_sep s u)" "first_match (run r s w) = Some y"
    using first_Cat by blast
  obtain j d where wd: "w = (j, d)" by force
  from w(1) obtain sep where sep: "at s 0 (loc @ sep)" "sep = ''/'' \<or> sep = [] \<and> loc = []"
    "w = (length (loc @ sep), [(''location'', loc)])"
    unfolding loc(3) wd mem_run_sep [OF loc(1)] by auto
  show ?thesis
  proof (rule exI [where x = loc], rule exI [where x = sep], intro conjI allI impI)
    show "at s 0 (loc @ sep)" by (rule sep(1))
    show "location_ok loc sep" using loc sep by (simp add: location_ok_def)
    show "first_match (run r s (length (loc @ sep), [(''location'', loc)])) = Some y" using w(2) sep(3) by simp
    fix l p
    assume a: "at s 0 (l @ p)" "location_ok l p" "run r s (length (l @ p), [(''location'', l)]) \<noteq> []"
    let ?v = "(length l, [(''location'', l)])"
    have l: "at s 0 l" using a(1) by (simp add: at_append)
    have "?v \<in> set (run rx_loc s (0, []))" unfolding mem_run_loc using l a(2) by (auto simp: location_ok_def)
    moreover have "(length (l @ p), [(''location'', l)]) \<in> set (run rx_sep s ?v)"
      unfolding mem_run_sep [OF l] using a(1,2) by (auto simp: location_ok_def)
    then have "run (Cat rx_sep r) s ?v \<noteq> []" using a(3) unfolding run_Cat_concat by (auto simp del: run.simps)
    ultimately have "?v = u \<or> fst ?v < fst u" using u(3) by blast
    then show "length l \<le> length loc" unfolding loc(3) by auto
  qed
qed

lemma first_location_None:
  "first_match (run (cats (rx_location @ [r])) s (0, [])) = None \<longleftrightarrow>
    (\<forall>loc sep. at s 0 (loc @ sep) \<longrightarrow> location_ok loc sep \<longrightarrow> run r s (length (loc @ sep), [(''location'', loc)]) = [])"
    (is "?l \<longleftrightarrow> ?r")
proof
  assume l: ?l
  show ?r
  proof (intro allI impI)
    fix loc sep
    assume a: "at s 0 (loc @ sep)" "location_ok loc sep"
    have b: "at s 0 loc" using a(1) by (simp add: at_append)
    have "(length loc, [(''location'', loc)]) \<in> set (run rx_loc s (0, []))"
      unfolding mem_run_loc using b a(2) by (auto simp: location_ok_def)
    moreover have "(length (loc @ sep), [(''location'', loc)]) \<in> set (run rx_sep s (length loc, [(''location'', loc)]))"
      unfolding mem_run_sep [OF b] using a by (auto simp: location_ok_def)
    ultimately show "run r s (length (loc @ sep), [(''location'', loc)]) = []"
      using l unfolding cats_location first_match_None run_Cat_concat by (auto simp del: run.simps)
  qed
next
  assume r: ?r
  show ?l
  proof (rule ccontr)
    assume "\<not> ?l"
    then obtain y where "first_match (run (cats (rx_location @ [r])) s (0, [])) = Some y" by blast
    then obtain loc sep where "at s 0 (loc @ sep)" "location_ok loc sep"
      "first_match (run r s (length (loc @ sep), [(''location'', loc)])) = Some y" using first_location by blast
    with r show False by (simp add: first_match_def del: run.simps)
  qed
qed

lemma first_Grp:
  "first_match (run (Grp g a) s (i, c)) =
    map_option (\<lambda>(j, d). (j, (g, take (j - i) (drop i s)) # d)) (first_match (run a s (i, c)))"
  by (simp add: first_match_def split: list.split)

lemma at_split: "at s 0 a \<Longrightarrow> at s (length a) b \<Longrightarrow> s = a @ b @ drop (length a + length b) s"
  using at_0 [of s "a @ b"] by (simp add: at_append)

lemma no_slash_word: "list_all is_word t \<Longrightarrow> CHR ''/'' \<notin> set t"
proof -
  have "\<not> is_word (CHR ''/'')" by code_simp
  then show "list_all is_word t \<Longrightarrow> CHR ''/'' \<notin> set t" by (auto simp: list_all_iff)
qed

text \<open>The separator is determined by the location and the text, because a short name has no slash.\<close>

lemma sep_unique:
  assumes "location_ok loc sep" "location_ok loc sep'" "list_all is_word short" "list_all is_word short'"
    and "short \<noteq> []" "short' \<noteq> []" "loc @ sep @ short @ a = loc @ sep' @ short' @ b"
  shows "sep = sep'"
  using assms no_slash_word [OF assms(3)] no_slash_word [OF assms(4)]
  by (cases short; cases short') (auto simp: location_ok_def)

section \<open>Library names\<close>

text \<open>The parts of a library file name: location, separator, short name, version, suffix, and a line end that the
  pattern tolerates.\<close>

type_synonym dylib_parts = "string \<times> string \<times> string \<times> string option \<times> string option \<times> string"

abbreviation part_char :: "char \<Rightarrow> bool" where
  "part_char \<equiv> (\<lambda>c. c \<noteq> CHR ''.'' \<and> c \<noteq> CHR ''_'')"

definition dylib_tail :: "string option \<Rightarrow> string option \<Rightarrow> string" where
  "dylib_tail version suffix = opt_part ''.'' version @ opt_part ''_'' suffix @ ''.dylib''"

definition dylib_base :: "string \<Rightarrow> string option \<Rightarrow> string option \<Rightarrow> string" where
  "dylib_base short version suffix = short @ dylib_tail version suffix"

fun dylib_parts_ok :: "dylib_parts \<Rightarrow> bool" where
  "dylib_parts_ok (loc, sep, short, version, suffix, nl) \<longleftrightarrow>
     location_ok loc sep \<and> short \<noteq> [] \<and> list_all is_word short \<and> opt_ok part_char version \<and> opt_ok part_char suffix
     \<and> nl \<in> {[], [newline]}"

fun dylib_file :: "dylib_parts \<Rightarrow> string" where
  "dylib_file (loc, sep, short, version, suffix, nl) = loc @ sep @ dylib_base short version suffix @ nl"

definition opt_val :: "string option \<Rightarrow> pyval" where
  "opt_val x = (case x of None \<Rightarrow> VNone | Some t \<Rightarrow> VStr t)"

fun dylib_dict :: "dylib_parts \<Rightarrow> dict" where
  "dylib_dict (loc, sep, short, version, suffix, nl) =
     [(''location'', VStr loc), (''name'', VStr (dylib_base short version suffix)), (''shortname'', VStr short),
      (''version'', opt_val version), (''suffix'', opt_val suffix)]"

fun dylib_captures :: "dylib_parts \<Rightarrow> captures" where
  "dylib_captures (loc, sep, short, version, suffix, nl) =
     (''name'', dylib_base short version suffix)
     # opt_capture ''suffix'' suffix @ opt_capture ''version'' version @ [(''shortname'', short), (''location'', loc)]"

lemma groupdict_dylib: "groupdict info_groups (dylib_captures p) = dylib_dict p"
  by (cases p) (auto simp: groupdict_def info_groups_def opt_capture_def opt_val_def split: option.splits)

definition rx_dylib_tail :: rx where
  "rx_dylib_tail = cats
     [Opt (Cat (Lit ''.'') (Grp ''version'' (Rep 1 None True part_char))),
      Opt (Cat (Lit ''_'') (Grp ''suffix'' (Rep 1 None True part_char))),
      Lit ''.dylib'', Eol]"

abbreviation rx_dylib_name :: rx where
  "rx_dylib_name \<equiv> Cat (Grp ''shortname'' (Rep 1 None False is_word)) rx_dylib_tail"

lemma DYLIB_RE_name: "DYLIB_RE = cats (rx_location @ [Grp ''name'' rx_dylib_name])"
  by (simp add: DYLIB_RE_def rx_dylib_tail_def)

lemma run_dylib_tail:
  assumes "k \<le> length s"
  shows "(j, e) \<in> set (run rx_dylib_tail s (k, c)) \<longleftrightarrow>
    (\<exists>version suffix. at s k (dylib_tail version suffix) \<and> opt_ok part_char version \<and> opt_ok part_char suffix
      \<and> j = k + length (dylib_tail version suffix) \<and> drop j s \<in> {[], [newline]}
      \<and> e = opt_capture ''suffix'' suffix @ opt_capture ''version'' version @ c)"
    (is "?l \<longleftrightarrow> ?r")
proof
  assume ?l
  then obtain k2 e2 k3 e3 k4 e4 where
    m: "(k2, e2) \<in> set (run (Opt (Cat (Lit ''.'') (Grp ''version'' (Rep 1 None True part_char)))) s (k, c))"
    "(k3, e3) \<in> set (run (Opt (Cat (Lit ''_'') (Grp ''suffix'' (Rep 1 None True part_char)))) s (k2, e2))"
    "(k4, e4) \<in> set (run (Lit ''.dylib'') s (k3, e3))" "(j, e) \<in> set (run Eol s (k4, e4))"
    unfolding rx_dylib_tail_def cats.simps mem_run_Cat by blast
  from m(1) obtain version where version: "at s k (opt_part ''.'' version)" "opt_ok part_char version"
    "k2 = k + length (opt_part ''.'' version)" "e2 = opt_capture ''version'' version @ c" unfolding piece_Opt [OF assms] by blast
  note b2 = piece_bound [OF version(1,3)]
  from m(2) obtain suffix where suffix: "at s k2 (opt_part ''_'' suffix)" "opt_ok part_char suffix"
    "k3 = k2 + length (opt_part ''_'' suffix)" "e3 = opt_capture ''suffix'' suffix @ e2" unfolding piece_Opt [OF b2] by blast
  note b3 = piece_bound [OF suffix(1,3)]
  from m(3) have lit: "at s k3 ''.dylib''" "k4 = k3 + length ''.dylib''" "e4 = e3" unfolding piece_Lit [OF b3] by blast+
  note b4 = piece_bound [OF lit(1,2)]
  from m(4) have "j = k4" "e = e4" "drop k4 s \<in> {[], [newline]}" unfolding piece_Eol [OF b4] by blast+
  with version suffix lit show ?r
    by (intro exI [where x = version] exI [where x = suffix]) (auto simp: dylib_tail_def at_append)
next
  assume ?r
  then obtain version suffix where p: "at s k (dylib_tail version suffix)"
    "opt_ok part_char version" "opt_ok part_char suffix" "j = k + length (dylib_tail version suffix)"
    "drop j s \<in> {[], [newline]}" "e = opt_capture ''suffix'' suffix @ opt_capture ''version'' version @ c" by blast
  let ?k2 = "k + length (opt_part ''.'' version)" let ?k3 = "?k2 + length (opt_part ''_'' suffix)"
  from p(1) have a: "at s k (opt_part ''.'' version)" "at s ?k2 (opt_part ''_'' suffix)" "at s ?k3 ''.dylib''"
    unfolding dylib_tail_def at_append by (simp_all add: add.assoc)
  have j: "j = ?k3 + length ''.dylib''" using p(4) by (simp add: dylib_tail_def)
  note b = at_length [OF a(1)] at_length [OF a(2)] at_length [OF a(3), folded j]
  have "(?k2, opt_capture ''version'' version @ c)
      \<in> set (run (Opt (Cat (Lit ''.'') (Grp ''version'' (Rep 1 None True part_char)))) s (k, c))"
    unfolding piece_Opt [OF assms] using a(1) p(2) by blast
  moreover have "(?k3, e)
      \<in> set (run (Opt (Cat (Lit ''_'') (Grp ''suffix'' (Rep 1 None True part_char)))) s (?k2, opt_capture ''version'' version @ c))"
    unfolding piece_Opt [OF b(1)] p(6) using a(2) p(3) by blast
  moreover have "(j, e) \<in> set (run (Lit ''.dylib'') s (?k3, e))" unfolding piece_Lit [OF b(2)] using a(3) j by blast
  moreover have "(j, e) \<in> set (run Eol s (j, e))" unfolding piece_Eol [OF b(3)] using p(5) by blast
  ultimately show ?l unfolding rx_dylib_tail_def cats.simps mem_run_Cat by blast
qed

text \<open>Every way to take a text apart is one the engine can take.\<close>

lemma dylib_parts_run:
  assumes "dylib_parts_ok (loc, sep, short, version, suffix, nl)" "f = dylib_file (loc, sep, short, version, suffix, nl)"
  shows "at f 0 (loc @ sep)" "location_ok loc sep"
    "(length (loc @ sep) + length short, (''shortname'', short) # c)
      \<in> set (run (Grp ''shortname'' (Rep 1 None False is_word)) f (length (loc @ sep), c))"
    "run rx_dylib_tail f (length (loc @ sep) + length short, d) \<noteq> []"
    "run (Grp ''name'' rx_dylib_name) f (length (loc @ sep), c) \<noteq> []"
proof -
  let ?k = "length (loc @ sep)" and ?t = "dylib_tail version suffix"
  have a: "at f 0 (loc @ sep)" "at f ?k short" "at f (?k + length short) ?t"
    using assms(2) at_self [of "[]" "loc @ sep" "short @ ?t @ nl"] at_self [of "loc @ sep" short "?t @ nl"]
      at_self [of "loc @ sep @ short" ?t nl] by (simp_all add: dylib_base_def add.assoc)
  then show "at f 0 (loc @ sep)" "location_ok loc sep" using assms(1) by simp_all
  have k: "?k \<le> length f" and k1: "?k + length short \<le> length f" using at_length [OF a(1)] at_length [OF a(2)] by simp_all
  show m: "(?k + length short, (''shortname'', short) # c) \<in> set (run (Grp ''shortname'' (Rep 1 None False is_word)) f (?k, c))" for c
    unfolding piece_Class [OF k] using a(2) assms(1) by (auto simp: Suc_le_eq)
  have "drop (?k + length short + length ?t) f = nl" using assms(2) by (simp add: dylib_base_def)
  then have "(?k + length short + length ?t, opt_capture ''suffix'' suffix @ opt_capture ''version'' version @ d)
      \<in> set (run rx_dylib_tail f (?k + length short, d))" for d
    unfolding run_dylib_tail [OF k1] using a(3) assms(1) by (intro exI [where x = version] exI [where x = suffix]) auto
  then show t: "run rx_dylib_tail f (?k + length short, d) \<noteq> []" for d by (metis empty_iff empty_set)
  have "run rx_dylib_name f (?k, c) \<noteq> []" unfolding run_Cat_concat using m [of c] t by (force simp del: run.simps)
  then show "run (Grp ''name'' rx_dylib_name) f (?k, c) \<noteq> []" by (simp del: run.simps(2,3))
qed

text \<open>Which of two ways to take a name apart the pattern of a library prefers.\<close>

fun dylib_prefers :: "dylib_parts \<Rightarrow> dylib_parts \<Rightarrow> bool" where
  "dylib_prefers (loc, sep, short, version, suffix, nl) (loc', sep', short', version', suffix', nl') \<longleftrightarrow>
     length loc' < length loc \<or> loc' = loc \<and> length short \<le> length short'"

definition dylib_best :: "string \<Rightarrow> dylib_parts \<Rightarrow> bool" where
  "dylib_best f p \<longleftrightarrow> dylib_parts_ok p \<and> f = dylib_file p \<and> (\<forall>q. dylib_parts_ok q \<and> f = dylib_file q \<longrightarrow> dylib_prefers p q)"

lemma dylib_run_parts:
  assumes "at f 0 (loc @ sep)" "location_ok loc sep"
    and short: "u \<in> set (run (Grp ''shortname'' (Rep 1 None False is_word)) f (length (loc @ sep), [(''location'', loc)]))"
    and tail: "(j, e) \<in> set (run rx_dylib_tail f u)"
  obtains short version suffix where "fst u = length (loc @ sep) + length short"
    "dylib_parts_ok (loc, sep, short, version, suffix, drop j f)" "f = dylib_file (loc, sep, short, version, suffix, drop j f)"
    "(''name'', take (j - length (loc @ sep)) (drop (length (loc @ sep)) f)) # e
       = dylib_captures (loc, sep, short, version, suffix, drop j f)"
proof -
  have k: "length (loc @ sep) \<le> length f" using at_length [OF assms(1)] by simp
  obtain k1 d where u: "u = (k1, d)" by force
  from short obtain short where s: "at f (length (loc @ sep)) short" "list_all is_word short" "1 \<le> length short"
    "k1 = length (loc @ sep) + length short" "d = [(''shortname'', short), (''location'', loc)]"
    unfolding u piece_Class [OF k] by auto
  note k1 = piece_bound [OF s(1,4)]
  from tail obtain version suffix where t: "at f k1 (dylib_tail version suffix)" "opt_ok part_char version"
    "opt_ok part_char suffix" "j = k1 + length (dylib_tail version suffix)" "drop j f \<in> {[], [newline]}"
    "e = opt_capture ''suffix'' suffix @ opt_capture ''version'' version @ d"
    unfolding u run_dylib_tail [OF k1] by blast
  have b: "at f (length (loc @ sep)) (dylib_base short version suffix)"
    using s(1,4) t(1) by (simp add: dylib_base_def at_append add.assoc)
  have j: "j = length (loc @ sep) + length (dylib_base short version suffix)" using s(4) t(4) by (simp add: dylib_base_def)
  show thesis
  proof (rule that)
    show "fst u = length (loc @ sep) + length short" using u s(4) by simp
    show "dylib_parts_ok (loc, sep, short, version, suffix, drop j f)" using assms(2) s(2,3) t(2,3,5) by auto
    show "f = dylib_file (loc, sep, short, version, suffix, drop j f)" using at_split [OF assms(1) b] unfolding j by simp
    show "(''name'', take (j - length (loc @ sep)) (drop (length (loc @ sep)) f)) # e
       = dylib_captures (loc, sep, short, version, suffix, drop j f)" using at_take [OF b] s(5) t(6) unfolding j by simp
  qed
qed

lemma dylib_match_None: "re_match DYLIB_RE f = None \<longleftrightarrow> (\<nexists>p. dylib_parts_ok p \<and> f = dylib_file p)"
proof -
  have "(\<exists>loc sep. at f 0 (loc @ sep) \<and> location_ok loc sep \<and> run (Grp ''name'' rx_dylib_name) f (length (loc @ sep), [(''location'', loc)]) \<noteq> [])
      \<longleftrightarrow> (\<exists>p. dylib_parts_ok p \<and> f = dylib_file p)" (is "?l \<longleftrightarrow> ?r")
  proof
    assume ?l
    then obtain loc sep where l: "at f 0 (loc @ sep)" "location_ok loc sep"
      "run rx_dylib_name f (length (loc @ sep), [(''location'', loc)]) \<noteq> []" by (auto simp del: run.simps(2,3))
    then obtain u where u: "u \<in> set (run (Grp ''shortname'' (Rep 1 None False is_word)) f (length (loc @ sep), [(''location'', loc)]))"
      "run rx_dylib_tail f u \<noteq> []" unfolding run_Cat_nonempty by blast
    then obtain j e where "(j, e) \<in> set (run rx_dylib_tail f u)" by (metis ex_in_conv set_empty prod.collapse)
    from dylib_run_parts [OF l(1,2) u(1) this] show ?r by blast
  next
    assume ?r
    then show ?l using dylib_parts_run(1,2,5) by (metis prod_cases6)
  qed
  then show ?thesis unfolding re_match_def DYLIB_RE_name first_location_None by blast
qed

lemma dylib_match_Some:
  assumes "re_match DYLIB_RE f = Some (j, c)"
  shows "\<exists>p. dylib_best f p \<and> c = dylib_captures p"
proof -
  from assms obtain loc sep where l: "at f 0 (loc @ sep)" "location_ok loc sep"
    "first_match (run (Grp ''name'' rx_dylib_name) f (length (loc @ sep), [(''location'', loc)])) = Some (j, c)"
    and far: "\<forall>l p. at f 0 (l @ p) \<longrightarrow> location_ok l p \<longrightarrow> run (Grp ''name'' rx_dylib_name) f (length (l @ p), [(''location'', l)]) \<noteq> []
       \<longrightarrow> length l \<le> length loc"
    unfolding re_match_def DYLIB_RE_name using first_location by blast
  let ?k = "length (loc @ sep)"
  from l(3) obtain e where e: "first_match (run rx_dylib_name f (?k, [(''location'', loc)])) = Some (j, e)"
    "c = (''name'', take (j - ?k) (drop ?k f)) # e" unfolding first_Grp by auto
  from first_Cat_sorted [OF e(1) sorted_Class] obtain u where
    u: "u \<in> set (run (Grp ''shortname'' (Rep 1 None False is_word)) f (?k, [(''location'', loc)]))"
      "first_match (run rx_dylib_tail f u) = Some (j, e)"
    and near: "\<And>v. v \<in> set (run (Grp ''shortname'' (Rep 1 None False is_word)) f (?k, [(''location'', loc)]))
       \<Longrightarrow> run rx_dylib_tail f v \<noteq> [] \<Longrightarrow> v = u \<or> fst u < fst v" by (auto simp del: run.simps)
  from dylib_run_parts [OF l(1,2) u(1) first_match_member [OF u(2)]] e(2)
  obtain short version suffix where p: "fst u = ?k + length short"
    "dylib_parts_ok (loc, sep, short, version, suffix, drop j f)" "f = dylib_file (loc, sep, short, version, suffix, drop j f)"
    "c = dylib_captures (loc, sep, short, version, suffix, drop j f)" by metis
  have "dylib_prefers (loc, sep, short, version, suffix, drop j f) q" if q: "dylib_parts_ok q" "f = dylib_file q" for q
  proof -
    obtain loc' sep' short' version' suffix' nl' where q': "q = (loc', sep', short', version', suffix', nl')" by (metis prod_cases6)
    note r = dylib_parts_run [OF q [unfolded q']]
    have le: "length loc' \<le> length loc" using far r(1,2,5) by blast
    show ?thesis
    proof (cases "length loc' < length loc")
      case False
      have ff: "dylib_file (loc', sep', short', version', suffix', nl') = dylib_file (loc, sep, short, version, suffix, drop j f)"
        using q(2) q' p(3) by metis
      from arg_cong [OF ff, of "take (length loc)"] le False have loc: "loc' = loc" by simp
      have "sep' = sep"
      proof (rule sep_unique)
        show "location_ok loc sep'" "location_ok loc sep" using r(2) l(2) loc by simp_all
        show "list_all is_word short'" "list_all is_word short" "short' \<noteq> []" "short \<noteq> []" using q q' p(2) by auto
        show "loc @ sep' @ short' @ dylib_tail version' suffix' @ nl' = loc @ sep @ short @ dylib_tail version suffix @ drop j f"
          using ff loc by (simp add: dylib_base_def)
      qed
      with r(3,4) loc near [of "(?k + length short', [(''shortname'', short'), (''location'', loc)])"] p(1)
      show ?thesis unfolding q' by auto
    qed (simp add: q')
  qed
  with p show ?thesis unfolding dylib_best_def by blast
qed

text \<open>Given the location and the short name there is one way only.\<close>

lemma span_unique:
  assumes "list_all P a" "list_all P b" "a @ x = b @ y" "x \<noteq> [] \<Longrightarrow> \<not> P (hd x)" "y \<noteq> [] \<Longrightarrow> \<not> P (hd y)"
  shows "a = b" "x = y"
proof -
  have "takeWhile P (a @ x) = a" if "list_all P a" "x \<noteq> [] \<Longrightarrow> \<not> P (hd x)" for a x
    using that by (cases x) (auto simp: list_all_iff)
  from this [of a x] this [of b y] assms show "a = b" by metis
  with assms(3) show "x = y" by simp
qed

lemma dylib_tail_unique:
  assumes "opt_ok part_char v" "opt_ok part_char v'" "opt_ok part_char w" "opt_ok part_char w'"
    and nl: "nl \<in> {[], [newline]}" "nl' \<in> {[], [newline]}" and eq: "dylib_tail v w @ nl = dylib_tail v' w' @ nl'"
  shows "v = v' \<and> w = w' \<and> nl = nl'"
proof -
  have dot: "\<And>x. opt_ok part_char x \<Longrightarrow> CHR ''.'' \<notin> set (case x of None \<Rightarrow> [] | Some t \<Rightarrow> t)"
    by (auto simp: opt_ok_def list_all_iff split: option.split)
  have n: "newline \<noteq> CHR ''.''" "newline \<noteq> CHR ''_''" by code_simp+
  have end_part: "opt_part ''_'' w @ ''.dylib'' @ nl = opt_part ''_'' w' @ ''.dylib'' @ nl' \<Longrightarrow> w = w' \<and> nl = nl'"
  proof (cases w; cases w')
    fix a b assume a: "w = Some a" "w' = Some b" "opt_part ''_'' w @ ''.dylib'' @ nl = opt_part ''_'' w' @ ''.dylib'' @ nl'"
    then have "a @ (''.dylib'' @ nl) = b @ (''.dylib'' @ nl')" by (simp add: opt_part_def)
    from span_unique [OF _ _ this, of part_char] a assms(3,4) show "w = w' \<and> nl = nl'" by (auto simp: opt_ok_def)
  qed (auto simp: opt_part_def)
  have version_part: False if "opt_ok part_char a" "opt_ok part_char w" "opt_ok part_char w'" "a = Some t"
      "opt_part ''.'' a @ opt_part ''_'' w @ ''.dylib'' @ nl = opt_part ''_'' w' @ ''.dylib'' @ nl'"
      "nl' \<in> {[], [newline]}" for a t w w' nl nl'
  proof (cases w')
    case None
    with that(4,5) have e: "t @ opt_part ''_'' w @ ''.dylib'' @ nl = ''dylib'' @ nl'" by (simp add: opt_part_def)
    have "CHR ''.'' \<in> set (t @ opt_part ''_'' w @ ''.dylib'' @ nl)" by simp
    then show False using that(6) n unfolding e by auto
  qed (use that in \<open>auto simp: opt_part_def\<close>)
  show ?thesis
  proof (cases v; cases v')
    assume "v = None" "v' = None"
    with eq end_part show ?thesis by (auto simp: dylib_tail_def opt_part_def)
  next
    fix a assume "v = None" "v' = Some a"
    with version_part [of v' w' w a nl' nl] eq assms show ?thesis by (simp add: dylib_tail_def opt_part_def)
  next
    fix a assume "v = Some a" "v' = None"
    with version_part [of v w w' a nl nl'] eq assms show ?thesis by (simp add: dylib_tail_def opt_part_def)
  next
    fix a b assume v: "v = Some a" "v' = Some b"
    with eq have e: "a @ (opt_part ''_'' w @ ''.dylib'' @ nl) = b @ (opt_part ''_'' w' @ ''.dylib'' @ nl')"
      by (simp add: dylib_tail_def opt_part_def)
    have h: "\<not> part_char (hd (opt_part ''_'' x @ ''.dylib'' @ m))" for x m by (cases x) (auto simp: opt_part_def)
    have "a = b" "opt_part ''_'' w @ ''.dylib'' @ nl = opt_part ''_'' w' @ ''.dylib'' @ nl'"
      using span_unique [OF _ _ e, of part_char] h v assms(1,2) by (auto simp: opt_ok_def)
    with v end_part show ?thesis by simp
  qed
qed

lemma dylib_best_unique:
  assumes "dylib_best f p" "dylib_best f q"
  shows "p = q"
proof -
  obtain loc sep short version suffix nl where p: "p = (loc, sep, short, version, suffix, nl)" by (metis prod_cases6)
  obtain loc' sep' short' version' suffix' nl' where q: "q = (loc', sep', short', version', suffix', nl')" by (metis prod_cases6)
  have ok: "dylib_parts_ok p" "dylib_parts_ok q" and eq: "dylib_file p = dylib_file q"
    using assms unfolding dylib_best_def by metis+
  have pq: "dylib_prefers p q" "dylib_prefers q p" using assms unfolding dylib_best_def by blast+
  then have loc: "loc' = loc" and len: "length short' = length short" unfolding p q by auto
  have eq': "loc @ sep @ short @ dylib_tail version suffix @ nl = loc @ sep' @ short' @ dylib_tail version' suffix' @ nl'"
    using eq unfolding p q by (simp add: dylib_base_def loc)
  have "sep = sep'" using ok loc unfolding p q by (intro sep_unique [OF _ _ _ _ _ _ eq']) auto
  with eq' len have "short = short'" "dylib_tail version suffix @ nl = dylib_tail version' suffix' @ nl'" by simp_all
  with ok dylib_tail_unique [of version version' suffix suffix' nl nl'] \<open>sep = sep'\<close> loc show ?thesis unfolding p q by auto
qed

text \<open>C30: \<open>dylib_info\<close> on every text: it answers exactly for the file names of a library, \<open>Location/Name.Version_Suffix.dylib\<close>
  with optional location, version and suffix (a line end at the end is tolerated). Among the ways to take the name
  apart it returns the one with the longest location and, then, the shortest short name; the parts put together again
  give the file name.\<close>

theorem dylib_info_parts:
  "(dylib_info f = None \<longleftrightarrow> (\<nexists>p. dylib_parts_ok p \<and> f = dylib_file p))
   \<and> (dylib_info f = Some d \<longleftrightarrow> (\<exists>p. dylib_best f p \<and> d = dylib_dict p))"
proof (cases "re_match DYLIB_RE f")
  case None
  then have "dylib_info f = None" by (simp add: dylib_info_def)
  moreover have "\<nexists>p. dylib_parts_ok p \<and> f = dylib_file p" using None dylib_match_None by blast
  ultimately show ?thesis unfolding dylib_best_def by simp blast
next
  case (Some x)
  obtain j c where x: "re_match DYLIB_RE f = Some (j, c)" using Some by (cases x) simp
  from dylib_match_Some [OF x] obtain p where p: "dylib_best f p" "c = dylib_captures p" by blast
  have "dylib_info f = Some (dylib_dict p)" using x p(2) groupdict_dylib by (simp add: dylib_info_def)
  moreover have "dylib_parts_ok p" "f = dylib_file p" using p(1) unfolding dylib_best_def by blast+
  ultimately show ?thesis using p(1) dylib_best_unique [OF p(1)] by (metis option.distinct(1) option.inject)
qed

section \<open>Framework names\<close>

text \<open>The parts of a framework name: location, separator, short name, the character where the documentation shows a
  dot, version, suffix.\<close>

type_synonym framework_parts = "string \<times> string \<times> string \<times> char \<times> string option \<times> string option"

abbreviation version_char :: "char \<Rightarrow> bool" where
  "version_char \<equiv> (\<lambda>c. c \<noteq> CHR ''/'')"

abbreviation suffix_char :: "char \<Rightarrow> bool" where
  "suffix_char \<equiv> (\<lambda>c. c \<noteq> CHR ''_'')"

definition framework_tail :: "string \<Rightarrow> char \<Rightarrow> string option \<Rightarrow> string option \<Rightarrow> string" where
  "framework_tail short x version suffix =
     [x] @ ''framework/'' @ opt_between ''Versions/'' ''/'' version @ short @ opt_part ''_'' suffix"

fun framework_parts_ok :: "framework_parts \<Rightarrow> bool" where
  "framework_parts_ok (loc, sep, short, x, version, suffix) \<longleftrightarrow>
     location_ok loc sep \<and> short \<noteq> [] \<and> list_all is_word short \<and> x \<noteq> newline
     \<and> opt_ok version_char version \<and> opt_ok suffix_char suffix"

fun framework_file :: "framework_parts \<Rightarrow> string" where
  "framework_file (loc, sep, short, x, version, suffix) = loc @ sep @ short @ framework_tail short x version suffix"

fun framework_dict :: "framework_parts \<Rightarrow> dict" where
  "framework_dict (loc, sep, short, x, version, suffix) =
     [(''location'', VStr loc), (''name'', VStr (short @ framework_tail short x version suffix)), (''shortname'', VStr short),
      (''version'', opt_val version), (''suffix'', opt_val suffix)]"

fun framework_captures :: "framework_parts \<Rightarrow> captures" where
  "framework_captures (loc, sep, short, x, version, suffix) =
     (''name'', short @ framework_tail short x version suffix)
     # opt_capture ''suffix'' suffix @ opt_capture ''version'' version @ [(''shortname'', short), (''location'', loc)]"

lemma groupdict_framework: "groupdict info_groups (framework_captures p) = framework_dict p"
  by (cases p) (auto simp: groupdict_def info_groups_def opt_capture_def opt_val_def split: option.splits)

definition rx_version :: rx where
  "rx_version = Opt (cats [Lit ''Versions/'', Grp ''version'' (Rep 1 None True version_char), Lit ''/''])"

definition rx_framework_tail :: rx where
  "rx_framework_tail = cats
     [Rep 1 (Some 1) True (\<lambda>c. c \<noteq> newline), Lit ''framework/'',
      rx_version, Ref ''shortname'', Opt (Cat (Lit ''_'') (Grp ''suffix'' (Rep 1 None True suffix_char)))]"

abbreviation rx_framework_name :: rx where
  "rx_framework_name \<equiv> Cat (Grp ''shortname'' (Rep 1 None True is_word)) rx_framework_tail"

lemma STRICT_FRAMEWORK_RE_name: "STRICT_FRAMEWORK_RE = cats (rx_location @ [Cat (Grp ''name'' rx_framework_name) Eol])"
  by (simp add: STRICT_FRAMEWORK_RE_def rx_location_def rx_framework_tail_def rx_version_def)

lemma run_framework_tail:
  assumes "k \<le> length s" "map_of c ''shortname'' = Some short"
  shows "(j, e) \<in> set (run rx_framework_tail s (k, c)) \<longleftrightarrow>
    (\<exists>x version suffix. at s k (framework_tail short x version suffix) \<and> x \<noteq> newline
      \<and> opt_ok version_char version \<and> opt_ok suffix_char suffix \<and> j = k + length (framework_tail short x version suffix)
      \<and> e = opt_capture ''suffix'' suffix @ opt_capture ''version'' version @ c)"
    (is "?l \<longleftrightarrow> ?r")
proof
  assume ?l
  then obtain k1 e1 k2 e2 k3 e3 k4 e4 where
    m: "(k1, e1) \<in> set (run (Rep 1 (Some 1) True (\<lambda>c. c \<noteq> newline)) s (k, c))"
    "(k2, e2) \<in> set (run (Lit ''framework/'') s (k1, e1))"
    "(k3, e3) \<in> set (run rx_version s (k2, e2))"
    "(k4, e4) \<in> set (run (Ref ''shortname'') s (k3, e3))"
    "(j, e) \<in> set (run (Opt (Cat (Lit ''_'') (Grp ''suffix'' (Rep 1 None True suffix_char)))) s (k4, e4))"
    unfolding rx_framework_tail_def cats.simps mem_run_Cat by (elim exE conjE) (rule that)
  from m(1) obtain t where t: "at s k t" "list_all (\<lambda>c. c \<noteq> newline) t" "length t = 1" "k1 = k + length t" "e1 = c"
    unfolding piece_Rep [OF assms(1)] by auto
  obtain x where x: "t = [x]" "x \<noteq> newline" using t(2,3) by (cases t) auto
  note b1 = piece_bound [OF t(1,4)]
  from m(2) have lit: "at s k1 ''framework/''" "k2 = k1 + length ''framework/''" "e2 = e1" unfolding piece_Lit [OF b1] by blast+
  note b2 = piece_bound [OF lit(1,2)]
  from m(3) obtain version where version: "at s k2 (opt_between ''Versions/'' ''/'' version)" "opt_ok version_char version"
    "k3 = k2 + length (opt_between ''Versions/'' ''/'' version)" "e3 = opt_capture ''version'' version @ e2"
    unfolding rx_version_def piece_Opt_between [OF b2] by blast
  note b3 = piece_bound [OF version(1,3)]
  have sn: "map_of e3 ''shortname'' = Some short" using assms(2) version(4) lit(3) t(5) by (simp add: opt_capture_def split: option.split)
  from m(4) have ref: "at s k3 short" "k4 = k3 + length short" "e4 = e3" unfolding piece_Ref [OF b3 sn] by blast+
  note b4 = piece_bound [OF ref(1,2)]
  from m(5) obtain suffix where suffix: "at s k4 (opt_part ''_'' suffix)" "opt_ok suffix_char suffix"
    "j = k4 + length (opt_part ''_'' suffix)" "e = opt_capture ''suffix'' suffix @ e4" unfolding piece_Opt [OF b4] by blast
  have "at s k (framework_tail short x version suffix)" unfolding framework_tail_def at_append
    using t(1,4) x(1) lit(1,2) version(1,3) ref(1,2) suffix(1) by simp
  moreover have "j = k + length (framework_tail short x version suffix)"
    using t(4) x(1) lit(2) version(3) ref(2) suffix(3) by (simp add: framework_tail_def)
  moreover have "e = opt_capture ''suffix'' suffix @ opt_capture ''version'' version @ c"
    using t(5) lit(3) version(4) ref(3) suffix(4) by simp
  ultimately show ?r using x(2) version(2) suffix(2) by blast
next
  assume ?r
  then obtain x version suffix where p: "at s k (framework_tail short x version suffix)" "x \<noteq> newline"
    "opt_ok version_char version" "opt_ok suffix_char suffix" "j = k + length (framework_tail short x version suffix)"
    "e = opt_capture ''suffix'' suffix @ opt_capture ''version'' version @ c" by blast
  let ?k1 = "k + length [x]" let ?k2 = "?k1 + length ''framework/''"
  let ?k3 = "?k2 + length (opt_between ''Versions/'' ''/'' version)" let ?k4 = "?k3 + length short"
  let ?e3 = "opt_capture ''version'' version @ c"
  from p(1) have a: "at s k [x]" "at s ?k1 ''framework/''" "at s ?k2 (opt_between ''Versions/'' ''/'' version)" "at s ?k3 short"
    "at s ?k4 (opt_part ''_'' suffix)" unfolding framework_tail_def at_append by (simp_all add: add.assoc)
  note b = at_length [OF a(1)] at_length [OF a(2)] at_length [OF a(3)] at_length [OF a(4)]
  have j: "j = ?k4 + length (opt_part ''_'' suffix)" using p(5) by (simp add: framework_tail_def)
  have sn: "map_of ?e3 ''shortname'' = Some short" using assms(2) by (simp add: opt_capture_def split: option.split)
  have "(?k1, c) \<in> set (run (Rep 1 (Some 1) True (\<lambda>c. c \<noteq> newline)) s (k, c))"
    unfolding piece_Rep [OF assms(1)] using a(1) p(2) by (intro exI [where x = "[x]"]) simp
  moreover have "(?k2, c) \<in> set (run (Lit ''framework/'') s (?k1, c))" unfolding piece_Lit [OF b(1)] using a(2) by blast
  moreover have "(?k3, ?e3)
      \<in> set (run rx_version s (?k2, c))"
    unfolding rx_version_def piece_Opt_between [OF b(2)] using a(3) p(3) by blast
  moreover have "(?k4, ?e3) \<in> set (run (Ref ''shortname'') s (?k3, ?e3))" unfolding piece_Ref [OF b(3) sn] using a(4) by blast
  moreover have "(j, e) \<in> set (run (Opt (Cat (Lit ''_'') (Grp ''suffix'' (Rep 1 None True suffix_char)))) s (?k4, ?e3))"
    unfolding piece_Opt [OF b(4)] j p(6) using a(5) p(4) by blast
  ultimately show ?l unfolding rx_framework_tail_def cats.simps mem_run_Cat by blast
qed

text \<open>Texts without a line end; a trailing one could belong to the suffix.\<close>

lemma framework_parts_run:
  assumes "framework_parts_ok (loc, sep, short, x, version, suffix)" "f = framework_file (loc, sep, short, x, version, suffix)"
  shows "at f 0 (loc @ sep)" "location_ok loc sep"
    "(length (loc @ sep) + length short, (''shortname'', short) # c)
      \<in> set (run (Grp ''shortname'' (Rep 1 None True is_word)) f (length (loc @ sep), c))"
    "\<exists>e. (length f, e) \<in> set (run rx_framework_tail f (length (loc @ sep) + length short, (''shortname'', short) # c))"
    "run (Cat (Grp ''name'' rx_framework_name) Eol) f (length (loc @ sep), c) \<noteq> []"
proof -
  let ?k = "length (loc @ sep)" and ?t = "framework_tail short x version suffix"
  have a: "at f 0 (loc @ sep)" "at f ?k short" "at f (?k + length short) ?t"
    using assms(2) at_self [of "[]" "loc @ sep" "short @ ?t"] at_self [of "loc @ sep" short ?t]
      at_self [of "loc @ sep @ short" ?t "[]"] by (simp_all add: add.assoc)
  then show "at f 0 (loc @ sep)" "location_ok loc sep" using assms(1) by simp_all
  have k: "?k \<le> length f" and k1: "?k + length short \<le> length f" using at_length [OF a(1)] at_length [OF a(2)] by simp_all
  show m: "(?k + length short, (''shortname'', short) # c) \<in> set (run (Grp ''shortname'' (Rep 1 None True is_word)) f (?k, c))" for c
    unfolding piece_Class [OF k] using a(2) assms(1) by (auto simp: Suc_le_eq)
  have j: "length f = ?k + length short + length ?t" using assms(2) by simp
  show t: "\<exists>e. (length f, e) \<in> set (run rx_framework_tail f (?k + length short, (''shortname'', short) # c))" for c
  proof
    show "(length f, opt_capture ''suffix'' suffix @ opt_capture ''version'' version @ (''shortname'', short) # c)
        \<in> set (run rx_framework_tail f (?k + length short, (''shortname'', short) # c))"
      using run_framework_tail [OF k1, of "(''shortname'', short) # c" short] a(3) assms(1) j by auto
  qed
  from m [of c] t [of c] obtain e where "(length f, e) \<in> set (run rx_framework_name f (?k, c))"
    unfolding mem_run_Cat by blast
  then have "(length f, (''name'', take (length f - ?k) (drop ?k f)) # e) \<in> set (run (Grp ''name'' rx_framework_name) f (?k, c))"
    unfolding mem_run_Grp by blast
  moreover have "run Eol f (length f, d) \<noteq> []" for d by simp
  ultimately show "run (Cat (Grp ''name'' rx_framework_name) Eol) f (?k, c) \<noteq> []" unfolding run_Cat_nonempty by blast
qed

fun framework_prefers :: "framework_parts \<Rightarrow> framework_parts \<Rightarrow> bool" where
  "framework_prefers (loc, sep, short, x, version, suffix) (loc', sep', short', x', version', suffix') \<longleftrightarrow>
     length loc' < length loc \<or> loc' = loc \<and> length short' \<le> length short"

definition framework_best :: "string \<Rightarrow> framework_parts \<Rightarrow> bool" where
  "framework_best f p \<longleftrightarrow>
     framework_parts_ok p \<and> f = framework_file p \<and> (\<forall>q. framework_parts_ok q \<and> f = framework_file q \<longrightarrow> framework_prefers p q)"

lemma framework_run_parts:
  assumes "newline \<notin> set f" "at f 0 (loc @ sep)" "location_ok loc sep"
    and short: "u \<in> set (run (Grp ''shortname'' (Rep 1 None True is_word)) f (length (loc @ sep), [(''location'', loc)]))"
    and tail: "(j, e) \<in> set (run rx_framework_tail f u)" and eol: "run Eol f (j, d) \<noteq> []"
  obtains short x version suffix where "fst u = length (loc @ sep) + length short"
    "framework_parts_ok (loc, sep, short, x, version, suffix)" "f = framework_file (loc, sep, short, x, version, suffix)"
    "(''name'', take (j - length (loc @ sep)) (drop (length (loc @ sep)) f)) # e
       = framework_captures (loc, sep, short, x, version, suffix)"
proof -
  have k: "length (loc @ sep) \<le> length f" using at_length [OF assms(2)] by simp
  obtain k1 c where u: "u = (k1, c)" by force
  from short obtain short where s: "at f (length (loc @ sep)) short" "list_all is_word short" "1 \<le> length short"
    "k1 = length (loc @ sep) + length short" "c = [(''shortname'', short), (''location'', loc)]"
    unfolding u piece_Class [OF k] by auto
  note k1 = piece_bound [OF s(1,4)]
  have sn: "map_of c ''shortname'' = Some short" using s(5) by simp
  from tail obtain x version suffix where t: "at f k1 (framework_tail short x version suffix)" "x \<noteq> newline"
    "opt_ok version_char version" "opt_ok suffix_char suffix" "j = k1 + length (framework_tail short x version suffix)"
    "e = opt_capture ''suffix'' suffix @ opt_capture ''version'' version @ c"
    unfolding u run_framework_tail [OF k1 sn] by blast
  have jl: "j \<le> length f" using at_length [OF t(1)] t(5) by simp
  from eol have "drop j f \<in> {[], [newline]}" using piece_Eol [OF jl] by (metis ex_in_conv set_empty prod.collapse)
  moreover have "drop j f \<noteq> [newline]" using assms(1) by (metis in_set_dropD list.set_intros(1))
  ultimately have dr: "drop j f = []" by simp
  let ?n = "short @ framework_tail short x version suffix"
  have b: "at f (length (loc @ sep)) ?n" using s(1,4) t(1) by (simp add: at_append)
  have j: "j = length (loc @ sep) + length ?n" using s(4) t(5) by simp
  show thesis
  proof (rule that)
    show "fst u = length (loc @ sep) + length short" using u s(4) by simp
    show "framework_parts_ok (loc, sep, short, x, version, suffix)" using assms(3) s(2,3) t(2,3,4) by auto
    show "f = framework_file (loc, sep, short, x, version, suffix)" using at_split [OF assms(2) b] dr unfolding j by simp
    show "(''name'', take (j - length (loc @ sep)) (drop (length (loc @ sep)) f)) # e
       = framework_captures (loc, sep, short, x, version, suffix)" using at_take [OF b] s(5) t(6) unfolding j by simp
  qed
qed

text \<open>The matches of a framework name, by the short name they begin with.\<close>

definition framework_ends :: "string \<Rightarrow> nat \<Rightarrow> nat \<times> captures \<Rightarrow> (nat \<times> captures) list" where
  "framework_ends f k u = concat (map (run Eol f) (map (\<lambda>(j, d). (j, (''name'', take (j - k) (drop k f)) # d)) (run rx_framework_tail f u)))"

lemma concat_map_concat: "concat (map h (concat xss)) = concat (map (\<lambda>xs. concat (map h xs)) xss)"
  by (induction xss) auto

lemma concat_concat: "concat (concat xss) = concat (map concat xss)"
  by (induction xss) auto

lemma concat_map_nonempty: "concat (map F xs) \<noteq> [] \<longleftrightarrow> (\<exists>u \<in> set xs. F u \<noteq> [])"
  by auto

lemma run_framework_ends:
  "run (Cat (Grp ''name'' rx_framework_name) Eol) f (k, c)
    = concat (map (framework_ends f k) (run (Grp ''shortname'' (Rep 1 None True is_word)) f (k, c)))"
  unfolding run_Cat_concat [of "Grp _ _"] run.simps(6) [of "''name''"] run_Cat_concat [of "Grp ''shortname'' _"]
    map_concat framework_ends_def by (simp add: comp_def concat_concat del: run.simps)

lemma mem_framework_ends:
  "(j, d) \<in> set (framework_ends f k u) \<longleftrightarrow>
    (\<exists>e. (j, e) \<in> set (run rx_framework_tail f u) \<and> d = (''name'', take (j - k) (drop k f)) # e \<and> run Eol f (j, d) \<noteq> [])"
proof -
  have eol: "(j, d) \<in> set (run Eol f y) \<longleftrightarrow> y = (j, d) \<and> run Eol f (j, d) \<noteq> []" for y by (cases y) auto
  have gen: "(j, d) \<in> set (concat (map G (map H xs))) \<longleftrightarrow> (\<exists>x \<in> set xs. (j, d) \<in> set (G (H x)))"
    for G H and xs :: "(nat \<times> captures) list" by auto
  have "(j, d) \<in> set (framework_ends f k u) \<longleftrightarrow>
      (\<exists>x \<in> set (run rx_framework_tail f u). (case x of (i, e) \<Rightarrow> (i, (''name'', take (i - k) (drop k f)) # e)) = (j, d)
        \<and> run Eol f (j, d) \<noteq> [])" unfolding framework_ends_def gen eol by blast
  also have "\<dots> \<longleftrightarrow> (\<exists>e. (j, e) \<in> set (run rx_framework_tail f u) \<and> d = (''name'', take (j - k) (drop k f)) # e
        \<and> run Eol f (j, d) \<noteq> [])"
    by (intro iffI; elim bexE exE conjE; clarsimp simp del: run.simps split: prod.splits) blast+
  finally show ?thesis .
qed

lemma framework_match_None:
  assumes "newline \<notin> set f"
  shows "re_match STRICT_FRAMEWORK_RE f = None \<longleftrightarrow> (\<nexists>p. framework_parts_ok p \<and> f = framework_file p)"
proof -
  have "(\<exists>loc sep. at f 0 (loc @ sep) \<and> location_ok loc sep
        \<and> run (Cat (Grp ''name'' rx_framework_name) Eol) f (length (loc @ sep), [(''location'', loc)]) \<noteq> [])
      \<longleftrightarrow> (\<exists>p. framework_parts_ok p \<and> f = framework_file p)" (is "?l \<longleftrightarrow> ?r")
  proof
    assume ?l
    then obtain loc sep where l: "at f 0 (loc @ sep)" "location_ok loc sep"
      "run (Cat (Grp ''name'' rx_framework_name) Eol) f (length (loc @ sep), [(''location'', loc)]) \<noteq> []" by blast
    from l(3) obtain u where u: "u \<in> set (run (Grp ''shortname'' (Rep 1 None True is_word)) f (length (loc @ sep), [(''location'', loc)]))"
      "framework_ends f (length (loc @ sep)) u \<noteq> []" unfolding run_framework_ends concat_map_nonempty by blast
    from hd_in_set [OF u(2)] obtain j d where "(j, d) \<in> set (framework_ends f (length (loc @ sep)) u)" by (metis prod.collapse)
    then obtain e where "(j, e) \<in> set (run rx_framework_tail f u)" "run Eol f (j, d) \<noteq> []" unfolding mem_framework_ends by blast
    from framework_run_parts [OF assms l(1,2) u(1) this] show ?r by blast
  next
    assume ?r
    then show ?l using framework_parts_run(1,2,5) by (metis prod_cases6)
  qed
  then show ?thesis unfolding re_match_def STRICT_FRAMEWORK_RE_name first_location_None by blast
qed

lemma framework_match_Some:
  assumes "newline \<notin> set f" "re_match STRICT_FRAMEWORK_RE f = Some (j, c)"
  shows "\<exists>p. framework_best f p \<and> c = framework_captures p"
proof -
  from assms(2) obtain loc sep where l: "at f 0 (loc @ sep)" "location_ok loc sep"
    "first_match (run (Cat (Grp ''name'' rx_framework_name) Eol) f (length (loc @ sep), [(''location'', loc)])) = Some (j, c)"
    and far: "\<forall>l p. at f 0 (l @ p) \<longrightarrow> location_ok l p
       \<longrightarrow> run (Cat (Grp ''name'' rx_framework_name) Eol) f (length (l @ p), [(''location'', l)]) \<noteq> [] \<longrightarrow> length l \<le> length loc"
    unfolding re_match_def STRICT_FRAMEWORK_RE_name using first_location by blast
  let ?k = "length (loc @ sep)"
  let ?s = "run (Grp ''shortname'' (Rep 1 None True is_word)) f (?k, [(''location'', loc)])"
  from first_concat [OF l(3) [unfolded run_framework_ends] sorted_Class] obtain u where
    u: "u \<in> set ?s" "first_match (framework_ends f ?k u) = Some (j, c)"
    and near: "\<And>v. v \<in> set ?s \<Longrightarrow> framework_ends f ?k v \<noteq> [] \<Longrightarrow> v = u \<or> fst v < fst u" by (auto simp del: run.simps)
  from first_match_member [OF u(2)] obtain e where e: "(j, e) \<in> set (run rx_framework_tail f u)" "run Eol f (j, c) \<noteq> []"
    "c = (''name'', take (j - ?k) (drop ?k f)) # e" unfolding mem_framework_ends by blast
  from framework_run_parts [OF assms(1) l(1,2) u(1) e(1,2)] e(3)
  obtain short x version suffix where p: "fst u = ?k + length short"
    "framework_parts_ok (loc, sep, short, x, version, suffix)" "f = framework_file (loc, sep, short, x, version, suffix)"
    "c = framework_captures (loc, sep, short, x, version, suffix)" by metis
  have "framework_prefers (loc, sep, short, x, version, suffix) q" if q: "framework_parts_ok q" "f = framework_file q" for q
  proof -
    obtain loc' sep' short' x' version' suffix' where q': "q = (loc', sep', short', x', version', suffix')" by (metis prod_cases6)
    note r = framework_parts_run [OF q [unfolded q']]
    have le: "length loc' \<le> length loc" using far r(1,2,5) by blast
    show ?thesis
    proof (cases "length loc' < length loc")
      case False
      have ff: "framework_file (loc', sep', short', x', version', suffix') = framework_file (loc, sep, short, x, version, suffix)"
        using q(2) q' p(3) by metis
      from arg_cong [OF ff, of "take (length loc)"] le False have loc: "loc' = loc" by simp
      have "sep' = sep"
      proof (rule sep_unique)
        show "location_ok loc sep'" "location_ok loc sep" using r(2) l(2) loc by simp_all
        show "list_all is_word short'" "list_all is_word short" "short' \<noteq> []" "short \<noteq> []" using q q' p(2) by auto
        show "loc @ sep' @ short' @ framework_tail short' x' version' suffix' = loc @ sep @ short @ framework_tail short x version suffix"
          using ff loc by simp
      qed
      let ?v = "(?k + length short', [(''shortname'', short'), (''location'', loc)])"
      have v: "?v \<in> set ?s" using r(3) loc \<open>sep' = sep\<close> by simp
      from r(4) loc \<open>sep' = sep\<close> obtain d where d: "(length f, d) \<in> set (run rx_framework_tail f ?v)" by auto
      have "run Eol f (length f, y) \<noteq> []" for y by simp
      with d mem_framework_ends [of "length f" _ f ?k ?v] have "framework_ends f ?k ?v \<noteq> []" by (metis empty_iff empty_set)
      from near [OF v this] p(1) loc show ?thesis unfolding q' by auto
    qed (simp add: q')
  qed
  with p show ?thesis unfolding framework_best_def by blast
qed

text \<open>Given the location and the short name there is one way only: a version ends at the next slash, and the text
  \<open>Versions/\<close> is not the short name with a suffix.\<close>

lemma framework_tail_unique:
  assumes "opt_ok version_char v" "opt_ok version_char v'" "list_all is_word short"
    and "framework_tail short x v w = framework_tail short x' v' w'"
  shows "x = x' \<and> v = v' \<and> w = w'"
proof -
  have mixed: False if "opt_part ''_'' w = ''_'' @ t \<or> opt_part ''_'' w = []" "short @ opt_part ''_'' w = ''Versions/'' @ b" for t b w
  proof -
    have s: "CHR ''/'' \<notin> set short" by (rule no_slash_word [OF assms(3)])
    have "short @ opt_part ''_'' w = ''Versions'' @ ''/'' @ b" using that(2) by simp
    then consider us where "short = ''Versions'' @ us" "us @ opt_part ''_'' w = ''/'' @ b"
      | us where "short @ us = ''Versions''" "opt_part ''_'' w = us @ ''/'' @ b"
      unfolding append_eq_append_conv2 by metis
    then show False
    proof cases
      case 1
      with s that(1) show False by (cases us) auto
    next
      case 2
      have "us = drop (length short) ''Versions''" using 2(1) by (metis append_eq_conv_conj)
      moreover have "CHR ''_'' \<notin> set ''Versions''" by simp
      ultimately have "CHR ''_'' \<notin> set us" by (metis in_set_dropD)
      with 2 that(1) show False by (cases us) auto
    qed
  qed
  have part: "opt_part ''_'' w = [] \<or> (\<exists>t. opt_part ''_'' w = ''_'' @ t)" for w by (cases w) (auto simp: opt_part_def)
  have inj: "opt_part ''_'' w = opt_part ''_'' w' \<Longrightarrow> w = w'" for w w' by (cases w; cases w') (auto simp: opt_part_def)
  from assms(4) have x: "x = x'" and e: "opt_between ''Versions/'' ''/'' v @ short @ opt_part ''_'' w
      = opt_between ''Versions/'' ''/'' v' @ short @ opt_part ''_'' w'" by (simp_all add: framework_tail_def)
  show ?thesis
  proof (cases v; cases v')
    assume "v = None" "v' = None"
    with e inj x show ?thesis by (simp add: opt_between_def)
  next
    fix a assume "v = None" "v' = Some a"
    with e have "short @ opt_part ''_'' w = ''Versions/'' @ (a @ ''/'' @ short @ opt_part ''_'' w')" by (simp add: opt_between_def)
    from part [of w] mixed [OF _ this] show ?thesis by blast
  next
    fix a assume "v = Some a" "v' = None"
    with e have "''Versions/'' @ (a @ ''/'' @ short @ opt_part ''_'' w) = short @ opt_part ''_'' w'" by (simp add: opt_between_def)
    from part [of w'] mixed [OF _ this [symmetric]] show ?thesis by blast
  next
    fix a b assume v: "v = Some a" "v' = Some b"
    with e have eq: "a @ (''/'' @ short @ opt_part ''_'' w) = b @ (''/'' @ short @ opt_part ''_'' w')" by (simp add: opt_between_def)
    have "a = b" "''/'' @ short @ opt_part ''_'' w = ''/'' @ short @ opt_part ''_'' w'"
      using span_unique [OF _ _ eq, of version_char] v assms(1,2) by (auto simp: opt_ok_def)
    with v x inj show ?thesis by simp
  qed
qed

lemma framework_best_unique:
  assumes "framework_best f p" "framework_best f q"
  shows "p = q"
proof -
  obtain loc sep short x version suffix where p: "p = (loc, sep, short, x, version, suffix)" by (metis prod_cases6)
  obtain loc' sep' short' x' version' suffix' where q: "q = (loc', sep', short', x', version', suffix')" by (metis prod_cases6)
  have ok: "framework_parts_ok p" "framework_parts_ok q" and eq: "framework_file p = framework_file q"
    using assms unfolding framework_best_def by metis+
  have pq: "framework_prefers p q" "framework_prefers q p" using assms unfolding framework_best_def by blast+
  then have loc: "loc' = loc" and len: "length short' = length short" unfolding p q by auto
  have eq': "loc @ sep @ short @ framework_tail short x version suffix = loc @ sep' @ short' @ framework_tail short' x' version' suffix'"
    using eq unfolding p q by (simp add: loc)
  have "sep = sep'" using ok loc unfolding p q by (intro sep_unique [OF _ _ _ _ _ _ eq']) auto
  with eq' len have s: "short' = short" by simp
  have t: "framework_tail short x version suffix = framework_tail short x' version' suffix'"
    using eq' \<open>sep = sep'\<close> unfolding s by simp
  have "x = x' \<and> version = version' \<and> suffix = suffix'"
    by (rule framework_tail_unique [OF _ _ _ t]) (use ok in \<open>simp_all add: p q\<close>)
  with \<open>sep = sep'\<close> loc s show ?thesis unfolding p q by simp
qed

text \<open>C31: \<open>framework_info\<close> on every text without a line end: it answers exactly for the names
  \<open>Location/Name.framework/Versions/Version/Name_Suffix\<close> with optional location, version and suffix, where any character
  may stand in place of the dot, because the dot of the pattern is not escaped. It returns the parts with the longest
  location and, then, the longest short name.\<close>

theorem framework_info_parts:
  assumes "newline \<notin> set f"
  shows "(framework_info f = None \<longleftrightarrow> (\<nexists>p. framework_parts_ok p \<and> f = framework_file p))
   \<and> (framework_info f = Some d \<longleftrightarrow> (\<exists>p. framework_best f p \<and> d = framework_dict p))"
proof (cases "re_match STRICT_FRAMEWORK_RE f")
  case None
  then have "framework_info f = None" by (simp add: framework_info_def)
  moreover have "\<nexists>p. framework_parts_ok p \<and> f = framework_file p" using None framework_match_None [OF assms] by blast
  ultimately show ?thesis unfolding framework_best_def by simp blast
next
  case (Some y)
  obtain j c where y: "re_match STRICT_FRAMEWORK_RE f = Some (j, c)" using Some by (cases y) simp
  from framework_match_Some [OF assms y] obtain p where p: "framework_best f p" "c = framework_captures p" by blast
  have "framework_info f = Some (framework_dict p)" using y p(2) groupdict_framework by (simp add: framework_info_def)
  moreover have "framework_parts_ok p" "f = framework_file p" using p(1) unfolding framework_best_def by blast+
  ultimately show ?thesis using p(1) framework_best_unique [OF p(1)] by (metis option.distinct(1) option.inject)
qed

theorem framework_info_parts_witness:
  "framework_info ''P/F-framework/F'' \<noteq> None \<and> framework_info ''P/F.framework/Versions/A'' = None"
proof -
  have n: "newline \<notin> set ''P/F-framework/F''" "newline \<notin> set ''P/F.framework/Versions/A''" by code_simp+
  let ?p = "(''P'', ''/'', ''F'', CHR ''-'', None, None)"
  have "framework_parts_ok ?p" "''P/F-framework/F'' = framework_file ?p" by code_simp+
  then have "framework_info ''P/F-framework/F'' \<noteq> None" using framework_info_parts [OF n(1)] by blast
  moreover have "framework_info ''P/F.framework/Versions/A'' = None" by code_simp
  ultimately show ?thesis by blast
qed

section \<open>The self-tests\<close>

text \<open>The tests at the end of dylib.py and framework.py, \<open>d(...)\<close> being a dictionary of the five groups with \<open>None\<close> for those not
  given. Two dictionaries are equal when they have the same keys and values.\<close>

definition dict_eq :: "dict \<Rightarrow> dict \<Rightarrow> bool" where
  "dict_eq a b \<longleftrightarrow> list_all (\<lambda>k. map_of a k = map_of b k) (map fst a @ map fst b)"

definition info_eq :: "dict option \<Rightarrow> dict option \<Rightarrow> bool" where
  "info_eq a b = (case (a, b) of (None, None) \<Rightarrow> True | (Some x, Some y) \<Rightarrow> dict_eq x y | _ \<Rightarrow> False)"

definition d_info :: "string \<Rightarrow> string \<Rightarrow> string \<Rightarrow> string option \<Rightarrow> string option \<Rightarrow> dict" where
  "d_info location name shortname version sfx =
     [(''location'', VStr location), (''name'', VStr name), (''shortname'', VStr shortname), (''version'', opt_val version),
      (''suffix'', opt_val sfx)]"

text \<open>A list of \<open>assert\<close> statements.\<close>

definition asserts :: "bool list \<Rightarrow> exn + unit" where
  "asserts bs = (if list_all (\<lambda>b. b) bs then Inr () else Inl AssertionError)"

definition test_dylib_info :: "exn + unit" where
  "test_dylib_info = asserts
     [info_eq (dylib_info ''completely/invalid'') None,
      info_eq (dylib_info ''completely/invalide_debug'') None,
      info_eq (dylib_info ''P/Foo.dylib'') (Some (d_info ''P'' ''Foo.dylib'' ''Foo'' None None)),
      info_eq (dylib_info ''P/Foo_debug.dylib'') (Some (d_info ''P'' ''Foo_debug.dylib'' ''Foo'' None (Some ''debug''))),
      info_eq (dylib_info ''P/Foo.A.dylib'') (Some (d_info ''P'' ''Foo.A.dylib'' ''Foo'' (Some ''A'') None)),
      info_eq (dylib_info ''P/Foo_debug.A.dylib'') (Some (d_info ''P'' ''Foo_debug.A.dylib'' ''Foo_debug'' (Some ''A'') None)),
      info_eq (dylib_info ''P/Foo.A_debug.dylib'') (Some (d_info ''P'' ''Foo.A_debug.dylib'' ''Foo'' (Some ''A'') (Some ''debug'')))]"

definition test_framework_info :: "exn + unit" where
  "test_framework_info = asserts
     [info_eq (framework_info ''completely/invalid'') None,
      info_eq (framework_info ''completely/invalid/_debug'') None,
      info_eq (framework_info ''P/F.framework'') None,
      info_eq (framework_info ''P/F.framework/_debug'') None,
      info_eq (framework_info ''P/F.framework/F'') (Some (d_info ''P'' ''F.framework/F'' ''F'' None None)),
      info_eq (framework_info ''P/F.framework/F_debug'') (Some (d_info ''P'' ''F.framework/F_debug'' ''F'' None (Some ''debug''))),
      info_eq (framework_info ''P/F.framework/Versions'') None,
      info_eq (framework_info ''P/F.framework/Versions/A'') None,
      info_eq (framework_info ''P/F.framework/Versions/A/F'')
        (Some (d_info ''P'' ''F.framework/Versions/A/F'' ''F'' (Some ''A'') None)),
      info_eq (framework_info ''P/F.framework/Versions/A/F_debug'')
        (Some (d_info ''P'' ''F.framework/Versions/A/F_debug'' ''F'' (Some ''A'') (Some ''debug'')))]"

lemma test_dylib_info_passes: "test_dylib_info = Inr ()"
  by code_simp

lemma test_framework_info_passes: "test_framework_info = Inr ()"
  by code_simp

end
