(* ===== verification/Macholib_Props.thy ===== *)
theory Macholib_Props
  imports Macholib_Names
begin

text \<open>
  The order of the library search on Mach-O systems, as an interpretation of \<open>finder\<close>, and the self-test of dyld.py.
\<close>

section \<open>The search order\<close>

interpretation dyld: finder "isfile h" "\<lambda>(name, executable_path, env). dyld_candidates h name executable_path env"
  "\<lambda>(name, executable_path, env). first_file h (dyld_candidates h name executable_path env)" for h
proof (unfold_locales, goal_cases)
  case (1 n)
  have "first_file h ps = List.find (isfile h) ps" for ps by (induction ps) auto
  then show ?case by (cases n) simp
qed

text \<open>A path with the image suffix put in.\<close>

definition suffixed :: "string \<Rightarrow> string \<Rightarrow> string" where
  "suffixed suffix path =
     (if ends_with ''.dylib'' path then take (length path - length ''.dylib'') path @ suffix @ ''.dylib'' else path @ suffix)"

lemma inject_suffix_map: "inject_suffix suffix ps = concat (map (\<lambda>p. [suffixed suffix p, p]) ps)"
  by (induction ps) (auto simp: suffixed_def)

definition dyld_order :: "host \<Rightarrow> string \<Rightarrow> string option \<Rightarrow> env_arg \<Rightarrow> string list" where
  "dyld_order h name ep env =
     (let ps = dyld_override_search h name env @ dyld_executable_path_search name ep @ dyld_default_search h name env
      in case dyld_image_suffix h env of None \<Rightarrow> ps | Some s \<Rightarrow> concat (map (\<lambda>p. [suffixed s p, p]) ps))"


section \<open>The self-test\<close>

definition test_dyld_find :: "host \<Rightarrow> exn + unit" where
  "test_dyld_find h =
     (case dyld_find h (Bytes ''libSystem.dylib'') None None of
        Inl e \<Rightarrow> Inl e
      | Inr p \<Rightarrow>
          if p \<noteq> ''/usr/lib/libSystem.dylib'' then Inl AssertionError
          else (case dyld_find h (Bytes ''System.framework/System'') None None of
                  Inl e \<Rightarrow> Inl e
                | Inr q \<Rightarrow> asserts [q = ''/System/Library/Frameworks/System.framework/System'']))"

text \<open>It passes on a machine that has the two files and none in the directories before them.\<close>

definition mac_host :: host where
  "mac_host = \<lparr>environ = Map.empty,
     isfile = (\<lambda>p. p \<in> {''/usr/lib/libSystem.dylib'', ''/System/Library/Frameworks/System.framework/System''}),
     expanduser = (\<lambda>p. ''/Users/x'' @ drop 1 p), utf8 = (\<lambda>u. [])\<rparr>"

lemma test_dyld_find_passes: "test_dyld_find mac_host = Inr ()"
  by code_simp

lemma test_dyld_find_fails: "(\<And>p. \<not> isfile h p) \<Longrightarrow> test_dyld_find h = Inl ValueError"
proof -
  assume none: "\<And>p. \<not> isfile h p"
  have "first_file h ps = None" for ps by (induction ps) (simp_all add: none)
  then show ?thesis by (simp add: test_dyld_find_def dyld_find_def)
qed

end
