(* ===== verification/Driver_Module.thy ===== *)
theory Driver_Module
  imports Driver_Irq
begin

text \<open>
  The life of the driver module (sw/gnurabbit/kernel/rawrabbit.c): \<open>rr_init\<close> allocates the DMA buffer, makes the
  device node and registers the PCI driver, \<open>rr_exit\<close> takes it all back, and in between any caller may
  open, read, write or control the node while interrupts arrive. The lemmas give an invariant of every
  such history: the size of the buffer, the accesses that stay in it, and which device is bound.
\<close>

section \<open>Parameters of the module\<close>

definition RR_DEFAULT_VENDOR :: int where "RR_DEFAULT_VENDOR = 0x1a39"
definition RR_DEFAULT_DEVICE :: int where "RR_DEFAULT_DEVICE = 0x0004"
definition RR_DEFAULT_BUFSIZE :: int where "RR_DEFAULT_BUFSIZE = 2 ^ 20"

text \<open>\<open>ptr\<close> is \<open>sizeof(void *)\<close>. Both macros are of the type of \<open>sizeof\<close>, so a comparison with an \<open>int\<close> is unsigned.\<close>

definition RR_PLIST_LEN :: "nat \<Rightarrow> nat" where "RR_PLIST_LEN ptr = RR_PLIST_SIZE div ptr"
definition RR_MAX_BUFSIZE :: "nat \<Rightarrow> nat" where "RR_MAX_BUFSIZE ptr = RR_PLIST_SIZE * RR_PLIST_LEN ptr"

record module_args =
  rr_vendor :: int
  rr_device :: int
  rr_bufsize :: int

definition default_args :: module_args where
  "default_args = \<lparr>rr_vendor = RR_DEFAULT_VENDOR, rr_device = RR_DEFAULT_DEVICE, rr_bufsize = RR_DEFAULT_BUFSIZE\<rparr>"

text \<open>What the kernel answers: whether a buffer of some size can be had, and the result of \<open>misc_register\<close>.\<close>

record module_env =
  vmalloc_ok :: "nat \<Rightarrow> bool"
  misc_register :: int

text \<open>The module: its device structure, and whether it holds an allocated buffer.\<close>

record rr_module =
  mod_dev :: kernel
  mod_buf :: bool

text \<open>The static structure before \<open>rr_init\<close>: everything is zero. \<open>lib\<close> says whether the library of the Python class exists.\<close>

definition rr_dev_static :: "bool \<Rightarrow> kernel" where
  "rr_dev_static lib = \<lparr>devsel = \<lparr>vendor = 0, device = 0, subvendor = 0, subdevice = 0, bus = 0, devfn = 0\<rparr>,
     id_table = \<lparr>id_vendor = 0, id_device = 0, id_subvendor = Some 0, id_subdevice = Some 0\<rparr>,
     pdev = None, dmabuf = [], bufsize = 0, irqtime = (0, 0), irqcount = 0, completed = False,
     area = (\<lambda>_. None), remap = (\<lambda>_. False), flags = 0, usecount = 0, mmio = [], irq_depth = 0,
     irq_held = False, irq_unbalanced = False, fdtab = Map.empty, next_fd = 3, node = False, shlib = lib\<rparr>"

section \<open>Entry and exit\<close>

abbreviation (input) "ENOMEM \<equiv> 12 :: int"

definition clamp_bufsize :: "nat \<Rightarrow> int \<Rightarrow> nat" where
  "clamp_bufsize ptr n =
     (let u = nat (n mod 2 ^ (8 * ptr))
      in if RR_MAX_BUFSIZE ptr < u then RR_MAX_BUFSIZE ptr else u)"

text \<open>The fields of the selection are 16 bits wide; \<open>subdevice\<close> and \<open>devfn\<close> keep their values.\<close>

definition init_devsel :: "module_args \<Rightarrow> rr_devsel \<Rightarrow> rr_devsel" where
  "init_devsel args d =
     d\<lparr>vendor := nat (rr_vendor args mod 2 ^ 16), device := nat (rr_device args mod 2 ^ 16),
       subvendor := RR_DEVSEL_UNUSED, bus := RR_DEVSEL_UNUSED\<rparr>"

definition rr_init :: "nat \<Rightarrow> kenv \<Rightarrow> module_env \<Rightarrow> module_args \<Rightarrow> kernel \<Rightarrow> int \<times> rr_module" where
  "rr_init ptr env menv args k =
     (let n = clamp_bufsize ptr (rr_bufsize args)
      in if \<not> vmalloc_ok menv n then (- ENOMEM, \<lparr>mod_dev = k\<lparr>bufsize := n\<rparr>, mod_buf = False\<rparr>)
         else let k1 = k\<lparr>bufsize := n, dmabuf := replicate n 0\<rparr>; ret = misc_register menv
              in if ret < 0 then (ret, \<lparr>mod_dev = k1, mod_buf = True\<rparr>)
                 else let k2 = k1\<lparr>node := True, devsel := init_devsel args (devsel k1)\<rparr>;
                          (ret, k3) = rr_fill_table_and_probe env k2
                      in if ret < 0 then (ret, \<lparr>mod_dev = k3\<lparr>node := False\<rparr>, mod_buf = True\<rparr>)
                         else (0, \<lparr>mod_dev = k3, mod_buf = True\<rparr>))"

definition rr_exit :: "rr_module \<Rightarrow> rr_module" where
  "rr_exit m = \<lparr>mod_dev = (pci_unregister_driver (mod_dev m))\<lparr>node := False\<rparr>, mod_buf = False\<rparr>"

text \<open>The \<open>mmap\<close> method is a stub.\<close>

abbreviation (input) "EOPNOTSUPP \<equiv> 95 :: int"

definition rr_mmap :: "kernel \<Rightarrow> int \<times> kernel" where
  "rr_mmap k = (- EOPNOTSUPP, k)"

section \<open>Histories\<close>

text \<open>The selection of a device releases the lock between looking at the use count and acting (the source warns of
  the race): \<open>selected_late\<close> is the second half on its own, when other callers came in between.\<close>

inductive module_step :: "kenv \<Rightarrow> kernel \<Rightarrow> kernel \<Rightarrow> bool" for env where
  opened: "module_step env k (rr_open k)"
| released: "module_step env k (rr_release k)"
| ioctl: "rr_ioctl env cmd k = (r, res, k1) \<Longrightarrow> module_step env k k1"
| file_read: "rr_read env pos n k = (r, bs, k1) \<Longrightarrow> module_step env k k1"
| file_write: "rr_write pos bs k = (r, k1) \<Longrightarrow> module_step env k k1"
| mapped: "rr_mmap k = (r, k1) \<Longrightarrow> module_step env k k1"
| selected_late: "rr_fill_table_and_probe env (k\<lparr>devsel := d\<rparr>) = (r, k1) \<Longrightarrow> module_step env k k1"
| interrupted: "irq_deliverable k \<Longrightarrow> module_step env k (rr_interrupt env k)"

inductive module_run :: "kenv \<Rightarrow> kernel \<Rightarrow> kernel \<Rightarrow> bool" for env where
  stop: "module_run env k k"
| step: "module_step env k k1 \<Longrightarrow> module_run env k1 k2 \<Longrightarrow> module_run env k k2"

section \<open>The buffer\<close>

text \<open>No access leaves the eight-byte cell the buffer ends in, so none leaves its last page.\<close>

definition buffer_ok :: "nat \<Rightarrow> kernel \<Rightarrow> bool" where
  "buffer_ok n k \<longleftrightarrow> bufsize k = n \<and> n \<le> length (dmabuf k) \<and> length (dmabuf k) \<le> 8 * ((n + 7) div 8)"

lemma clamp_bufsize_le: "clamp_bufsize ptr n \<le> RR_MAX_BUFSIZE ptr"
  by (simp add: clamp_bufsize_def Let_def)

lemma clamp_bufsize_exact:
  assumes "ptr \<in> {4, 8}" "0 \<le> n" "n \<le> int (RR_MAX_BUFSIZE ptr)"
  shows "clamp_bufsize ptr n = nat n"
proof -
  have "n < 2 ^ (8 * ptr)" using assms by (auto simp: RR_MAX_BUFSIZE_def RR_PLIST_LEN_def RR_PLIST_SIZE_def)
  with assms(2,3) show ?thesis by (auto simp: clamp_bufsize_def Let_def)
qed

lemma clamp_bufsize_negative:
  assumes "ptr \<in> {4, 8}" "- (2 ^ 31) \<le> n" "n < 0"
  shows "clamp_bufsize ptr n = RR_MAX_BUFSIZE ptr"
proof -
  have m: "n mod q = n + q" if "2 ^ 31 \<le> q" for q
    using assms(2,3) that mod_pos_pos_trivial [of "n + q" q] by simp
  from assms(1) consider "ptr = 4" | "ptr = 8" by blast
  then show ?thesis
  proof cases
    case 1
    with assms(2) m [of "2 ^ 32"] show ?thesis
      by (simp add: clamp_bufsize_def RR_MAX_BUFSIZE_def RR_PLIST_LEN_def RR_PLIST_SIZE_def Let_def)
  next
    case 2
    with assms(2) m [of "2 ^ 64"] show ?thesis
      by (simp add: clamp_bufsize_def RR_MAX_BUFSIZE_def RR_PLIST_LEN_def RR_PLIST_SIZE_def Let_def)
  qed
qed

lemma aligned_cell:
  fixes off n size :: nat
  assumes "n \<in> {1, 2, 4, 8}" "n dvd off" "off < b"
  shows "off + n \<le> 8 * ((b + 7) div 8)"
  using assms by (elim insertE emptyE; clarsimp; presburger)

lemma size_check_aligned: "size_check n off = 0 \<Longrightarrow> n \<in> {1, 2, 4, 8} \<and> n dvd off"
proof -
  have "off AND 1 = off mod 2" "off AND 3 = off mod 4" "off AND 7 = off mod 8"
    using take_bit_eq_mask [of 1 off] take_bit_eq_mask [of 2 off] take_bit_eq_mask [of 3 off]
    by (simp_all add: take_bit_eq_mod mask_eq_exp_minus_1)
  then show "size_check n off = 0 \<Longrightarrow> n \<in> {1, 2, 4, 8} \<and> n dvd off"
    by (auto simp: size_check_def dvd_eq_mod_eq_0 split: if_splits)
qed

lemma write_run_bounds:
  assumes "i + length ys \<le> m" "b \<le> length xs" "length xs \<le> m" "i \<le> length xs"
  shows "b \<le> length (write_run xs i ys) \<and> length (write_run xs i ys) \<le> m"
  using assms by (auto simp: write_run_def)

definition buffer_view :: "kernel \<Rightarrow> nat \<times> nat list" where
  "buffer_view k = (bufsize k, dmabuf k)"

lemma buffer_ok_view: "buffer_view k1 = buffer_view k \<Longrightarrow> buffer_ok n k \<Longrightarrow> buffer_ok n k1"
  by (simp add: buffer_view_def buffer_ok_def)

lemma access_buffer_view:
  "rr_do_read_mem env r c k = (v, c1, k1) \<Longrightarrow> buffer_view k1 = buffer_view k"
  "rr_do_write_mem r c k = (v, c1, k1) \<Longrightarrow> buffer_view k1 = buffer_view k"
  "rr_do_read_io env r c k = (v, c1, k1) \<Longrightarrow> buffer_view k1 = buffer_view k"
  "rr_do_write_io r c k = (v, c1, k1) \<Longrightarrow> buffer_view k1 = buffer_view k"
  by (auto simp: rr_do_read_mem_def rr_do_write_mem_def rr_do_read_io_def rr_do_write_io_def buffer_view_def Let_def
      split: if_splits)

lemma rr_do_iocmd_dmabuf_buffer:
  assumes "rr_do_iocmd_dmabuf wr c k = (r, c1, k1)" "buffer_ok n k"
  shows "buffer_ok n k1"
proof -
  let ?off = "RR_GET_OFF (address c)" and ?n = "datasize c"
  consider "k1 = k"
    | "?off < bufsize k" "size_check ?n ?off = 0" "k1 = k\<lparr>dmabuf := write_run (dmabuf k) ?off (take ?n (data c))\<rparr>"
    using assms(1) by (auto simp: rr_do_iocmd_dmabuf_def Let_def split: if_splits)
  then show ?thesis
  proof cases
    case 1
    with assms(2) show ?thesis by simp
  next
    case 2
    from size_check_aligned [OF 2(2)] 2(1) have "?off + ?n \<le> 8 * ((bufsize k + 7) div 8)"
      by (intro aligned_cell) simp_all
    then have "?off + length (take ?n (data c)) \<le> 8 * ((bufsize k + 7) div 8)" by simp
    with assms(2) write_run_bounds [OF this, of "bufsize k" "dmabuf k"] 2 show ?thesis
      by (simp add: buffer_ok_def)
  qed
qed

lemma rr_do_iocmd_buffer:
  assumes "rr_do_iocmd env wr c k = (r, c1, k1)" "buffer_ok n k"
  shows "buffer_ok n k1"
  using assms rr_do_iocmd_dmabuf_buffer [of wr c k r c1 k1 n] access_buffer_view [THEN buffer_ok_view, OF _ assms(2)]
  by (simp add: rr_do_iocmd_def Let_def split: if_splits option.splits) (blast+)?

lemma rr_write_buffer:
  assumes "rr_write pos bs k = (r, k1)" "buffer_ok n k"
  shows "buffer_ok n k1"
proof -
  let ?off = "RR_GET_OFF pos"
  let ?n = "if bufsize k < ?off + length bs then bufsize k - ?off else length bs"
  consider "buffer_view k1 = buffer_view k"
    | "?off < bufsize k" "k1 = k\<lparr>dmabuf := write_run (dmabuf k) ?off (take ?n bs)\<rparr>"
  proof (cases "rr_is_valid_bar pos \<and> RR_BAR_BUF \<le> pos \<and> ?off < bufsize k")
    case True
    with assms(1) have "k1 = k\<lparr>dmabuf := write_run (dmabuf k) ?off (take ?n bs)\<rparr>"
      by (simp add: rr_write_def Let_def split: if_splits)
    with True that(2) show ?thesis by blast
  next
    case False
    with assms(1) have "buffer_view k1 = buffer_view k"
      unfolding rr_write_def Let_def by (auto simp: buffer_view_def simp del: insert_iff split: if_splits option.splits)
    with that(1) show ?thesis .
  qed
  then show ?thesis
  proof cases
    case 1
    with assms(2) show ?thesis by (rule buffer_ok_view [rotated])
  next
    case 2
    have "b \<le> 8 * ((b + 7) div 8)" for b :: nat by presburger
    with 2(1) have "?off + length (take ?n bs) \<le> 8 * ((bufsize k + 7) div 8)"
      by (auto intro: order_trans [of _ "bufsize k"])
    with assms(2) write_run_bounds [OF this, of "bufsize k" "dmabuf k"] 2 show ?thesis
      by (simp add: buffer_ok_def)
  qed
qed

section \<open>The bound device\<close>

lemma odd_or_2: "(n OR 2) mod 2 = n mod (2 :: nat)"
  by (simp add: mod_2_eq_odd even_or_iff)

lemma odd_minus_2: "(n - (n AND 2)) mod 2 = n mod (2 :: nat)"
proof -
  have "n AND 2 \<le> n" "even (n AND 2)" by (simp_all add: and_2)
  then show ?thesis by (simp add: mod_2_eq_odd)
qed

lemma registered_flag [simp]:
  "has_flag RR_FLAG_REGISTERED (set_flag RR_FLAG_IRQDISABLE k) = has_flag RR_FLAG_REGISTERED k"
  "has_flag RR_FLAG_REGISTERED (clear_flag RR_FLAG_IRQDISABLE k) = has_flag RR_FLAG_REGISTERED k"
  by (simp_all add: has_flag_def set_flag_def clear_flag_def RR_FLAG_REGISTERED_def RR_FLAG_IRQDISABLE_def and_one_eq odd_or_2 odd_minus_2)

lemma flag_irqrequest: "RR_FLAG_IRQREQUEST = RR_FLAG_IRQDISABLE"
  by (simp add: RR_FLAG_IRQREQUEST_def RR_FLAG_IRQDISABLE_def)

lemma registered_set: "has_flag RR_FLAG_REGISTERED (set_flag RR_FLAG_REGISTERED k)"
  by (simp add: has_flag_def set_flag_def RR_FLAG_REGISTERED_def and_one_eq mod_2_eq_odd even_or_iff)

definition bound_view where
  "bound_view k = (devsel k, id_table k, pdev k, area k, remap k, has_flag RR_FLAG_REGISTERED k, node k)"

text \<open>The selection admits the device: it matches the table, and the bus and slot if they are given.\<close>

definition selected :: "kenv \<Rightarrow> kernel \<Rightarrow> pci_dev \<Rightarrow> bool" where
  "selected env k p \<longleftrightarrow> p \<in> set (pci_matches env (id_table k))
     \<and> (bus (devsel k) = RR_DEVSEL_UNUSED \<or> bus (devsel k) = p_bus p \<and> devfn (devsel k) = p_devfn p)"

definition unbound :: "kernel \<Rightarrow> bool" where
  "unbound k \<longleftrightarrow> pdev k = None \<and> area k = (\<lambda>_. None) \<and> remap k = (\<lambda>_. False)"

definition bound_ok :: "kenv \<Rightarrow> kernel \<Rightarrow> bool" where
  "bound_ok env k \<longleftrightarrow> id_table (rr_fill_table k) = id_table k
     \<and> (unbound k \<or> (\<exists>p. pdev k = Some p \<and> selected env k p \<and> has_flag RR_FLAG_REGISTERED k))"

lemma bound_ok_view:
  assumes "bound_view k1 = bound_view k" "bound_ok env k"
  shows "bound_ok env k1 \<and> node k1 = node k"
  using assms by (simp add: bound_ok_def bound_view_def unbound_def selected_def rr_fill_table_def Let_def)

lemma rr_do_iocmd_bound: "rr_do_iocmd env wr c k = (r, c1, k1) \<Longrightarrow> bound_view k1 = bound_view k"
  by (auto simp: rr_do_iocmd_def rr_do_iocmd_dmabuf_def rr_do_read_mem_def rr_do_write_mem_def
      rr_do_read_io_def rr_do_write_io_def bound_view_def has_flag_def Let_def split: if_splits option.splits)

lemma access_views [simp]:
  "bound_view (k\<lparr>mmio := h\<rparr>) = bound_view k" "bound_view (k\<lparr>dmabuf := xs\<rparr>) = bound_view k"
  "buffer_view (k\<lparr>mmio := h\<rparr>) = buffer_view k"
  by (simp_all add: bound_view_def buffer_view_def has_flag_def)

lemma rr_read_bound: "rr_read env pos n k = (r, bs, k1) \<Longrightarrow> bound_view k1 = bound_view k \<and> buffer_view k1 = buffer_view k"
proof -
  have "bound_view (snd (snd (rr_read env pos n k))) = bound_view k
      \<and> buffer_view (snd (snd (rr_read env pos n k))) = buffer_view k"
    unfolding rr_read_def Let_def by (simp split: option.split)
  then show "rr_read env pos n k = (r, bs, k1) \<Longrightarrow> bound_view k1 = bound_view k \<and> buffer_view k1 = buffer_view k" by simp
qed

lemma rr_write_bound: "rr_write pos bs k = (r, k1) \<Longrightarrow> bound_view k1 = bound_view k"
proof -
  have "bound_view (snd (rr_write pos bs k)) = bound_view k"
    unfolding rr_write_def Let_def by (simp split: option.split)
  then show "rr_write pos bs k = (r, k1) \<Longrightarrow> bound_view k1 = bound_view k" by simp
qed

lemma rr_interrupt_bound: "bound_view (rr_interrupt env k) = bound_view k \<and> buffer_view (rr_interrupt env k) = buffer_view k"
proof -
  let ?k = "k\<lparr>irqtime := clock env (mmio k), irqcount := irqcount k + 1\<rparr>"
  have "bound_view (set_flag RR_FLAG_IRQDISABLE ?k) = bound_view k"
    unfolding bound_view_def registered_flag by (simp add: set_flag_def has_flag_def)
  moreover have "bound_view (disable_irq_nosync t) = bound_view t" "buffer_view (disable_irq_nosync t) = buffer_view t" for t
    by (simp_all add: bound_view_def buffer_view_def disable_irq_nosync_def has_flag_def)
  moreover have "buffer_view (set_flag RR_FLAG_IRQDISABLE ?k) = buffer_view k" by (simp add: buffer_view_def set_flag_def)
  ultimately show ?thesis by (simp add: rr_interrupt_def)
qed

lemma enable_irq_bound: "bound_view (enable_irq k) = bound_view k" "buffer_view (enable_irq k) = buffer_view k"
  by (simp_all add: enable_irq_def bound_view_def buffer_view_def has_flag_def)

lemma clear_irq_bound:
  "bound_view (clear_flag RR_FLAG_IRQDISABLE k) = bound_view k" "buffer_view (clear_flag f k) = buffer_view k"
  unfolding bound_view_def registered_flag buffer_view_def by (simp_all add: clear_flag_def)

lemma ioctl_irqena_bound:
  "ioctl_irqena env k = (r, k1) \<Longrightarrow> bound_view k1 = bound_view k \<and> buffer_view k1 = buffer_view k"
  by (auto simp: ioctl_irqena_def enable_irq_bound clear_irq_bound Let_def split: if_splits prod.splits)

lemma ioctl_irqwait_bound:
  "ioctl_irqwait env k = (r, k1) \<Longrightarrow> bound_view k1 = bound_view k \<and> buffer_view k1 = buffer_view k"
  using irqwait_line rr_interrupt_bound by blast

section \<open>Binding and unbinding\<close>

text \<open>What binding leaves alone, the part that belongs to the callers apart.\<close>

definition call_view where
  "call_view k = (usecount k, fdtab k, next_fd k, shlib k)"

definition setup_view where
  "setup_view k = (devsel k, id_table k, node k, bufsize k, dmabuf k, call_view k)"

lemma setup_view_eqD:
  assumes "setup_view k1 = setup_view k"
  shows "devsel k1 = devsel k" "id_table k1 = id_table k" "node k1 = node k" "buffer_view k1 = buffer_view k"
    "selected env k1 p = selected env k p" "id_table (rr_fill_table k1) = id_table (rr_fill_table k)"
    "buffer_ok n k1 = buffer_ok n k" "call_view k1 = call_view k"
  using assms by (simp_all add: setup_view_def call_view_def buffer_view_def selected_def rr_fill_table_def buffer_ok_def Let_def)

lemma setup_view_flags:
  "setup_view (set_flag f k) = setup_view k" "setup_view (clear_flag f k) = setup_view k"
  "setup_view (enable_irq k) = setup_view k" "pdev (set_flag f k) = pdev k"
  by (simp_all add: setup_view_def call_view_def set_flag_def clear_flag_def enable_irq_def)

lemma rr_record_bar_setup: "setup_view (rr_record_bar p i k) = setup_view k" "pdev (rr_record_bar p i k) = pdev k"
  by (simp_all add: rr_record_bar_def setup_view_def call_view_def Let_def)

lemma rr_pciprobe_setup:
  assumes "p \<in> set (pci_matches env (id_table k))"
    and "unbound k \<or> (\<exists>q. pdev k = Some q \<and> selected env k q)"
    and "rr_pciprobe env p k = (r, k1)"
  shows "setup_view k1 = setup_view k \<and> (unbound k1 \<or> (\<exists>q. pdev k1 = Some q \<and> selected env k1 q))"
proof -
  let ?k2 = "(rr_probe_irq env p (k\<lparr>pdev := Some p\<rparr>))\<lparr>completed := True\<rparr>"
  consider "k1 = k" | "k1 = rr_record_bar p 2 (rr_record_bar p 1 (rr_record_bar p 0 ?k2))" "selected env k p"
    using assms(1,3) by (auto simp: rr_pciprobe_def selected_def Let_def split: if_splits)
  then show ?thesis
  proof cases
    case 1
    with assms(2) show ?thesis by simp
  next
    case 2
    have "setup_view ?k2 = setup_view k" "pdev ?k2 = Some p"
      by (simp_all add: rr_probe_irq_def set_flag_def setup_view_def call_view_def)
    with 2(1) have "setup_view k1 = setup_view k" "pdev k1 = Some p" by (simp_all add: rr_record_bar_setup)
    with 2(2) setup_view_eqD(5) show ?thesis by blast
  qed
qed

lemma probe_all_setup:
  assumes "set ps \<subseteq> set (pci_matches env (id_table k))"
    and "unbound k \<or> (\<exists>q. pdev k = Some q \<and> selected env k q)"
  shows "setup_view (probe_all env ps k) = setup_view k
    \<and> (unbound (probe_all env ps k) \<or> (\<exists>q. pdev (probe_all env ps k) = Some q \<and> selected env (probe_all env ps k) q))"
  using assms
proof (induction ps arbitrary: k)
  case Nil
  then show ?case by simp
next
  case (Cons p ps)
  obtain r k1 where k1: "rr_pciprobe env p k = (r, k1)" by force
  with rr_pciprobe_setup [OF _ Cons.prems(2) k1] Cons.prems(1) have
    "setup_view k1 = setup_view k" "unbound k1 \<or> (\<exists>q. pdev k1 = Some q \<and> selected env k1 q)" by auto
  with Cons.IH [of k1] Cons.prems(1) k1 setup_view_eqD(2) [of k1 k] show ?case by simp
qed

lemma rr_pciremove_setup: "setup_view (rr_pciremove k) = setup_view k" "unbound (rr_pciremove k)"
  by (simp_all add: rr_pciremove_def unbound_def Let_def)
    (simp_all add: setup_view_def call_view_def clear_flag_def enable_irq_def)

lemma pci_unregister_setup:
  assumes "unbound k \<or> pdev k \<noteq> None"
  shows "setup_view (pci_unregister_driver k) = setup_view k \<and> unbound (pci_unregister_driver k)"
  using assms rr_pciremove_setup [of k] by (auto simp: pci_unregister_driver_def unbound_def)

text \<open>The completion is signalled exactly when a device was bound.\<close>

lemma rr_pciprobe_completed:
  assumes "rr_pciprobe env p k = (r, k1)" "completed k \<longleftrightarrow> pdev k \<noteq> None"
  shows "completed k1 \<longleftrightarrow> pdev k1 \<noteq> None"
proof -
  have b: "completed (rr_record_bar p i t) = completed t" "pdev (rr_record_bar p i t) = pdev t" for i t
    by (simp_all add: rr_record_bar_def Let_def)
  have q: "pdev (rr_probe_irq env p t) = pdev t" for t by (simp add: rr_probe_irq_def set_flag_def)
  show ?thesis using assms by (auto simp: rr_pciprobe_def b q Let_def split: if_splits)
qed

lemma probe_all_completed:
  "completed k \<longleftrightarrow> pdev k \<noteq> None \<Longrightarrow> completed (probe_all env ps k) \<longleftrightarrow> pdev (probe_all env ps k) \<noteq> None"
proof (induction ps arbitrary: k)
  case (Cons p ps)
  obtain r k1 where k1: "rr_pciprobe env p k = (r, k1)" by force
  from Cons.IH [OF rr_pciprobe_completed [OF this Cons.prems]] k1 show ?case by simp
qed simp

text \<open>Filling the table and probing binds a selected device or none; after a failure nothing is registered.\<close>

lemma rr_fill_table_and_probe_bound:
  assumes "unbound k \<or> (pdev k \<noteq> None \<and> has_flag RR_FLAG_REGISTERED k)" "rr_fill_table_and_probe env k = (r, k1)"
  shows "devsel k1 = devsel k \<and> node k1 = node k \<and> buffer_view k1 = buffer_view k \<and> bound_ok env k1
    \<and> (r < 0 \<longrightarrow> unbound k1 \<and> \<not> has_flag RR_FLAG_REGISTERED k1)
    \<and> call_view k1 = call_view k \<and> (0 < r \<longleftrightarrow> pdev k1 \<noteq> None)"
proof -
  define k2 where "k2 = (if has_flag RR_FLAG_REGISTERED k then clear_flag RR_FLAG_REGISTERED (pci_unregister_driver k) else k)"
  define k3 where "k3 = (rr_fill_table k2)\<lparr>completed := False\<rparr>"
  have c: "unbound (clear_flag f t) = unbound t" for f t by (simp add: unbound_def clear_flag_def)
  have k2: "setup_view k2 = setup_view k \<and> unbound k2"
    using assms(1) pci_unregister_setup [of k] by (auto simp: k2_def setup_view_flags c)
  have "\<not> has_flag RR_FLAG_REGISTERED k2"
    by (simp add: k2_def has_flag_def clear_flag_def RR_FLAG_REGISTERED_def and_one_eq)
  then have f3: "\<not> has_flag RR_FLAG_REGISTERED k3" by (simp add: k3_def has_flag_def rr_fill_table_def Let_def)
  have k3: "devsel k3 = devsel k" "node k3 = node k" "buffer_view k3 = buffer_view k" "unbound k3"
    "id_table k3 = id_table (rr_fill_table k3)" "call_view k3 = call_view k"
    using k2 by (simp_all add: k3_def rr_fill_table_def setup_view_def call_view_def buffer_view_def unbound_def Let_def)
  have d3: "\<not> completed k3" "pdev k3 = None" using k3(4) by (simp_all add: k3_def unbound_def)
  let ?t = "probe_all env (pci_matches env (id_table k3)) k3"
  let ?u = "set_flag RR_FLAG_REGISTERED ?t"
  from probe_all_setup [of "pci_matches env (id_table k3)" env k3] k3(4) have
    t: "setup_view ?t = setup_view k3" "unbound ?t \<or> (\<exists>q. pdev ?t = Some q \<and> selected env ?t q)" by auto
  have ct: "completed ?t \<longleftrightarrow> pdev ?t \<noteq> None" by (rule probe_all_completed) (simp add: d3)
  have i: "id_table (rr_fill_table k2) = id_table k3" by (simp add: k3_def)
  have cu: "completed (set_flag f t) = completed t" for f t by (simp add: set_flag_def)
  have r: "(r \<le> 0 \<and> k1 = k3) \<or> (r = (if completed ?t then 1 else 0) \<and> k1 = ?u)"
    using assms(2) d3(1) by (auto simp: rr_fill_table_and_probe_def pci_register_driver_def Let_def k2_def [symmetric]
        k3_def [symmetric] i cu split: if_splits)
  have u: "setup_view ?u = setup_view k3" using t(1) by (simp add: setup_view_flags)
  have "unbound ?u = unbound ?t" by (simp add: unbound_def set_flag_def)
  moreover have "selected env ?u q = selected env ?t q" for q by (simp add: setup_view_eqD(5) [OF setup_view_flags(1)])
  ultimately have bu: "bound_ok env ?u"
    using t(2) setup_view_eqD(2,6) [OF u] k3(5) by (auto simp: bound_ok_def registered_set setup_view_flags)
  from r show ?thesis
  proof (elim disjE conjE)
    assume "r \<le> 0" "k1 = k3"
    moreover have "bound_ok env k3" using k3(4,5) by (simp add: bound_ok_def)
    ultimately show ?thesis using k3 f3 d3(2) by simp
  next
    assume c: "r = (if completed ?t then 1 else 0)" "k1 = ?u"
    have "devsel k1 = devsel k" "node k1 = node k" "buffer_view k1 = buffer_view k" "call_view k1 = call_view k"
      using setup_view_eqD(1,3,4,8) [OF u] k3 c(2) by simp_all
    moreover have "0 < r \<longleftrightarrow> pdev k1 \<noteq> None" using c ct by (simp add: setup_view_flags)
    ultimately show ?thesis using bu c by simp
  qed
qed

section \<open>The invariant\<close>

definition module_ok :: "kenv \<Rightarrow> nat \<Rightarrow> kernel \<Rightarrow> bool" where
  "module_ok env n k \<longleftrightarrow> node k \<and> buffer_ok n k \<and> bound_ok env k"

lemma module_ok_view:
  assumes "bound_view k1 = bound_view k" "buffer_ok n k1" "module_ok env n k"
  shows "module_ok env n k1"
  using assms bound_ok_view [OF assms(1), of env] by (simp add: module_ok_def)

lemma module_ok_views:
  assumes "bound_view k1 = bound_view k \<and> buffer_view k1 = buffer_view k" "module_ok env n k"
  shows "module_ok env n k1"
  using assms by (intro module_ok_view [of k1 k] buffer_ok_view [of k1 k]) (simp_all add: module_ok_def)

lemma devsel_act_module:
  assumes "rr_fill_table_and_probe env (k\<lparr>devsel := d\<rparr>) = (r, k1)" "module_ok env n k"
  shows "module_ok env n k1"
proof -
  have "unbound (k\<lparr>devsel := d\<rparr>) = unbound k" "has_flag f (k\<lparr>devsel := d\<rparr>) = has_flag f k" for f
    by (simp_all add: unbound_def has_flag_def)
  with assms(2) have "unbound (k\<lparr>devsel := d\<rparr>)
      \<or> (pdev (k\<lparr>devsel := d\<rparr>) \<noteq> None \<and> has_flag RR_FLAG_REGISTERED (k\<lparr>devsel := d\<rparr>))"
    by (auto simp: module_ok_def bound_ok_def)
  from rr_fill_table_and_probe_bound [OF this assms(1)] assms(2) show ?thesis
    by (simp add: module_ok_def buffer_ok_def buffer_view_def)
qed

lemma ioctl_devsel_module:
  assumes "ioctl_devsel env d k = (r, k1)" "module_ok env n k"
  shows "module_ok env n k1"
  using assms devsel_act_module [OF _ assms(2)] by (auto simp: ioctl_devsel_def split: prod.splits if_splits)

lemma rr_ioctl_module:
  assumes "rr_ioctl env cmd k = (r, res, k1)" "module_ok env n k"
  shows "module_ok env n k1"
proof -
  from assms(2) have b: "buffer_ok n k" by (simp add: module_ok_def)
  consider "k1 = k" | d r where "ioctl_devsel env d k = (r, k1)" | wr c r c1 where "rr_do_iocmd env wr c k = (r, c1, k1)"
    | r where "ioctl_irqwait env k = (r, k1)" | r where "ioctl_irqena env k = (r, k1)"
    using assms(1) by (cases cmd) (fastforce simp: rr_ioctl_def split: prod.splits option.splits)+
  then show ?thesis
  proof cases
    case 1
    with assms(2) show ?thesis by simp
  next
    case 2
    from ioctl_devsel_module [OF 2 assms(2)] show ?thesis .
  next
    case 3
    from module_ok_view [OF rr_do_iocmd_bound [OF 3] rr_do_iocmd_buffer [OF 3 b] assms(2)] show ?thesis .
  next
    case 4
    from module_ok_views [OF ioctl_irqwait_bound [OF 4] assms(2)] show ?thesis .
  next
    case 5
    from module_ok_views [OF ioctl_irqena_bound [OF 5] assms(2)] show ?thesis .
  qed
qed

lemma module_step_ok: "module_step env k k1 \<Longrightarrow> module_ok env n k \<Longrightarrow> module_ok env n k1"
proof (induction rule: module_step.induct)
  case (opened k)
  then show ?case by (rule module_ok_view [rotated 2])
    (use opened in \<open>simp_all add: module_ok_def bound_view_def buffer_ok_def rr_open_def has_flag_def\<close>)
next
  case (released k)
  then show ?case by (rule module_ok_view [rotated 2])
    (use released in \<open>simp_all add: module_ok_def bound_view_def buffer_ok_def rr_release_def has_flag_def\<close>)
next
  case (ioctl cmd k r res k1)
  then show ?case by (rule rr_ioctl_module)
next
  case (file_read pos m k r bs k1)
  from module_ok_views [OF rr_read_bound [OF file_read.hyps] file_read.prems] show ?case .
next
  case (file_write pos bs k r k1)
  from file_write.prems have "buffer_ok n k" by (simp add: module_ok_def)
  from module_ok_view [OF rr_write_bound [OF file_write.hyps] rr_write_buffer [OF file_write.hyps this] file_write.prems]
  show ?case .
next
  case (mapped k r k1)
  then show ?case by (simp add: rr_mmap_def)
next
  case (selected_late k d r k1)
  then show ?case by (rule devsel_act_module)
next
  case (interrupted k)
  from module_ok_views [OF rr_interrupt_bound interrupted.prems] show ?case .
qed

lemma module_run_ok: "module_run env k k1 \<Longrightarrow> module_ok env n k \<Longrightarrow> module_ok env n k1"
  by (induction rule: module_run.induct) (auto intro: module_step_ok)

lemma rr_dev_static: "unbound (rr_dev_static lib)" "\<not> has_flag f (rr_dev_static lib)" "\<not> node (rr_dev_static lib)"
  by (simp_all add: rr_dev_static_def unbound_def has_flag_def)

text \<open>How \<open>rr_init\<close> ends.\<close>

lemma rr_init_ends:
  assumes "rr_init ptr env menv args (rr_dev_static lib) = (r, m)"
  defines "n \<equiv> clamp_bufsize ptr (rr_bufsize args)"
  shows "(r = 0 \<and> vmalloc_ok menv n \<and> mod_buf m \<and> module_ok env n (mod_dev m))
    \<or> (r < 0 \<and> mod_buf m = vmalloc_ok menv n \<and> unbound (mod_dev m) \<and> \<not> node (mod_dev m)
        \<and> \<not> has_flag RR_FLAG_REGISTERED (mod_dev m))"
proof -
  let ?k = "rr_dev_static lib"
  let ?k1 = "?k\<lparr>bufsize := n, dmabuf := replicate n 0\<rparr>"
  let ?k2 = "?k1\<lparr>node := True, devsel := init_devsel args (devsel ?k1)\<rparr>"
  obtain r1 k3 where p: "rr_fill_table_and_probe env ?k2 = (r1, k3)" by force
  have u: "unbound (t\<lparr>node := b\<rparr>) = unbound t" "has_flag f (t\<lparr>node := b\<rparr>) = has_flag f t"
      "unbound (t\<lparr>bufsize := i\<rparr>) = unbound t" "has_flag f (t\<lparr>bufsize := i\<rparr>) = has_flag f t"
      "unbound (t\<lparr>bufsize := i, dmabuf := xs\<rparr>) = unbound t" "has_flag f (t\<lparr>bufsize := i, dmabuf := xs\<rparr>) = has_flag f t"
      "unbound (t\<lparr>devsel := d\<rparr>) = unbound t"
    for t b f i xs d by (simp_all add: unbound_def has_flag_def)
  have "unbound ?k2" using rr_dev_static(1) [of lib] by (simp add: u)
  from rr_fill_table_and_probe_bound [OF disjI1 [OF this] p] have
    k3: "node k3" "buffer_view k3 = (n, replicate n 0)" "bound_ok env k3" "r1 < 0 \<Longrightarrow> unbound k3 \<and> \<not> has_flag RR_FLAG_REGISTERED k3"
    by (auto simp: buffer_view_def)
  have "n \<le> 8 * ((n + 7) div 8)" by presburger
  with k3 have "module_ok env n k3" by (simp add: module_ok_def buffer_ok_def buffer_view_def)
  with assms(1) p k3 rr_dev_static(1,3) [of lib] rr_dev_static(2) [of RR_FLAG_REGISTERED lib] show ?thesis
    by (auto simp: rr_init_def n_def [symmetric] u Let_def split: if_splits)
qed

section \<open>Properties\<close>


text \<open>The demonstration board: the default parameters, a buffer and a node, and a driver that registers.\<close>

definition demo_menv :: module_env where
  "demo_menv = \<lparr>vmalloc_ok = (\<lambda>_. True), misc_register = 0\<rparr>"

lemma registration_ok:
  assumes "rr_fill_table_and_probe env k = (r, k1)" "\<And>i. pci_register env i = 0"
  shows "0 \<le> r"
  using assms by (auto simp: rr_fill_table_and_probe_def pci_register_driver_def Let_def split: if_splits)

lemma registration_fails:
  assumes "\<And>i. pci_register env i = e" "e < 0"
  shows "fst (rr_fill_table_and_probe env k) = e"
  using assms by (simp add: rr_fill_table_and_probe_def pci_register_driver_def Let_def)

lemma demo_init: "\<exists>m. rr_init 8 demo_env demo_menv default_args (rr_dev_static True) = (0, m)"
proof -
  have "pci_register demo_env i = 0" for i by (simp add: demo_env_def)
  then have "\<not> fst (rr_fill_table_and_probe demo_env k) < 0" for k
    using registration_ok [of demo_env k] by (metis not_le prod.collapse)
  then show ?thesis by (simp add: rr_init_def demo_menv_def Let_def case_prod_beta)
qed


text \<open>C22: a failing \<open>rr_init\<close>, whatever failed, leaves no node, no bound device, no mapping and no registered driver;
  but the buffer, once allocated, is never freed.\<close>

theorem module_init_fails:
  assumes "rr_init ptr env menv args (rr_dev_static lib) = (r, m)" "r \<noteq> 0"
  shows "r < 0 \<and> \<not> node (mod_dev m) \<and> unbound (mod_dev m) \<and> \<not> has_flag RR_FLAG_REGISTERED (mod_dev m)
    \<and> mod_buf m = vmalloc_ok menv (clamp_bufsize ptr (rr_bufsize args))"
  using rr_init_ends [OF assms(1)] assms(2) by auto

theorem module_init_fails_witness:
  "mod_buf (snd (rr_init 8 (demo_env\<lparr>pci_register := \<lambda>_. - 16\<rparr>) demo_menv default_args (rr_dev_static True)))"
proof -
  let ?env = "demo_env\<lparr>pci_register := \<lambda>_. - 16\<rparr>"
  have "fst (rr_fill_table_and_probe ?env k) = - 16" for k
    by (rule registration_fails) simp_all
  then have "fst (rr_init 8 ?env demo_menv default_args (rr_dev_static True)) = - 16"
    by (simp add: rr_init_def demo_menv_def Let_def case_prod_beta)
  then obtain m where m: "rr_init 8 ?env demo_menv default_args (rr_dev_static True) = (- 16, m)" by (metis prod.collapse)
  have "mod_buf m" using module_init_fails [OF m] by (simp add: demo_menv_def)
  then show ?thesis unfolding m by simp
qed

text \<open>A selection whose registration fails leaves the driver unregistered, while the module stays loaded; \<open>rr_exit\<close>
  unregisters it all the same.\<close>

lemma devsel_failure_unregisters:
  assumes "module_ok env n k" "usecount k \<le> 1" "ioctl_devsel env d k = (r, k1)" "r < 0" "r \<noteq> - ENODEV"
  shows "unbound k1 \<and> \<not> has_flag RR_FLAG_REGISTERED k1 \<and> node k1"
proof -
  have "unbound (k\<lparr>devsel := d\<rparr>) = unbound k" "has_flag f (k\<lparr>devsel := d\<rparr>) = has_flag f k" for f
    by (simp_all add: unbound_def has_flag_def)
  with assms(1) have u: "unbound (k\<lparr>devsel := d\<rparr>)
      \<or> (pdev (k\<lparr>devsel := d\<rparr>) \<noteq> None \<and> has_flag RR_FLAG_REGISTERED (k\<lparr>devsel := d\<rparr>))"
    by (auto simp: module_ok_def bound_ok_def)
  obtain r1 where p: "rr_fill_table_and_probe env (k\<lparr>devsel := d\<rparr>) = (r1, k1)" "r1 < 0"
    using assms(2-5) by (auto simp: ioctl_devsel_def split: prod.splits if_splits)
  from rr_fill_table_and_probe_bound [OF u p(1)] p(2) assms(1) show ?thesis by (simp add: module_ok_def)
qed

end
