(* ===== verification/Driver_Session.thy ===== *)
theory Driver_Session
  imports Driver_Module Gennum_Theorems
begin

text \<open>
  A whole session: the module is loaded (\<open>rr_init\<close>, kernel/rawrabbit.c), a \<open>Gennum\<close> object is created on it
  (python/rr.py) and used. The lemmas carry what \<open>rr_init\<close> leaves in the kernel to the methods of the class: the
  buffer it allocated is a zeroed store of words, and \<open>bind\<close> finds the device an address names.
\<close>

section \<open>From the module to the object\<close>

lemma rr_init_state:
  assumes "rr_init ptr env menv args (rr_dev_static lib) = (0, m)"
  defines "n \<equiv> clamp_bufsize ptr (rr_bufsize args)"
  shows "node (mod_dev m)" "buffer_view (mod_dev m) = (n, replicate n 0)" "call_view (mod_dev m) = (0, Map.empty, 3, lib)"
    "bound_ok env (mod_dev m)"
proof -
  let ?k1 = "(rr_dev_static lib)\<lparr>bufsize := n, dmabuf := replicate n 0\<rparr>"
  let ?k2 = "?k1\<lparr>node := True, devsel := init_devsel args (devsel ?k1)\<rparr>"
  obtain r k3 where p: "rr_fill_table_and_probe env ?k2 = (r, k3)" by force
  have "unbound ?k2" by (simp add: unbound_def rr_dev_static_def)
  from rr_fill_table_and_probe_bound [OF disjI1 [OF this] p] have k3: "node k3"
    "buffer_view k3 = (n, replicate n 0)" "call_view k3 = (0, Map.empty, 3, lib)" "bound_ok env k3"
    by (simp_all add: buffer_view_def call_view_def rr_dev_static_def)
  have "mod_dev m = k3"
    using assms(1) p by (auto simp: rr_init_def n_def [symmetric] Let_def split: if_splits)
  with k3 show "node (mod_dev m)" "buffer_view (mod_dev m) = (n, replicate n 0)"
    "call_view (mod_dev m) = (0, Map.empty, 3, lib)" "bound_ok env (mod_dev m)" by simp_all
qed

text \<open>The constructor on a freshly loaded module: descriptor 3, one user, nothing else changed.\<close>

lemma gennum_init_loaded:
  assumes "node (krn m)" "call_view (krn m) = (0, Map.empty, 3, True)"
  shows "gennum_init m = (Inr (length (objs m)),
    m\<lparr>krn := (krn m)\<lparr>fdtab := [3 \<mapsto> 0], next_fd := 4, usecount := 1\<rparr>,
      objs := objs m @ [\<lparr>g_fd = 3, g_errno = 0, g_attrs = Map.empty\<rparr>]\<rparr>)"
  using assms by (simp add: gennum_init_def load_lib_def sys_open_def rr_open_def call_view_def py_bind_def py_seq_def
      on_kernel_def Let_def)

lemma clamp_bufsize_span: "4 \<le> ptr \<Longrightarrow> clamp_bufsize ptr n \<le> bar_span"
proof -
  assume "4 \<le> ptr"
  then have "RR_PLIST_LEN ptr \<le> RR_PLIST_SIZE div 4" unfolding RR_PLIST_LEN_def by (rule div_le_mono2 [rotated]) simp
  then have "RR_MAX_BUFSIZE ptr \<le> bar_span" by (simp add: RR_MAX_BUFSIZE_def RR_PLIST_SIZE_def)
  with clamp_bufsize_le [of ptr n] show ?thesis by linarith
qed

lemma dma_word_zero:
  assumes "dmabuf (krn m) = replicate n 0"
  shows "dma_word w m a = 0"
proof -
  have "read_run (replicate n 0) a w = replicate (min w (n - a)) (0 :: nat)" by (simp add: read_run_def min.commute)
  with assms show ?thesis by (simp add: dma_word_def)
qed

lemma dma_block_final:
  assumes "dma_good N self m" "distinct (map fst ps)"
    and "\<And>a v. (a, v) \<in> set ps \<Longrightarrow> word_addr N a \<and> 0 \<le> v \<and> v < 2 ^ 32"
    and "st \<in> {gennum_iwrite env self, gennum_write env self}"
  shows "\<exists>t. py_block (map (\<lambda>(a, v). st 12 (int a) 4 v) ps) m = (Inr (), t) \<and> dma_good N self t
     \<and> (\<forall>(a, v) \<in> set ps. dma_word 4 t a = v)
     \<and> (\<forall>b. word_addr N b \<longrightarrow> b \<notin> fst ` set ps \<longrightarrow> dma_word 4 t b = dma_word 4 m b)"
  using assms(4) dma_ioctl.store_block [OF assms(1-3), of env] dma_file.store_block [OF assms(1-3), of env]
  by blast

lemma dma_load:
  assumes "ld \<in> {gennum_iread env self, gennum_read env self}" "dma_good N self t" "word_addr N a"
  shows "fst (ld 12 (int a) 4 t) = Inr (dma_word 4 t a)"
  using assms(1) dma_ioctl.ld_law [OF assms(2,3), of env] dma_file.ld_law [OF assms(2,3), of env] by auto

lemma getdmasize_value:
  assumes "fdtab (krn m) (self_fd self m) \<noteq> None"
  shows "gennum_getdmasize env self m = (Inr (int (bufsize (krn m))), m)"
  using assms by (auto simp: gennum_getdmasize_def rr_getdmasize_def sys_ioctl_def rr_ioctl_def py_bind_def on_kernel_def)

section \<open>Binding by address\<close>

text \<open>With no bus given, the device probed successfully first is the one that stays.\<close>

lemma rr_pciprobe_pdev:
  assumes "pdev k = None" "bus (devsel k) = RR_DEVSEL_UNUSED" "rr_pciprobe env p k = (r, k1)"
  shows "pdev k1 = (if pci_enable env p < 0 then None else Some p)" "devsel k1 = devsel k"
proof -
  have b: "pdev (rr_record_bar p i t) = pdev t" "devsel (rr_record_bar p i t) = devsel t" for i t
    by (simp_all add: rr_record_bar_def Let_def)
  have q: "pdev (rr_probe_irq env p t) = pdev t" "devsel (rr_probe_irq env p t) = devsel t" for t
    by (simp_all add: rr_probe_irq_def set_flag_def)
  show "pdev k1 = (if pci_enable env p < 0 then None else Some p)" "devsel k1 = devsel k"
    using assms by (auto simp: rr_pciprobe_def b q Let_def split: if_splits)
qed

lemma probe_all_taken: "pdev k \<noteq> None \<Longrightarrow> pdev (probe_all env ps k) = pdev k"
  by (induction ps) (auto simp: rr_pciprobe_def)

lemma probe_all_first:
  assumes "pdev k = None" "bus (devsel k) = RR_DEVSEL_UNUSED"
  shows "pdev (probe_all env ps k) = find (\<lambda>p. 0 \<le> pci_enable env p) ps"
  using assms
proof (induction ps arbitrary: k)
  case Nil
  then show ?case by simp
next
  case (Cons p ps)
  obtain r k1 where k1: "rr_pciprobe env p k = (r, k1)" by force
  note e = rr_pciprobe_pdev [OF Cons.prems k1]
  show ?case
  proof (cases "pci_enable env p < 0")
    case True
    with Cons.IH [of k1] e Cons.prems k1 show ?thesis by simp
  next
    case False
    with probe_all_taken [of k1 env ps] e k1 show ?thesis by simp
  qed
qed

text \<open>The table a vendor and a device alone make.\<close>

definition pair_id :: "nat \<Rightarrow> nat \<Rightarrow> pci_id" where
  "pair_id v d = \<lparr>id_vendor = v, id_device = d, id_subvendor = None, id_subdevice = None\<rparr>"

definition first_device :: "kenv \<Rightarrow> pci_id \<Rightarrow> pci_dev option" where
  "first_device env i =
     (if pci_register env i = 0 then find (\<lambda>p. 0 \<le> pci_enable env p) (pci_matches env i) else None)"

lemma rr_fill_table_and_probe_pdev:
  assumes "unbound k \<or> (pdev k \<noteq> None \<and> has_flag RR_FLAG_REGISTERED k)" "rr_fill_table_and_probe env k = (r, k1)"
    and "bus (devsel k) = RR_DEVSEL_UNUSED" "subvendor (devsel k) = RR_DEVSEL_UNUSED"
  shows "pdev k1 = first_device env (pair_id (vendor (devsel k)) (device (devsel k)))"
proof -
  define k2 where "k2 = (if has_flag RR_FLAG_REGISTERED k then clear_flag RR_FLAG_REGISTERED (pci_unregister_driver k) else k)"
  define k3 where "k3 = (rr_fill_table k2)\<lparr>completed := False\<rparr>"
  have c: "unbound (clear_flag f t) = unbound t" for f t by (simp add: unbound_def clear_flag_def)
  have k2: "setup_view k2 = setup_view k" "unbound k2"
    using assms(1) pci_unregister_setup [of k] by (auto simp: k2_def setup_view_flags c)
  have k3: "pdev k3 = None" "bus (devsel k3) = RR_DEVSEL_UNUSED" "id_table k3 = pair_id (vendor (devsel k)) (device (devsel k))"
    using k2(2) setup_view_eqD(1) [OF k2(1)] assms(3,4)
    by (simp_all add: k3_def rr_fill_table_def unbound_def pair_id_def Let_def)
  have i: "id_table (rr_fill_table k2) = id_table k3" by (simp add: k3_def)
  have "pdev k1 = (if pci_register env (id_table k3) = 0 then pdev (probe_all env (pci_matches env (id_table k3)) k3) else pdev k3)"
    using assms(2) by (auto simp: rr_fill_table_and_probe_def pci_register_driver_def Let_def k2_def [symmetric]
        k3_def [symmetric] i setup_view_flags split: if_splits)
  then show ?thesis using probe_all_first [OF k3(1,2)] k3(1,3) by (simp add: first_device_def)
qed

text \<open>\<open>bind\<close> through the only open descriptor of a registered or unbound driver.\<close>

lemma bind_first_device:
  assumes "addr_form s v d" "fdtab (krn m) (self_fd self m) \<noteq> None" "usecount (krn m) \<le> 1" "bound_ok env (krn m)"
  defines "i \<equiv> pair_id (hex_value v) (hex_value d)"
  shows "\<exists>r k. gennum_bind env self s m = (Inr r, put_errno self r (m\<lparr>krn := k\<rparr>)) \<and> r \<le> 0
    \<and> (r = 0 \<longleftrightarrow> pdev k \<noteq> None) \<and> pdev k = first_device env i \<and> fdtab k = fdtab (krn m)"
proof -
  from addr_form_match assms(1) obtain j c where "re_match addr_reg s = Some (j, c)" by (metis not_None_eq surj_pair)
  from parse_addr_match [OF this] assms(1) addr_form_unique have p: "parse_addr s = Inr (addr_dict v d)" by blast
  have h: "hex_value v < 2 ^ 16" "hex_value d < 2 ^ 16" using assms(1) hex_value_bound by (auto simp: addr_form_def)
  let ?ds = "\<lparr>vendor = hex_value v, device = hex_value d, subvendor = 0xffff, subdevice = 0xffff, bus = 0xffff, devfn = 0xffff\<rparr>"
  let ?k = "(krn m)\<lparr>devsel := ?ds\<rparr>"
  obtain q k where f: "rr_fill_table_and_probe env ?k = (q, k)" by force
  have u: "unbound ?k = unbound (krn m)" "has_flag g ?k = has_flag g (krn m)" for g
    by (simp_all add: unbound_def has_flag_def)
  have b: "unbound ?k \<or> (pdev ?k \<noteq> None \<and> has_flag RR_FLAG_REGISTERED ?k)"
    unfolding u using assms(4) by (auto simp: bound_ok_def)
  note B = rr_fill_table_and_probe_bound [OF b f]
  have pd: "pdev k = first_device env i"
    using rr_fill_table_and_probe_pdev [OF b f] by (simp add: i_def RR_DEVSEL_UNUSED_def)
  have fd: "fdtab k = fdtab (krn m)" using B by (simp add: call_view_def)
  have bc: "gennum_bind env self s m = (case rr_devsel_call env (self_fd self m) ?ds (krn m) of
     (Inl e, k) \<Rightarrow> (Inl e, m\<lparr>krn := k\<rparr>) | (Inr r, k) \<Rightarrow> (Inr r, put_errno self r (m\<lparr>krn := k\<rparr>)))"
    using bind_call [OF p RR_Devsel_addr] h by simp
  let ?r = "if q = 0 then - 19 else if 0 < q then 0 else - user_errno (- q)"
  have "rr_devsel_call env (self_fd self m) ?ds (krn m) = (Inr ?r, k)"
    using assms(2,3) f user_errno_pos [of "- q"]
    by (auto simp: rr_devsel_call_def sys_ioctl_def rr_ioctl_def ioctl_devsel_def errno_result_def user_errno_def)
  moreover have "?r \<le> 0" "?r = 0 \<longleftrightarrow> pdev k \<noteq> None" using B user_errno_pos [of "- q"] by auto
  ultimately show ?thesis using bc pd fd by auto
qed

section \<open>Properties\<close>

text \<open>C12: from loading the module to reading the buffer. Once \<open>rr_init\<close> succeeded, the first \<open>Gennum()\<close> is created without an error;
  \<open>getdmasize\<close> returns the size asked for (clamped); and after any block of word writes to distinct addresses of
  the buffer, through \<open>iwrite\<close> or through \<open>write\<close>, which raises nothing, every word of the buffer reads, through \<open>iread\<close> or \<open>read\<close>, as a map from
  addresses to words would: the last word written there, and 0 where nothing was written.\<close>

theorem session_buffer:
  assumes "rr_init ptr env menv args (rr_dev_static True) = (0, m0)" "4 \<le> ptr" "krn m = mod_dev m0"
    and "distinct (map fst ps)"
    and "\<And>a v. (a, v) \<in> set ps \<Longrightarrow> word_addr (clamp_bufsize ptr (rr_bufsize args)) a \<and> 0 \<le> v \<and> v < 2 ^ 32"
    and "self = length (objs m)"
    and "st \<in> {gennum_iwrite env self, gennum_write env self}" "ld \<in> {gennum_iread env self, gennum_read env self}"
  shows "\<exists>t u. gennum_init m = (Inr self, t)
    \<and> gennum_getdmasize env self t = (Inr (int (clamp_bufsize ptr (rr_bufsize args))), t)
    \<and> py_block (map (\<lambda>(a, v). st 12 (int a) 4 v) ps) t = (Inr (), u)
    \<and> (\<forall>a. word_addr (clamp_bufsize ptr (rr_bufsize args)) a
         \<longrightarrow> fst (ld 12 (int a) 4 u) = Inr (case map_of ps a of None \<Rightarrow> 0 | Some v \<Rightarrow> v))"
proof -
  define n where "n = clamp_bufsize ptr (rr_bufsize args)"
  note k = rr_init_state(1-3) [OF assms(1), folded assms(3) n_def]
  define t where "t = snd (gennum_init m)"
  have i: "gennum_init m = (Inr self, t)" unfolding t_def gennum_init_loaded [OF k(1,3)] by (simp add: assms(6))
  have t: "dmabuf (krn t) = replicate n 0" "bufsize (krn t) = n" "fdtab (krn t) (self_fd self t) \<noteq> None" "self < length (objs t)"
    using k(2) assms(6) by (simp_all add: t_def gennum_init_loaded [OF k(1,3)] buffer_view_def self_fd_def nth_append)
  have g: "dma_good n self t"
    using t clamp_bufsize_span [OF assms(2)] by (simp add: dma_good_def bound_obj_def list_all_iff n_def)
  from dma_block_final [OF g assms(4,5) [folded n_def] assms(7)] obtain u where
    u: "py_block (map (\<lambda>(a, v). st 12 (int a) 4 v) ps) t = (Inr (), u)" "dma_good n self u"
      "\<forall>(a, v) \<in> set ps. dma_word 4 u a = v"
      "\<forall>b. word_addr n b \<longrightarrow> b \<notin> fst ` set ps \<longrightarrow> dma_word 4 u b = dma_word 4 t b" by blast
  have "dma_word 4 u a = (case map_of ps a of None \<Rightarrow> 0 | Some v \<Rightarrow> v)" if "word_addr n a" for a
  proof (cases "map_of ps a")
    case None
    then have "a \<notin> fst ` set ps" by (simp add: map_of_eq_None_iff)
    with u(4) that dma_word_zero [OF t(1)] None show ?thesis by simp
  next
    case (Some v)
    with u(3) map_of_SomeD [OF Some] show ?thesis by auto
  qed
  with dma_load [OF assms(8) u(2)] have "\<forall>a. word_addr n a
      \<longrightarrow> fst (ld 12 (int a) 4 u) = Inr (case map_of ps a of None \<Rightarrow> 0 | Some v \<Rightarrow> v)" by simp
  with i u(1) getdmasize_value [OF t(3)] t(2) show ?thesis unfolding n_def [symmetric] by auto
qed

theorem session_buffer_witness:
  "\<exists>m t u. gennum_init m = (Inr 0, t)
     \<and> py_block (map (\<lambda>(a, v). gennum_write demo_env 0 12 (int a) 4 v) [(0x1040, 5), (8, 7)]) t = (Inr (), u)
     \<and> fst (gennum_iread demo_env 0 12 (int 0x1040) 4 u) = Inr 5 \<and> fst (gennum_iread demo_env 0 12 (int 0x1044) 4 u) = Inr 0"
proof -
  define ps :: "(nat \<times> int) list" where "ps = [(0x1040, 5), (8, 7)]"
  from demo_init obtain m0 where m0: "rr_init 8 demo_env demo_menv default_args (rr_dev_static True) = (0, m0)" by blast
  define m where "m = demo\<lparr>krn := mod_dev m0, objs := []\<rparr>"
  have n: "clamp_bufsize 8 (rr_bufsize default_args) = 1048576"
    by (simp add: clamp_bufsize_def RR_MAX_BUFSIZE_def RR_PLIST_LEN_def RR_PLIST_SIZE_def default_args_def RR_DEFAULT_BUFSIZE_def)
  have ps: "word_addr (clamp_bufsize 8 (rr_bufsize default_args)) a \<and> 0 \<le> v \<and> v < 2 ^ 32" if "(a, v) \<in> set ps" for a v
    using that by (auto simp: word_addr_def ps_def n)
  have d: "distinct (map fst ps)" by (simp add: ps_def)
  have m: "krn m = mod_dev m0" "0 = length (objs m)" by (simp_all add: m_def)
  have "gennum_write demo_env 0 \<in> {gennum_iwrite demo_env 0, gennum_write demo_env 0}"
    "gennum_iread demo_env 0 \<in> {gennum_iread demo_env 0, gennum_read demo_env 0}" by simp_all
  from session_buffer [OF m0 _ m(1) d ps m(2) this] obtain t u where r: "gennum_init m = (Inr 0, t)"
    "py_block (map (\<lambda>(a, v). gennum_write demo_env 0 12 (int a) 4 v) ps) t = (Inr (), u)"
    "\<And>a. word_addr 1048576 a \<Longrightarrow> fst (gennum_iread demo_env 0 12 (int a) 4 u) = Inr (case map_of ps a of None \<Rightarrow> 0 | Some v \<Rightarrow> v)"
    unfolding n by auto
  have "word_addr 1048576 0x1040" "word_addr 1048576 0x1044" by (simp_all add: word_addr_def)
  from r(3) [OF this(1)] r(3) [OF this(2)] r(1,2) show ?thesis unfolding ps_def by auto
qed

text \<open>C13: selecting a device by its address. On a loaded module, \<open>bind\<close> with a text that names vendor \<open>v\<close> and
  device \<open>d\<close> binds the first device that matches the two numbers (whatever sub-identifiers and slot the text gives) and can be
  enabled. It returns 0 exactly when there is one, and a negative error number otherwise; and \<open>info\<close>, called next,
  describes that device, or returns all zeroes with ENODEV in \<open>errno\<close>.\<close>

theorem session_bind:
  assumes "rr_init ptr env menv args (rr_dev_static True) = (0, m0)" "krn m = mod_dev m0" "self = length (objs m)"
    and "addr_form s v d"
  shows "\<exists>t r u w. gennum_init m = (Inr self, t) \<and> gennum_bind env self s t = (Inr r, u) \<and> gennum_info env self u =
      (Inr (info_string (case first_device env (pair_id (hex_value v) (hex_value d)) of
         None \<Rightarrow> RR_Devsel_0 | Some p \<Rightarrow> devsel_of_pdev p)), w)
    \<and> r \<le> 0 \<and> (r = 0 \<longleftrightarrow> first_device env (pair_id (hex_value v) (hex_value d)) \<noteq> None)
    \<and> g_errno (objs u ! self) = r \<and> g_errno (objs w ! self) = (if r = 0 then 0 else - 19)"
proof -
  note k = rr_init_state [OF assms(1), folded assms(2)]
  define t where "t = snd (gennum_init m)"
  let ?k = "(krn m)\<lparr>fdtab := [3 \<mapsto> 0], next_fd := 4, usecount := 1\<rparr>"
  have i: "gennum_init m = (Inr self, t)" unfolding t_def gennum_init_loaded [OF k(1,3)] by (simp add: assms(3))
  have t: "krn t = ?k" "fdtab (krn t) (self_fd self t) \<noteq> None" "self < length (objs t)"
    using assms(3) by (simp_all add: t_def gennum_init_loaded [OF k(1,3)] self_fd_def nth_append)
  have "bound_view ?k = bound_view (krn m)" by (simp add: bound_view_def has_flag_def)
  from bound_ok_view [OF this k(4)] t(1) have "bound_ok env (krn t)" "usecount (krn t) \<le> 1" by simp_all
  from bind_first_device [OF assms(4) t(2) this(2,1)] obtain r k1 where
    b: "gennum_bind env self s t = (Inr r, put_errno self r (t\<lparr>krn := k1\<rparr>))" "r \<le> 0" "r = 0 \<longleftrightarrow> pdev k1 \<noteq> None"
      "pdev k1 = first_device env (pair_id (hex_value v) (hex_value d))" "fdtab k1 = fdtab (krn t)" by blast
  let ?u = "put_errno self r (t\<lparr>krn := k1\<rparr>)"
  have u: "fdtab (krn ?u) (self_fd self ?u) \<noteq> None" "self < length (objs ?u)" "krn ?u = k1" "g_errno (objs ?u ! self) = r"
    using t(2,3) b(5) by (simp_all add: put_errno_def self_fd_def)
  from info_result [OF u(1,2), of env] obtain w where
    w: "gennum_info env self ?u = (Inr (info_string (case pdev k1 of None \<Rightarrow> RR_Devsel_0 | Some p \<Rightarrow> devsel_of_pdev p)), w)"
      "g_errno (objs w ! self) = (case pdev k1 of None \<Rightarrow> - 19 | Some p \<Rightarrow> 0)" unfolding u(3) by blast
  have "g_errno (objs w ! self) = (if r = 0 then 0 else - 19)" using w(2) b(3) by (cases "pdev k1") auto
  with i b(1-4) w(1) u(4) show ?thesis by metis
qed

theorem session_bind_witness:
  "\<exists>m t u w. gennum_init m = (Inr 0, t) \<and> gennum_bind demo_env 0 ''1A39:4/10dc:1'' t = (Inr 0, u)
     \<and> gennum_info demo_env 0 u = (Inr (info_string (devsel_of_pdev demo_pdev)), w)"
proof -
  from demo_init obtain m0 where m0: "rr_init 8 demo_env demo_menv default_args (rr_dev_static True) = (0, m0)" by blast
  define m where "m = demo\<lparr>krn := mod_dev m0, objs := []\<rparr>"
  have m: "krn m = mod_dev m0" "0 = length (objs m)" by (simp_all add: m_def)
  have "pair_ok (Some (''10dc'', ''1''))" by code_simp
  moreover have "hexs ''1A39'' \<and> hexs ''4''" by code_simp
  moreover have "''1A39:4/10dc:1'' = addr_text ''1A39'' ''4'' (Some (''10dc'', ''1'')) None @ []"
    by (simp add: addr_text_def pair_text_def)
  ultimately have a: "addr_form ''1A39:4/10dc:1'' ''1A39'' ''4''"
    unfolding addr_form_def by (intro conjI exI [of _ "Some (''10dc'', ''1'')"] exI [of _ None] exI [of _ "[]"])
      (simp_all add: pair_ok_def)
  have "first_device demo_env i = Some demo_pdev" for i by (simp add: first_device_def demo_env_def)
  with session_bind [OF m0 m a] show ?thesis by (metis option.simps(3,5))
qed

end
