(* ===== verification/Ctypes.thy ===== *)
theory Ctypes
  imports PyText Interfaces
begin

text \<open>
  Module ctypes (sw/gnurabbit/python/ctypes/__init__.py), the part written in Python: the tables of
  function and pointer types, the buffers, the library objects and the choice of the sized integer types.
  A class made at run time is a cell of the list \<open>classes\<close> and is named by its index, so two requests give
  the same class exactly when they give the same number. What the C module \<open>_ctypes\<close> does is taken from its
  documentation where it only records what it is given (the attributes of a class, an array of zeroes), and
  is a parameter otherwise (\<open>dlopen\<close>, the symbols of a library, the sizes of the platform's types, the codec of unicode
  strings).
\<close>

section \<open>Simple types\<close>

text \<open>A simple type is its type code. The integer types that share their size are one class.\<close>

definition c_int :: "(char \<Rightarrow> nat) \<Rightarrow> char" where
  "c_int calcsize = (if calcsize (CHR ''i'') = calcsize (CHR ''l'') then CHR ''l'' else CHR ''i'')"

definition c_uint :: "(char \<Rightarrow> nat) \<Rightarrow> char" where
  "c_uint calcsize = (if calcsize (CHR ''i'') = calcsize (CHR ''l'') then CHR ''L'' else CHR ''I'')"

definition c_longlong :: "(char \<Rightarrow> nat) \<Rightarrow> char" where
  "c_longlong calcsize = (if calcsize (CHR ''l'') = calcsize (CHR ''q'') then CHR ''l'' else CHR ''q'')"

definition c_ulonglong :: "(char \<Rightarrow> nat) \<Rightarrow> char" where
  "c_ulonglong calcsize = (if calcsize (CHR ''l'') = calcsize (CHR ''q'') then CHR ''L'' else CHR ''Q'')"

definition simple_types :: "(char \<Rightarrow> nat) \<Rightarrow> (string \<times> char) list" where
  "simple_types calcsize =
     [(''py_object'', CHR ''O''), (''c_short'', CHR ''h''), (''c_ushort'', CHR ''H''), (''c_long'', CHR ''l''),
      (''c_ulong'', CHR ''L''), (''c_int'', c_int calcsize), (''c_uint'', c_uint calcsize),
      (''c_float'', CHR ''f''), (''c_double'', CHR ''d''), (''c_longlong'', c_longlong calcsize),
      (''c_ulonglong'', c_ulonglong calcsize), (''c_ubyte'', CHR ''B''), (''c_byte'', CHR ''b''), (''c_char'', CHR ''c''),
      (''c_char_p'', CHR ''z''), (''c_void_p'', CHR ''P''), (''c_voidp'', CHR ''P''), (''c_wchar_p'', CHR ''Z''),
      (''c_wchar'', CHR ''u'')]"

text \<open>\<open>c_size_t\<close> is left undefined when neither type fits.\<close>

definition c_size_t :: "(char \<Rightarrow> nat) \<Rightarrow> char option" where
  "c_size_t calcsize =
     (if calcsize (c_uint calcsize) = calcsize (CHR ''P'') then Some (c_uint calcsize)
      else if calcsize (CHR ''L'') = calcsize (CHR ''P'') then Some (CHR ''L'') else None)"

text \<open>The loops that fill in the sized types: the last kind of a size wins.\<close>

record sized =
  s16 :: "char option"
  s32 :: "char option"
  s64 :: "char option"

fun fill_sized :: "(char \<Rightarrow> nat) \<Rightarrow> char list \<Rightarrow> sized \<Rightarrow> sized" where
  "fill_sized calcsize [] s = s"
| "fill_sized calcsize (kind # kinds) s =
     fill_sized calcsize kinds
       (if calcsize kind = 2 then s\<lparr>s16 := Some kind\<rparr>
        else if calcsize kind = 4 then s\<lparr>s32 := Some kind\<rparr>
        else if calcsize kind = 8 then s\<lparr>s64 := Some kind\<rparr> else s)"

definition no_sized :: sized where "no_sized = \<lparr>s16 = None, s32 = None, s64 = None\<rparr>"

definition c_int8 :: char where "c_int8 = CHR ''b''"

definition c_uint8 :: char where "c_uint8 = CHR ''B''"

definition signed_sized :: "(char \<Rightarrow> nat) \<Rightarrow> sized" where
  "signed_sized calcsize =
     fill_sized calcsize [CHR ''h'', c_int calcsize, CHR ''l'', c_longlong calcsize] no_sized"

definition unsigned_sized :: "(char \<Rightarrow> nat) \<Rightarrow> sized" where
  "unsigned_sized calcsize =
     fill_sized calcsize [CHR ''H'', c_uint calcsize, CHR ''L'', c_ulonglong calcsize] no_sized"

datatype rtld = RTLD_LOCAL | RTLD_GLOBAL

definition DEFAULT_MODE :: "string \<Rightarrow> string \<Rightarrow> nat \<Rightarrow> rtld" where
  "DEFAULT_MODE os_name platform sysv =
     (if os_name = ''posix'' \<and> platform = ''darwin'' \<and> sysv < 0x1040 then RTLD_GLOBAL else RTLD_LOCAL)"

section \<open>Classes made on request\<close>

type_synonym ty = nat

datatype funcflag = FUNCFLAG_CDECL | FUNCFLAG_STDCALL | FUNCFLAG_PYTHONAPI

datatype spec =
    Simple char
  | FuncType "ty option" "ty list" "funcflag list"
  | Pointer "ty option"
  | ArrayType ty nat

record cls =
  cls_name :: string
  cls_spec :: spec

text \<open>The keys of the pointer table: \<open>None\<close>, a class, and the identity of a class that points to nothing yet.
  A string is a key too, one that is looked up but never stored.\<close>

datatype ptr_key = KNone | KType ty | KName string | KId ty

record interp =
  classes :: "cls list"
  c_functype_cache :: "ty option \<times> ty list \<Rightarrow> ty option"
  win_functype_cache :: "ty option \<times> ty list \<Rightarrow> ty option"
  pointer_type_cache :: "ptr_key \<Rightarrow> ty option"

definition new_class :: "string \<Rightarrow> spec \<Rightarrow> interp \<Rightarrow> ty \<times> interp" where
  "new_class n sp s = (length (classes s), s\<lparr>classes := classes s @ [\<lparr>cls_name = n, cls_spec = sp\<rparr>]\<rparr>)"

definition CFUNCTYPE :: "ty option \<Rightarrow> ty list \<Rightarrow> interp \<Rightarrow> ty \<times> interp" where
  "CFUNCTYPE restype argtypes s =
     (case c_functype_cache s (restype, argtypes) of
        Some k \<Rightarrow> (k, s)
      | None \<Rightarrow>
          let (k, s1) = new_class ''CFunctionType'' (FuncType restype argtypes [FUNCFLAG_CDECL]) s
          in (k, s1\<lparr>c_functype_cache := (c_functype_cache s1)((restype, argtypes) \<mapsto> k)\<rparr>))"

definition stdcall_flag :: "string \<Rightarrow> funcflag" where
  "stdcall_flag os_name = (if os_name = ''ce'' then FUNCFLAG_CDECL else FUNCFLAG_STDCALL)"

definition WINFUNCTYPE :: "string \<Rightarrow> ty option \<Rightarrow> ty list \<Rightarrow> interp \<Rightarrow> ty \<times> interp" where
  "WINFUNCTYPE os_name restype argtypes s =
     (case win_functype_cache s (restype, argtypes) of
        Some k \<Rightarrow> (k, s)
      | None \<Rightarrow>
          let (k, s1) = new_class ''WinFunctionType'' (FuncType restype argtypes [stdcall_flag os_name]) s
          in (k, s1\<lparr>win_functype_cache := (win_functype_cache s1)((restype, argtypes) \<mapsto> k)\<rparr>))"

definition PYFUNCTYPE :: "ty option \<Rightarrow> ty list \<Rightarrow> interp \<Rightarrow> ty \<times> interp" where
  "PYFUNCTYPE restype argtypes s =
     new_class ''CFunctionType'' (FuncType restype argtypes [FUNCFLAG_CDECL, FUNCFLAG_PYTHONAPI]) s"

datatype ptr_arg = ANone | AType ty | AName string

fun ptr_key_of :: "ptr_arg \<Rightarrow> ptr_key" where
  "ptr_key_of ANone = KNone"
| "ptr_key_of (AType t) = KType t"
| "ptr_key_of (AName n) = KName n"

definition POINTER :: "ptr_arg \<Rightarrow> interp \<Rightarrow> (exn + ty) \<times> interp" where
  "POINTER a s =
     (case pointer_type_cache s (ptr_key_of a) of
        Some k \<Rightarrow> (Inr k, s)
      | None \<Rightarrow>
          (case a of
             AName n \<Rightarrow>
               let (k, s1) = new_class (''LP_'' @ n) (Pointer None) s
               in (Inr k, s1\<lparr>pointer_type_cache := (pointer_type_cache s1)(KId k \<mapsto> k)\<rparr>)
           | AType t \<Rightarrow>
               let (k, s1) = new_class (''LP_'' @ cls_name (classes s ! t)) (Pointer (Some t)) s
               in (Inr k, s1\<lparr>pointer_type_cache := (pointer_type_cache s1)(KType t \<mapsto> k)\<rparr>)
           | ANone \<Rightarrow> (Inl AttributeError, s)))"

definition set_type :: "ty \<Rightarrow> ty \<Rightarrow> interp \<Rightarrow> interp" where
  "set_type p t s = s\<lparr>classes := (classes s)[p := (classes s ! p)\<lparr>cls_spec := Pointer (Some t)\<rparr>]\<rparr>"

definition SetPointerType :: "ty \<Rightarrow> ty \<Rightarrow> interp \<Rightarrow> (exn + unit) \<times> interp" where
  "SetPointerType p t s =
     (if pointer_type_cache s (KType t) \<noteq> None then (Inl RuntimeError, s)
      else if pointer_type_cache s (KId p) = None then (Inl RuntimeError, s)
      else let s1 = set_type p t s
           in (Inr (), s1\<lparr>pointer_type_cache := (pointer_type_cache s1)(KType t \<mapsto> p, KId p := None)\<rparr>))"

text \<open>The module's entry for the untyped pointer: \<open>POINTER(None)\<close> is \<open>c_void_p\<close>.\<close>

definition set_void_pointer :: "ty \<Rightarrow> interp \<Rightarrow> interp" where
  "set_void_pointer c_void_p s = s\<lparr>pointer_type_cache := (pointer_type_cache s)(KNone \<mapsto> c_void_p)\<rparr>"

text \<open>\<open>pointer(inst)\<close>: the instance is its class and its cell; the result is the pointer class and what it points to.\<close>

definition pointer :: "ty \<times> nat \<Rightarrow> interp \<Rightarrow> (exn + ty \<times> nat) \<times> interp" where
  "pointer inst s =
     (case POINTER (AType (fst inst)) s of
        (Inl e, s1) \<Rightarrow> (Inl e, s1)
      | (Inr k, s1) \<Rightarrow> (Inr (k, snd inst), s1))"

definition ARRAY :: "ty \<Rightarrow> nat \<Rightarrow> spec" where
  "ARRAY typ n = ArrayType typ n"

section \<open>Buffers\<close>

text \<open>The argument of a buffer: a byte string, a unicode string, a number, or something else. \<open>codec\<close> turns the
  string that is not of the buffer's kind into one that is, and may raise.\<close>

datatype 'c buf_arg = SameText "'c list" | OtherText "nat list" | Number int | Something

text \<open>\<open>typ * n\<close> and an instance of it: \<open>n\<close> zeroes.\<close>

definition array_type :: "int \<Rightarrow> exn + nat" where
  "array_type n = (if n < 0 then Inl ValueError else Inr (nat n))"

definition zeroes :: "'c \<Rightarrow> nat \<Rightarrow> 'c list" where
  "zeroes zero n = replicate n zero"

text \<open>\<open>buf.value = t\<close>: the text, and a zero after it where there is room.\<close>

definition set_value :: "'c \<Rightarrow> 'c list \<Rightarrow> 'c list \<Rightarrow> exn + 'c list" where
  "set_value zero t buf =
     (if length buf < length t then Inl ValueError
      else if length t < length buf then Inr (t @ zero # drop (length t + 1) buf)
      else Inr t)"

definition buffer_of_text :: "'c \<Rightarrow> (nat list \<Rightarrow> exn + 'c list) \<Rightarrow> 'c buf_arg \<Rightarrow> int \<Rightarrow> int option \<Rightarrow> exn + 'c list" where
  "buffer_of_text zero codec init n sz =
     (let sz1 = (case sz of None \<Rightarrow> n + 1 | Some k \<Rightarrow> k)
      in case array_type sz1 of
           Inl e \<Rightarrow> Inl e
         | Inr k \<Rightarrow>
             (case (case init of SameText t \<Rightarrow> Inr t | OtherText u \<Rightarrow> codec u | _ \<Rightarrow> Inl TypeError) of
                Inl e \<Rightarrow> Inl e
              | Inr t \<Rightarrow> set_value zero t (zeroes zero k)))"

definition create_buffer :: "'c \<Rightarrow> (nat list \<Rightarrow> exn + 'c list) \<Rightarrow> 'c buf_arg \<Rightarrow> int option \<Rightarrow> exn + 'c list" where
  "create_buffer zero codec init sz =
     (case init of
        SameText t \<Rightarrow> buffer_of_text zero codec init (int (length t)) sz
      | OtherText u \<Rightarrow> buffer_of_text zero codec init (int (length u)) sz
      | Number n \<Rightarrow> (case array_type n of Inl e \<Rightarrow> Inl e | Inr k \<Rightarrow> Inr (zeroes zero k))
      | Something \<Rightarrow> Inl TypeError)"

definition nul :: char where "nul = char_of (0 :: nat)"

definition create_string_buffer :: "(nat list \<Rightarrow> exn + string) \<Rightarrow> char buf_arg \<Rightarrow> int option \<Rightarrow> exn + string" where
  "create_string_buffer codec init sz = create_buffer nul codec init sz"

definition c_buffer :: "(nat list \<Rightarrow> exn + string) \<Rightarrow> char buf_arg \<Rightarrow> int option \<Rightarrow> exn + string" where
  "c_buffer codec init sz = create_string_buffer codec init sz"

text \<open>Characters of a unicode buffer are code points.\<close>

definition create_unicode_buffer ::
    "(nat list \<Rightarrow> exn + nat list) \<Rightarrow> nat buf_arg \<Rightarrow> int option \<Rightarrow> exn + nat list" where
  "create_unicode_buffer codec init sz = create_buffer 0 codec init sz"

text \<open>Reading \<open>buf.value\<close> stops at the first zero.\<close>

definition get_value :: "'c \<Rightarrow> 'c list \<Rightarrow> 'c list" where
  "get_value zero buf = takeWhile (\<lambda>c. c \<noteq> zero) buf"

end
