(* ===== verification/Ctypes_Endian.thy ===== *)
theory Ctypes_Endian
  imports Ctypes
begin

text \<open>
  Structures of the other byte order (sw/gnurabbit/python/ctypes/_endian.py). A type is a tree here, because
  the byte order of an array is that of its elements. Whether a type has a counterpart of the other byte order is
  recorded by the C module in an attribute of the type; \<open>other\<close>, a parameter, looks it up.
\<close>

datatype cty =
    CSimple char
  | CSwapped char
  | CArray cty nat
  | CPointer cty
  | CStruct string "(string \<times> cty) list"

text \<open>A field: its name, its type, and the rest of its description (the width of a bit field).\<close>

type_synonym field = "string \<times> cty \<times> nat list"

fun other_endian :: "(cty \<Rightarrow> cty option) \<Rightarrow> cty \<Rightarrow> exn + cty" where
  "other_endian other (CArray t n) =
     (case other (CArray t n) of
        Some u \<Rightarrow> Inr u
      | None \<Rightarrow> (case other_endian other t of Inl e \<Rightarrow> Inl e | Inr u \<Rightarrow> Inr (CArray u n)))"
| "other_endian other t = (case other t of Some u \<Rightarrow> Inr u | None \<Rightarrow> Inl TypeError)"

fun swapped_fields :: "(cty \<Rightarrow> cty option) \<Rightarrow> field list \<Rightarrow> exn + field list" where
  "swapped_fields other [] = Inr []"
| "swapped_fields other ((name, typ, rest) # value) =
     (case other_endian other typ of
        Inl e \<Rightarrow> Inl e
      | Inr u \<Rightarrow> (case swapped_fields other value of Inl e \<Rightarrow> Inl e | Inr fs \<Rightarrow> Inr ((name, u, rest) # fs)))"

text \<open>The attributes of a structure class; \<open>_swapped_meta\<close> rewrites \<open>_fields_\<close> and stores the others as they are.\<close>

datatype attr_value = AFields "field list" | AValue int

definition swapped_setattr ::
    "(cty \<Rightarrow> cty option) \<Rightarrow> string \<Rightarrow> attr_value \<Rightarrow> (string \<Rightarrow> attr_value option) \<Rightarrow> exn + (string \<Rightarrow> attr_value option)" where
  "swapped_setattr other attrname v attrs =
     (case v of
        AFields fs \<Rightarrow>
          if attrname = ''_fields_''
          then (case swapped_fields other fs of Inl e \<Rightarrow> Inl e | Inr gs \<Rightarrow> Inr (attrs(attrname \<mapsto> AFields gs)))
          else Inr (attrs(attrname \<mapsto> v))
      | AValue x \<Rightarrow> if attrname = ''_fields_'' then Inl TypeError else Inr (attrs(attrname \<mapsto> v)))"

text \<open>Which of the two structure classes is the plain one depends on the machine.\<close>

datatype byteorder = Little | Big

definition structure_swapped :: "string \<Rightarrow> exn + (byteorder \<Rightarrow> bool)" where
  "structure_swapped sys_byteorder =
     (if sys_byteorder = ''little'' then Inr (\<lambda>b. b = Big)
      else if sys_byteorder = ''big'' then Inr (\<lambda>b. b = Little)
      else Inl RuntimeError)"

definition OTHER_ENDIAN :: "string \<Rightarrow> string" where
  "OTHER_ENDIAN sys_byteorder = (if sys_byteorder = ''little'' then ''__ctype_be__'' else ''__ctype_le__'')"

section \<open>Swapping a structure\<close>

text \<open>The innermost element of nested arrays.\<close>

fun element :: "cty \<Rightarrow> cty" where
  "element (CArray t n) = element t"
| "element t = t"

fun with_element :: "cty \<Rightarrow> cty \<Rightarrow> cty" where
  "with_element (CArray t n) u = CArray (with_element t u) n"
| "with_element t u = u"

text \<open>Only types that are no arrays have a counterpart of their own.\<close>

definition no_arrays :: "(cty \<Rightarrow> cty option) \<Rightarrow> bool" where
  "no_arrays other \<longleftrightarrow> (\<forall>t n. other (CArray t n) = None)"

lemma other_endian_element:
  "no_arrays other \<Longrightarrow> other_endian other t =
    (case other (element t) of None \<Rightarrow> Inl TypeError | Some u \<Rightarrow> Inr (with_element t u))"
  by (induction t) (auto simp: no_arrays_def split: option.splits)

lemma swapped_fields_list:
  assumes "no_arrays other"
  shows "swapped_fields other fs =
    (if list_all (\<lambda>(name, typ, rest). other (element typ) \<noteq> None) fs
     then Inr (map (\<lambda>(name, typ, rest). (name, with_element typ (the (other (element typ))), rest)) fs)
     else Inl TypeError)"
proof (induction fs)
  case (Cons f fs)
  obtain name u rest where f: "f = (name, u, rest)" by (cases f)
  show ?case unfolding f swapped_fields.simps other_endian_element [OF assms] Cons
    by (cases "other (element u)") auto
qed simp


text \<open>The counterparts on a machine where the integers of more than one byte have one.\<close>

definition demo_other :: "cty \<Rightarrow> cty option" where
  "demo_other t = (case t of CSimple c \<Rightarrow> if c \<in> {CHR ''B'', CHR ''b'', CHR ''c''} then Some t else Some (CSwapped c) | _ \<Rightarrow> None)"


end
