(* ===== verification/Ctypes_Libs.thy ===== *)
theory Ctypes_Libs
  imports Ctypes
begin

text \<open>
  The library objects of module ctypes: \<open>CDLL\<close> and the classes derived from it, whose functions are
  found as attributes or by indexing, and \<open>LibraryLoader\<close>, whose attributes are libraries. Libraries, functions
  and loaders are cells of three lists, named by their index. \<open>_dlopen\<close> and the look-up of a symbol, both in C, are
  the fields of \<open>dl\<close>; a symbol that is missing raises \<open>AttributeError\<close>.
\<close>

section \<open>State\<close>

datatype symbol = ByName string | ByOrdinal int

datatype dll_kind = CDLL | PyDLL | WinDLL | OleDLL

record dl =
  dlopen :: "string option \<Rightarrow> rtld \<Rightarrow> exn + int"
  dlsym :: "int \<Rightarrow> symbol \<Rightarrow> bool"
  dl_os :: string

record library =
  l_kind :: dll_kind
  l_name :: "string option"
  l_handle :: int
  l_attrs :: "string \<Rightarrow> nat option"

text \<open>A function pointer: the library and symbol it was made from, and its \<open>__name__\<close>.\<close>

record cfunc =
  f_lib :: nat
  f_symbol :: symbol
  f_name :: "string option"

record loader =
  ld_kind :: dll_kind
  ld_attrs :: "string \<Rightarrow> nat option"

record world =
  libs :: "library list"
  funcs :: "cfunc list"
  loaders :: "loader list"

text \<open>The calling convention and the result type of the functions of each class of library.\<close>

definition func_flags :: "string \<Rightarrow> dll_kind \<Rightarrow> funcflag list" where
  "func_flags os_name k =
     (case k of CDLL \<Rightarrow> [FUNCFLAG_CDECL]
      | PyDLL \<Rightarrow> [FUNCFLAG_CDECL, FUNCFLAG_PYTHONAPI]
      | WinDLL \<Rightarrow> [stdcall_flag os_name]
      | OleDLL \<Rightarrow> [stdcall_flag os_name])"

definition func_restype :: "dll_kind \<Rightarrow> string" where
  "func_restype k = (if k = OleDLL then ''HRESULT'' else ''c_int'')"

section \<open>Libraries\<close>

definition dll_init :: "dl \<Rightarrow> dll_kind \<Rightarrow> string option \<Rightarrow> rtld \<Rightarrow> int option \<Rightarrow> (world, nat) py" where
  "dll_init d k name mode handle w =
     (case (case handle of None \<Rightarrow> dlopen d name mode | Some h \<Rightarrow> Inr h) of
        Inl e \<Rightarrow> (Inl e, w)
      | Inr h \<Rightarrow> (Inr (length (libs w)),
                  w\<lparr>libs := libs w @ [\<lparr>l_kind = k, l_name = name, l_handle = h, l_attrs = Map.empty\<rparr>]\<rparr>))"

definition dll_getitem :: "dl \<Rightarrow> nat \<Rightarrow> symbol \<Rightarrow> (world, nat) py" where
  "dll_getitem d self symb w =
     (if \<not> dlsym d (l_handle (libs w ! self)) symb then (Inl AttributeError, w)
      else (Inr (length (funcs w)),
            w\<lparr>funcs := funcs w @ [\<lparr>f_lib = self, f_symbol = symb,
                f_name = (case symb of ByName n \<Rightarrow> Some n | ByOrdinal i \<Rightarrow> None)\<rparr>]\<rparr>))"

definition dll_setattr :: "nat \<Rightarrow> string \<Rightarrow> nat \<Rightarrow> (world, unit) py" where
  "dll_setattr self name f =
     py_modify (\<lambda>w. w\<lparr>libs := (libs w)[self := (libs w ! self)\<lparr>l_attrs := (l_attrs (libs w ! self))(name \<mapsto> f)\<rparr>]\<rparr>)"

definition dll_getattr :: "dl \<Rightarrow> nat \<Rightarrow> string \<Rightarrow> (world, nat) py" where
  "dll_getattr d self name =
     (if starts_with ''__'' name \<and> ends_with ''__'' name then py_raise AttributeError
      else py_bind (dll_getitem d self (ByName name)) (\<lambda>func.
           py_seq (dll_setattr self name func) (py_ret func)))"

text \<open>\<open>lib.name\<close> for a name that is not one of the object's own (\<open>_name\<close>, \<open>_handle\<close>, its methods): \<open>__getattr__\<close>
  is called only when the object has no such attribute.\<close>

definition dll_attribute :: "dl \<Rightarrow> nat \<Rightarrow> string \<Rightarrow> (world, nat) py" where
  "dll_attribute d self name w =
     (case l_attrs (libs w ! self) name of
        Some func \<Rightarrow> (Inr func, w)
      | None \<Rightarrow> dll_getattr d self name w)"

section \<open>Loaders\<close>

definition loader_init :: "dll_kind \<Rightarrow> (world, nat) py" where
  "loader_init k w = (Inr (length (loaders w)), w\<lparr>loaders := loaders w @ [\<lparr>ld_kind = k, ld_attrs = Map.empty\<rparr>]\<rparr>)"

definition LoadLibrary :: "dl \<Rightarrow> rtld \<Rightarrow> nat \<Rightarrow> string \<Rightarrow> (world, nat) py" where
  "LoadLibrary d mode self name w = dll_init d (ld_kind (loaders w ! self)) (Some name) mode None w"

definition loader_setattr :: "nat \<Rightarrow> string \<Rightarrow> nat \<Rightarrow> (world, unit) py" where
  "loader_setattr self name l =
     py_modify (\<lambda>w. w\<lparr>loaders := (loaders w)[self := (loaders w ! self)\<lparr>ld_attrs := (ld_attrs (loaders w ! self))(name \<mapsto> l)\<rparr>]\<rparr>)"

definition loader_getattr :: "dl \<Rightarrow> rtld \<Rightarrow> nat \<Rightarrow> string \<Rightarrow> (world, nat) py" where
  "loader_getattr d mode self name =
     py_bind (py_lift (py_index name 0)) (\<lambda>c.
     if c = CHR ''_'' then py_raise AttributeError
     else py_bind (LoadLibrary d mode self name) (\<lambda>l.
          py_seq (loader_setattr self name l) (py_ret l)))"

definition loader_attribute :: "dl \<Rightarrow> rtld \<Rightarrow> nat \<Rightarrow> string \<Rightarrow> (world, nat) py" where
  "loader_attribute d mode self name w =
     (case ld_attrs (loaders w ! self) name of
        Some l \<Rightarrow> (Inr l, w)
      | None \<Rightarrow> loader_getattr d mode self name w)"

definition loader_getitem :: "dl \<Rightarrow> rtld \<Rightarrow> nat \<Rightarrow> string \<Rightarrow> (world, nat) py" where
  "loader_getitem d mode self name = loader_attribute d mode self name"

text \<open>The loaders the module makes: \<open>cdll\<close> and \<open>pydll\<close>, and two more on Windows.\<close>

definition module_loaders :: "dl \<Rightarrow> dll_kind list" where
  "module_loaders d = [CDLL, PyDLL] @ (if dl_os d \<in> {''nt'', ''ce''} then [WinDLL, OleDLL] else [])"

text \<open>\<open>pythonapi\<close>: the name, the mode left at its default, and the handle.\<close>

definition pythonapi :: "dl \<Rightarrow> string \<Rightarrow> rtld \<Rightarrow> int \<Rightarrow> string \<Rightarrow> (world, nat) py" where
  "pythonapi d platform mode dllhandle version =
     (if dl_os d \<in> {''nt'', ''ce''} then dll_init d PyDLL (Some ''python dll'') RTLD_LOCAL (Some dllhandle)
      else if platform = ''cygwin'' then dll_init d PyDLL (Some (''libpython'' @ version @ ''.dll'')) mode None
      else dll_init d PyDLL None mode None)"

section \<open>Text of a library, errors and the COM entry points\<close>

text \<open>\<open>CDLL.__repr__\<close>; \<open>maxint\<close> and the identity of the object belong to the interpreter.\<close>

definition dll_class_name :: "dll_kind \<Rightarrow> string" where
  "dll_class_name k = (case k of CDLL \<Rightarrow> ''CDLL'' | PyDLL \<Rightarrow> ''PyDLL'' | WinDLL \<Rightarrow> ''WinDLL'' | OleDLL \<Rightarrow> ''OleDLL'')"

definition dll_repr :: "int \<Rightarrow> library \<Rightarrow> int \<Rightarrow> string" where
  "dll_repr maxint l ident =
     ''<'' @ dll_class_name (l_kind l) @ '' '' @ [CHR 0x27] @ (case l_name l of None \<Rightarrow> ''None'' | Some n \<Rightarrow> n) @ [CHR 0x27]
     @ '', handle '' @ fmt_hex False 0 (and (l_handle l) (maxint * 2 + 1))
     @ '' at '' @ fmt_hex False 0 (and ident (maxint * 2 + 1)) @ ''>''"

text \<open>\<open>WinError\<close>: the arguments of the exception it makes, from \<open>GetLastError\<close> and \<open>FormatError\<close> of the system.\<close>

definition WinError :: "int \<Rightarrow> (int \<Rightarrow> string) \<Rightarrow> int option \<Rightarrow> string option \<Rightarrow> int \<times> string" where
  "WinError last_error FormatError code descr =
     (let code1 = (case code of None \<Rightarrow> last_error | Some c \<Rightarrow> c)
      in (code1, case descr of None \<Rightarrow> py_strip (FormatError code1) | Some d \<Rightarrow> d))"

text \<open>The package comtypes, if it is there, answers the COM entry points.\<close>

record com_server =
  get_class_object :: "int \<Rightarrow> int \<Rightarrow> int \<Rightarrow> exn + int"
  can_unload_now :: "exn + int"

definition DllGetClassObject :: "com_server option \<Rightarrow> int \<Rightarrow> int \<Rightarrow> int \<Rightarrow> exn + int" where
  "DllGetClassObject ccom rclsid riid ppv =
     (case ccom of None \<Rightarrow> Inr (- 2147221231) | Some c \<Rightarrow> get_class_object c rclsid riid ppv)"

definition DllCanUnloadNow :: "com_server option \<Rightarrow> exn + int" where
  "DllCanUnloadNow ccom = (case ccom of None \<Rightarrow> Inr 0 | Some c \<Rightarrow> can_unload_now c)"

end
