(* ===== verification/Ctypes_Props.thy ===== *)
theory Ctypes_Props
  imports Ctypes_Libs
begin

text \<open>
  The tables of module ctypes as a \<open>memo_world\<close>: a signature or a type keeps its class whatever else is
  requested, no two share one, and the class is the one asked for; the buffers; the sized types.
\<close>

section \<open>Requests\<close>

datatype type_req =
    RFunc "ty option" "ty list"
  | RWin "ty option" "ty list"
  | RPy "ty option" "ty list"
  | RPtr ptr_arg
  | RSet ty ty
  | RVoid ty

fun type_step :: "string \<Rightarrow> type_req \<Rightarrow> interp \<Rightarrow> interp" where
  "type_step os (RFunc r as) s = snd (CFUNCTYPE r as s)"
| "type_step os (RWin r as) s = snd (WINFUNCTYPE os r as s)"
| "type_step os (RPy r as) s = snd (PYFUNCTYPE r as s)"
| "type_step os (RPtr a) s = snd (POINTER a s)"
| "type_step os (RSet p t) s = snd (SetPointerType p t s)"
| "type_step os (RVoid k) s = set_void_pointer k s"

abbreviation spec_of :: "interp \<Rightarrow> ty \<Rightarrow> spec" where
  "spec_of s k \<equiv> cls_spec (classes s ! k)"

text \<open>Every entry of a table is a class that was made for its key.\<close>

definition types_ok :: "string \<Rightarrow> interp \<Rightarrow> bool" where
  "types_ok os s \<longleftrightarrow>
     (\<forall>r as k. c_functype_cache s (r, as) = Some k \<longrightarrow> k < length (classes s) \<and> spec_of s k = FuncType r as [FUNCFLAG_CDECL])
   \<and> (\<forall>r as k. win_functype_cache s (r, as) = Some k \<longrightarrow> k < length (classes s) \<and> spec_of s k = FuncType r as [stdcall_flag os])
   \<and> (\<forall>t k. pointer_type_cache s (KType t) = Some k \<longrightarrow> k < length (classes s) \<and> spec_of s k = Pointer (Some t))
   \<and> (\<forall>i k. pointer_type_cache s (KId i) = Some k \<longrightarrow> k = i \<and> i < length (classes s) \<and> spec_of s i = Pointer None)
   \<and> (\<forall>n. pointer_type_cache s (KName n) = None)"

lemma types_okD:
  assumes "types_ok os s"
  shows "c_functype_cache s (r, as) = Some k \<Longrightarrow> k < length (classes s) \<and> spec_of s k = FuncType r as [FUNCFLAG_CDECL]"
    "win_functype_cache s (r, as) = Some k \<Longrightarrow> k < length (classes s) \<and> spec_of s k = FuncType r as [stdcall_flag os]"
    "pointer_type_cache s (KType t) = Some k \<Longrightarrow> k < length (classes s) \<and> spec_of s k = Pointer (Some t)"
    "pointer_type_cache s (KId i) = Some k \<Longrightarrow> k = i \<and> i < length (classes s) \<and> spec_of s i = Pointer None"
    "pointer_type_cache s (KName n) = None"
  using assms unfolding types_ok_def by blast+

lemma types_ok_step: "types_ok os s \<Longrightarrow> types_ok os (type_step os q s)"
proof (cases q)
  case (RSet p t)
  assume ok: "types_ok os s"
  show ?thesis
  proof (cases "pointer_type_cache s (KType t) = None \<and> pointer_type_cache s (KId p) \<noteq> None")
    case True
    then have p: "p < length (classes s)" "spec_of s p = Pointer None" using types_okD(4) [OF ok] by auto
    have "spec_of (set_type p t s) k = (if k = p then Pointer (Some t) else spec_of s k)" for k
      using p by (simp add: set_type_def nth_list_update)
    moreover have "length (classes (set_type p t s)) = length (classes s)" by (simp add: set_type_def)
    moreover have "c_functype_cache (set_type p t s) = c_functype_cache s"
      "win_functype_cache (set_type p t s) = win_functype_cache s" "pointer_type_cache (set_type p t s) = pointer_type_cache s"
      by (simp_all add: set_type_def)
    ultimately show ?thesis
      using True p types_okD [OF ok] unfolding RSet type_step.simps SetPointerType_def types_ok_def by auto
  next
    case False
    with ok RSet show ?thesis by (auto simp: SetPointerType_def)
  qed
qed (auto simp: CFUNCTYPE_def WINFUNCTYPE_def PYFUNCTYPE_def POINTER_def set_void_pointer_def new_class_def types_ok_def nth_append
    split: option.split ptr_arg.split intro: less_SucI)

lemma functype_step: "c_functype_cache s k = Some v \<Longrightarrow> c_functype_cache (type_step os q s) k = Some v"
  by (cases q)
    (auto simp: CFUNCTYPE_def WINFUNCTYPE_def PYFUNCTYPE_def POINTER_def SetPointerType_def set_type_def set_void_pointer_def new_class_def Let_def
      split: option.split ptr_arg.split)

lemma pointer_step:
  "pointer_type_cache s (KType t) = Some v \<Longrightarrow> pointer_type_cache (type_step os q s) (KType t) = Some v"
  by (cases q)
    (auto simp: CFUNCTYPE_def WINFUNCTYPE_def PYFUNCTYPE_def POINTER_def SetPointerType_def set_type_def set_void_pointer_def new_class_def Let_def
      split: option.split ptr_arg.split)

definition functype_for :: "ty option \<times> ty list \<Rightarrow> (interp, ty) py" where
  "functype_for q s = (let (k, t) = CFUNCTYPE (fst q) (snd q) s in (Inr k, t))"

lemma functype_for_Inr: "functype_for (r, as) s = (Inr (fst (CFUNCTYPE r as s)), snd (CFUNCTYPE r as s))"
  by (simp add: functype_for_def case_prod_beta)

interpretation functypes: memo_world "types_ok os" c_functype_cache functype_for "type_step os" for os
proof (unfold_locales, goal_cases)
  case (1 s k v)
  then show ?case by (cases k) (simp add: functype_for_def CFUNCTYPE_def)
next
  case (2 s k v t)
  then show ?case by (cases k) (auto simp: functype_for_def CFUNCTYPE_def new_class_def split: option.splits)
next
  case (3 s k v t l)
  then show ?case by (cases k) (auto simp: functype_for_def CFUNCTYPE_def new_class_def split: option.splits)
next
  case (4 s k v t)
  then show ?case using types_ok_step [of os s "RFunc (fst k) (snd k)"] by (cases k) (auto simp: functype_for_Inr)
next
  case (5 s k v l)
  then show ?case using types_okD(1) [OF 5(1), of "fst k" "snd k" v] types_okD(1) [OF 5(1), of "fst l" "snd l" v]
    by (cases k; cases l) simp
next
  case (6 s r)
  then show ?case by (rule types_ok_step)
next
  case (7 s k v r)
  then show ?case by (intro functype_step)
qed

interpretation pointers: memo_world "types_ok os" "\<lambda>s t. pointer_type_cache s (KType t)" "\<lambda>t. POINTER (AType t)" "type_step os" for os
proof (unfold_locales, goal_cases)
  case (1 s k v)
  then show ?case by (simp add: POINTER_def)
next
  case (2 s k v t)
  then show ?case by (auto simp: POINTER_def new_class_def split: option.splits)
next
  case (3 s k v t l)
  then show ?case by (auto simp: POINTER_def new_class_def split: option.splits)
next
  case (4 s k v t)
  then show ?case using types_ok_step [of os s "RPtr (AType k)"] by simp
next
  case (5 s k v l)
  then show ?case using types_okD(3) [OF 5(1), of k v] types_okD(3) [OF 5(1), of l v] by simp
next
  case (6 s r)
  then show ?case by (rule types_ok_step)
next
  case (7 s k v r)
  then show ?case by (intro pointer_step)
qed

text \<open>The tables when the module starts: empty, over the classes made so far.\<close>

definition start :: "cls list \<Rightarrow> interp" where
  "start cs = \<lparr>classes = cs, c_functype_cache = Map.empty, win_functype_cache = Map.empty, pointer_type_cache = Map.empty\<rparr>"

lemma types_ok_start: "types_ok os (start cs)"
  by (simp add: types_ok_def start_def)

definition requests :: "string \<Rightarrow> type_req list \<Rightarrow> interp \<Rightarrow> interp" where
  "requests os rs s = fold (type_step os) rs s"

section \<open>Properties of the tables\<close>

text \<open>C33: a function signature keeps its class: from the start of the module, through any requests \<open>before\<close>, the class
  \<open>CFUNCTYPE\<close> gives for a signature is the one it gives for it after any further requests \<open>after\<close>, with no new class made
  then; and a different signature never gets that class, so the table is equivalent to making a class per
  signature once. The class carries the signature and the C calling convention.\<close>

theorem functype_shared:
  assumes "CFUNCTYPE r as (requests os before (start cs)) = (k, t)"
  shows "CFUNCTYPE r as (requests os after t) = (k, requests os after t)
    \<and> spec_of t k = FuncType r as [FUNCFLAG_CDECL]
    \<and> (fst (CFUNCTYPE q bs (requests os after t)) = k \<longleftrightarrow> (q, bs) = (r, as))"
proof -
  have ok: "types_ok os (requests os before (start cs))" unfolding requests_def by (rule functypes.run_inv [OF types_ok_start])
  have g: "functype_for (r, as) (requests os before (start cs)) = (Inr k, t)" using assms by (simp add: functype_for_Inr)
  have "CFUNCTYPE r as (requests os after t) = (k, requests os after t)"
    using functypes.get_stable [OF ok g] unfolding requests_def functype_for_Inr by (simp add: prod_eq_iff)
  moreover have "spec_of t k = FuncType r as [FUNCFLAG_CDECL]"
    using types_okD(1) [OF functypes.get_inv [OF ok g]] functypes.get_entry [OF ok g] by blast
  moreover have "fst (CFUNCTYPE q bs (requests os after t)) = k \<longleftrightarrow> (q, bs) = (r, as)"
    using functypes.get_separate [OF ok g, of "(q, bs)" after] unfolding requests_def functype_for_Inr by simp
  ultimately show ?thesis by blast
qed

theorem functype_shared_witness:
  "CFUNCTYPE None [0] (requests ''posix'' [RPtr (AType 0)] (start [\<lparr>cls_name = ''c_short'', cls_spec = Simple (CHR ''h'')\<rparr>]))
     = (2, requests ''posix'' [RFunc None [0]] (requests ''posix'' [RPtr (AType 0)] (start [\<lparr>cls_name = ''c_short'', cls_spec = Simple (CHR ''h'')\<rparr>])))
   \<and> fst (CFUNCTYPE None [0] (requests ''posix'' [RSet 1 0]
       (requests ''posix'' [RFunc None [0]] (requests ''posix'' [RPtr (AType 0)] (start [\<lparr>cls_name = ''c_short'', cls_spec = Simple (CHR ''h'')\<rparr>]))))) = 2"
proof -
  let ?s = "requests ''posix'' [RPtr (AType 0)] (start [\<lparr>cls_name = ''c_short'', cls_spec = Simple (CHR ''h'')\<rparr>])"
  have c: "CFUNCTYPE None [0] ?s = (2, requests ''posix'' [RFunc None [0]] ?s)"
    by (simp add: requests_def start_def CFUNCTYPE_def POINTER_def new_class_def)
  from functype_shared [OF c, of "[RSet 1 0]"] c show ?thesis by simp
qed

text \<open>C34: pointer types under any sequence of requests, the deprecated \<open>SetPointerType\<close> included: the class \<open>POINTER\<close> gives for a
  class points to it, stays the same whatever is requested later, and is no other class's pointer type. A
  class made from a name points to nothing until \<open>SetPointerType\<close> completes it; completing it for a class that has a
  pointer type already, or completing it twice, raises \<open>RuntimeError\<close> and changes nothing.\<close>

theorem pointer_types_consistent:
  assumes "POINTER (AType c) (requests os before (start cs)) = (Inr k, t)"
  shows "spec_of t k = Pointer (Some c)
    \<and> POINTER (AType c) (requests os after t) = (Inr k, requests os after t)
    \<and> spec_of (requests os after t) k = Pointer (Some c)
    \<and> (fst (POINTER (AType d) (requests os after t)) = Inr k \<longleftrightarrow> d = c)
    \<and> SetPointerType p c (requests os after t) = (Inl RuntimeError, requests os after t)"
proof -
  have ok: "types_ok os (requests os before (start cs))" unfolding requests_def by (rule pointers.run_inv [OF types_ok_start])
  note g = assms
  have t: "types_ok os t" "pointer_type_cache t (KType c) = Some k"
    using pointers.get_inv [OF ok g] pointers.get_entry [OF ok g] by simp_all
  have e: "pointer_type_cache (requests os after t) (KType c) = Some k" "types_ok os (requests os after t)"
    using pointers.run_entry [OF t] pointers.run_inv [OF t(1)] unfolding requests_def by simp_all
  have s: "POINTER (AType c) (requests os after t) = (Inr k, requests os after t)"
    using pointers.get_stable [OF ok g] unfolding requests_def .
  have "fst (POINTER (AType d) (requests os after t)) = Inr k \<longleftrightarrow> d = c"
    using pointers.get_separate [OF ok g] unfolding requests_def .
  moreover have "SetPointerType p c (requests os after t) = (Inl RuntimeError, requests os after t)"
    using e(1) by (simp add: SetPointerType_def)
  ultimately show ?thesis
    using types_okD(3) [OF t] types_okD(3) [OF e(2,1)] s by simp
qed

theorem pointer_types_consistent_witness:
  "POINTER (AType 0) (requests ''posix'' [RPtr (AName ''later''), RFunc None [0]]
     (snd (POINTER (AType 0) (requests ''posix'' [] (start [\<lparr>cls_name = ''c_short'', cls_spec = Simple (CHR ''h'')\<rparr>])))))
   = (Inr 1, requests ''posix'' [RPtr (AName ''later''), RFunc None [0]]
     (snd (POINTER (AType 0) (requests ''posix'' [] (start [\<lparr>cls_name = ''c_short'', cls_spec = Simple (CHR ''h'')\<rparr>])))))"
proof -
  let ?s = "requests ''posix'' [] (start [\<lparr>cls_name = ''c_short'', cls_spec = Simple (CHR ''h'')\<rparr>])"
  have "POINTER (AType 0) ?s = (Inr 1, snd (POINTER (AType 0) ?s))"
    by (simp add: requests_def start_def POINTER_def new_class_def)
  from pointer_types_consistent [OF this] show ?thesis by blast
qed

section \<open>Buffers\<close>

lemma get_value_text: "zero \<notin> set t \<Longrightarrow> get_value zero (t @ replicate n zero) = t"
proof -
  assume "zero \<notin> set t"
  then have "\<forall>x \<in> set t. x \<noteq> zero" by auto
  then show ?thesis by (cases n) (simp_all add: get_value_def)
qed

lemma create_buffer_text:
  "create_buffer zero codec (SameText t) sz =
    (let n = (case sz of None \<Rightarrow> int (length t) + 1 | Some k \<Rightarrow> k)
     in if n < int (length t) then Inl ValueError else Inr (t @ replicate (nat n - length t) zero))"
proof -
  have grow: "zero # replicate (k - Suc m) zero = replicate (k - m) zero" if "m < k" for m k :: nat
    using that by (simp add: Suc_diff_Suc flip: replicate_Suc)
  define n where "n = (case sz of None \<Rightarrow> int (length t) + 1 | Some k \<Rightarrow> k)"
  have "create_buffer zero codec (SameText t) sz =
      (if n < 0 then Inl ValueError else set_value zero t (replicate (nat n) zero))"
    by (auto simp: create_buffer_def buffer_of_text_def array_type_def zeroes_def n_def split: option.split)
  also have "\<dots> = (if n < int (length t) then Inl ValueError else Inr (t @ replicate (nat n - length t) zero))"
    using grow [of "length t" "nat n"] by (auto simp: set_value_def)
  finally show ?thesis by (simp add: n_def)
qed

text \<open>C37: a string buffer made from a text holds the text and then zeroes, in exactly the size asked for (one more than
  the text by default), and raises \<open>ValueError\<close> when the size is negative or too small for the text; so a text
  without zeroes is read back from the buffer. A buffer made from a number is all zeroes.\<close>

theorem string_buffer_contents:
  "create_string_buffer codec (SameText t) sz =
     (let n = (case sz of None \<Rightarrow> int (length t) + 1 | Some k \<Rightarrow> k)
      in if n < int (length t) then Inl ValueError else Inr (t @ replicate (nat n - length t) nul))
   \<and> create_string_buffer codec (Number k) sz = (if k < 0 then Inl ValueError else Inr (replicate (nat k) nul))
   \<and> (nul \<notin> set t \<longrightarrow> get_value nul (t @ replicate m nul) = t)"
  using get_value_text [of nul t m]
  by (simp add: create_string_buffer_def create_buffer_text) (simp add: create_buffer_def array_type_def zeroes_def)

theorem string_buffer_contents_witness:
  "create_string_buffer (\<lambda>u. Inl ValueError) (SameText ''abc'') None = Inr (''abc'' @ [nul])
   \<and> get_value nul (''abc'' @ [nul]) = ''abc''"
proof -
  have "nul \<notin> set ''abc''" by code_simp
  with string_buffer_contents [of "\<lambda>u. Inl ValueError" "''abc''" None 0 1] show ?thesis by simp
qed

section \<open>Sized types\<close>

text \<open>Whatever the platform, a sized type has its size; \<open>c_size_t\<close> has the size of a pointer, and is undefined on a platform
  whose pointers are longer than its \<open>long\<close>, as on 64-bit Windows.\<close>

lemma fill_sized_sizes:
  "\<lbrakk>s16 s = None \<or> calcsize (the (s16 s)) = 2; s32 s = None \<or> calcsize (the (s32 s)) = 4; s64 s = None \<or> calcsize (the (s64 s)) = 8\<rbrakk>
   \<Longrightarrow> let u = fill_sized calcsize ks s
      in (s16 u = None \<or> calcsize (the (s16 u)) = 2) \<and> (s32 u = None \<or> calcsize (the (s32 u)) = 4) \<and> (s64 u = None \<or> calcsize (the (s64 u)) = 8)"
  by (induction ks arbitrary: s) auto

lemma c_size_t_undefined:
  "calcsize (CHR ''i'') = 4 \<Longrightarrow> calcsize (CHR ''l'') = 4 \<Longrightarrow> calcsize (CHR ''L'') = 4 \<Longrightarrow> calcsize (CHR ''P'') = 8
   \<Longrightarrow> c_size_t calcsize = None"
  by (simp add: c_size_t_def c_uint_def)

end
