(* ===== verification/Ctypes_World.thy ===== *)
theory Ctypes_World
  imports Ctypes_Libs
begin

text \<open>
  Libraries and functions found as attributes (ctypes/__init__.py): one object per name, whatever else is
  requested in between. Both attribute tables, that of a loader and that of a library, are a \<open>memo_world\<close>
  over the same requests.
\<close>

section \<open>Requests\<close>

datatype lib_req =
    RLoader dll_kind
  | RAttr nat string
  | RItem nat string
  | RLoad nat string
  | RDll dll_kind "string option" rtld "int option"
  | RFunction nat string
  | RSymbol nat symbol

text \<open>A request uses a loader or library that exists.\<close>

fun lib_step :: "dl \<Rightarrow> rtld \<Rightarrow> lib_req \<Rightarrow> world \<Rightarrow> world" where
  "lib_step d mode (RLoader k) w = snd (loader_init k w)"
| "lib_step d mode (RAttr i n) w = (if i < length (loaders w) then snd (loader_attribute d mode i n w) else w)"
| "lib_step d mode (RItem i n) w = (if i < length (loaders w) then snd (loader_getitem d mode i n w) else w)"
| "lib_step d mode (RLoad i n) w = (if i < length (loaders w) then snd (LoadLibrary d mode i n w) else w)"
| "lib_step d mode (RDll k n m h) w = snd (dll_init d k n m h w)"
| "lib_step d mode (RFunction i n) w = (if i < length (libs w) then snd (dll_attribute d i n w) else w)"
| "lib_step d mode (RSymbol i s) w = (if i < length (libs w) then snd (dll_getitem d i s w) else w)"

definition lib_requests :: "dl \<Rightarrow> rtld \<Rightarrow> lib_req list \<Rightarrow> world \<Rightarrow> world" where
  "lib_requests d mode rs w = fold (lib_step d mode) rs w"

section \<open>The invariant\<close>

text \<open>An attribute of a loader is a library of its class and of that name; an attribute of a library is its
  function of that name.\<close>

definition world_ok :: "world \<Rightarrow> bool" where
  "world_ok w \<longleftrightarrow>
     (\<forall>i n l. i < length (loaders w) \<longrightarrow> ld_attrs (loaders w ! i) n = Some l \<longrightarrow>
        l < length (libs w) \<and> l_name (libs w ! l) = Some n \<and> l_kind (libs w ! l) = ld_kind (loaders w ! i))
   \<and> (\<forall>i n f. i < length (libs w) \<longrightarrow> l_attrs (libs w ! i) n = Some f \<longrightarrow>
        f < length (funcs w) \<and> f_lib (funcs w ! f) = i \<and> f_symbol (funcs w ! f) = ByName n)"

lemma world_ok_loader:
  assumes "world_ok w" "i < length (loaders w)" "ld_attrs (loaders w ! i) n = Some l"
  shows "l < length (libs w)" "l_name (libs w ! l) = Some n" "l_kind (libs w ! l) = ld_kind (loaders w ! i)"
  using assms unfolding world_ok_def by blast+

lemma world_ok_library:
  assumes "world_ok w" "i < length (libs w)" "l_attrs (libs w ! i) n = Some f"
  shows "f < length (funcs w)" "f_lib (funcs w ! f) = i" "f_symbol (funcs w ! f) = ByName n"
  using assms unfolding world_ok_def by blast+

text \<open>What a request does to the lists: they only grow, and an attribute that is set stays.\<close>

definition extends :: "world \<Rightarrow> world \<Rightarrow> bool" where
  "extends w u \<longleftrightarrow>
     length (loaders w) \<le> length (loaders u) \<and> length (libs w) \<le> length (libs u)
   \<and> (\<forall>i n l. i < length (loaders w) \<longrightarrow> ld_attrs (loaders w ! i) n = Some l \<longrightarrow> ld_attrs (loaders u ! i) n = Some l)
   \<and> (\<forall>i n f. i < length (libs w) \<longrightarrow> l_attrs (libs w ! i) n = Some f \<longrightarrow> l_attrs (libs u ! i) n = Some f)"

lemma extends_refl: "extends w w"
  by (simp add: extends_def)

text \<open>The primitive changes: a new loader, library or function, and a new attribute.\<close>

definition add_lib :: "dll_kind \<Rightarrow> string option \<Rightarrow> int \<Rightarrow> world \<Rightarrow> world" where
  "add_lib k n h w = w\<lparr>libs := libs w @ [\<lparr>l_kind = k, l_name = n, l_handle = h, l_attrs = Map.empty\<rparr>]\<rparr>"

definition add_func :: "nat \<Rightarrow> symbol \<Rightarrow> world \<Rightarrow> world" where
  "add_func i s w = w\<lparr>funcs := funcs w @ [\<lparr>f_lib = i, f_symbol = s,
     f_name = (case s of ByName n \<Rightarrow> Some n | ByOrdinal i \<Rightarrow> None)\<rparr>]\<rparr>"

lemma add_lib_ok: "world_ok w \<Longrightarrow> world_ok (add_lib k n h w) \<and> extends w (add_lib k n h w)"
  by (auto simp: world_ok_def extends_def add_lib_def nth_append less_Suc_eq split: if_splits)

lemma add_func_ok: "world_ok w \<Longrightarrow> world_ok (add_func i s w) \<and> extends w (add_func i s w)"
  by (auto simp: world_ok_def extends_def add_func_def nth_append less_Suc_eq split: if_splits)

lemma loader_init_ok: "world_ok w \<Longrightarrow> world_ok (snd (loader_init k w)) \<and> extends w (snd (loader_init k w))"
  by (auto simp: world_ok_def extends_def loader_init_def nth_append less_Suc_eq split: if_splits)

lemma dll_init_cases:
  "dll_init d k n m h w = (r, u) \<Longrightarrow> (\<exists>e. r = Inl e \<and> u = w) \<or> (\<exists>x. r = Inr (length (libs w)) \<and> u = add_lib k n x w)"
  by (auto simp: dll_init_def add_lib_def split: sum.splits option.splits)

lemma dll_getitem_cases:
  "dll_getitem d i s w = (r, u) \<Longrightarrow> (\<exists>e. r = Inl e \<and> u = w) \<or> (r = Inr (length (funcs w)) \<and> u = add_func i s w)"
  by (auto simp: dll_getitem_def add_func_def split: if_splits)

definition new_lib_attr :: "nat \<Rightarrow> string \<Rightarrow> int \<Rightarrow> world \<Rightarrow> world" where
  "new_lib_attr i n x w = snd (loader_setattr i n (length (libs w)) (add_lib (ld_kind (loaders w ! i)) (Some n) x w))"

definition new_func_attr :: "nat \<Rightarrow> string \<Rightarrow> world \<Rightarrow> world" where
  "new_func_attr i n w = snd (dll_setattr i n (length (funcs w)) (add_func i (ByName n) w))"

lemma loader_attribute_cases:
  assumes "loader_attribute d mode i n w = (r, u)"
  shows "(\<exists>e. r = Inl e \<and> u = w \<and> ld_attrs (loaders w ! i) n = None) \<or> (\<exists>l. r = Inr l \<and> u = w \<and> ld_attrs (loaders w ! i) n = Some l)
    \<or> (\<exists>x. r = Inr (length (libs w)) \<and> u = new_lib_attr i n x w \<and> ld_attrs (loaders w ! i) n = None)"
proof (cases "ld_attrs (loaders w ! i) n")
  case (Some l)
  with assms show ?thesis by (simp add: loader_attribute_def)
next
  case None
  with assms have g: "loader_getattr d mode i n w = (r, u)" by (simp add: loader_attribute_def)
  show ?thesis
  proof (cases "\<exists>c. py_index n 0 = Inr c \<and> c \<noteq> CHR ''_''")
    case False
    with g None show ?thesis by (auto simp: loader_getattr_def py_bind_def split: sum.splits if_splits)
  next
    case True
    then obtain c where c: "py_index n 0 = Inr c" "c \<noteq> CHR ''_''" by blast
    obtain r1 u1 where l: "LoadLibrary d mode i n w = (r1, u1)" by force
    from dll_init_cases [OF l [unfolded LoadLibrary_def]] g c l None show ?thesis
      by (auto simp: loader_getattr_def py_bind_def py_seq_def new_lib_attr_def loader_setattr_def)
  qed
qed

lemma dll_attribute_cases:
  assumes "dll_attribute d i n w = (r, u)"
  shows "(\<exists>e. r = Inl e \<and> u = w \<and> l_attrs (libs w ! i) n = None) \<or> (\<exists>f. r = Inr f \<and> u = w \<and> l_attrs (libs w ! i) n = Some f)
    \<or> (r = Inr (length (funcs w)) \<and> u = new_func_attr i n w \<and> l_attrs (libs w ! i) n = None)"
proof (cases "l_attrs (libs w ! i) n")
  case (Some f)
  with assms show ?thesis by (simp add: dll_attribute_def)
next
  case None
  with assms have g: "dll_getattr d i n w = (r, u)" by (simp add: dll_attribute_def)
  obtain r1 u1 where l: "dll_getitem d i (ByName n) w = (r1, u1)" by force
  from dll_getitem_cases [OF l] g l None show ?thesis
    by (auto simp: dll_getattr_def py_bind_def py_seq_def new_func_attr_def dll_setattr_def split: if_splits)
qed

lemma new_lib_attr_loaders:
  assumes "i < length (loaders w)"
  shows "loaders (new_lib_attr i n x w) ! j = (if j = i then (loaders w ! i)\<lparr>ld_attrs := (ld_attrs (loaders w ! i))(n \<mapsto> length (libs w))\<rparr> else loaders w ! j)"
    "libs (new_lib_attr i n x w) = libs w @ [\<lparr>l_kind = ld_kind (loaders w ! i), l_name = Some n, l_handle = x, l_attrs = Map.empty\<rparr>]"
    "length (loaders (new_lib_attr i n x w)) = length (loaders w)" "funcs (new_lib_attr i n x w) = funcs w"
  using assms by (simp_all add: new_lib_attr_def loader_setattr_def add_lib_def nth_list_update)

lemma new_lib_attr_ok:
  assumes "world_ok w" "i < length (loaders w)" "ld_attrs (loaders w ! i) n = None"
  shows "world_ok (new_lib_attr i n x w) \<and> extends w (new_lib_attr i n x w)"
  using assms by (auto simp: world_ok_def extends_def new_lib_attr_loaders nth_append less_Suc_eq split: if_splits)

lemma new_func_attr_libs:
  assumes "i < length (libs w)"
  shows "libs (new_func_attr i n w) ! j = (if j = i then (libs w ! i)\<lparr>l_attrs := (l_attrs (libs w ! i))(n \<mapsto> length (funcs w))\<rparr> else libs w ! j)"
    "funcs (new_func_attr i n w) = funcs w @ [\<lparr>f_lib = i, f_symbol = ByName n, f_name = Some n\<rparr>]"
    "length (libs (new_func_attr i n w)) = length (libs w)" "loaders (new_func_attr i n w) = loaders w"
  using assms by (simp_all add: new_func_attr_def dll_setattr_def add_func_def nth_list_update)

lemma new_func_attr_ok:
  assumes "world_ok w" "i < length (libs w)" "l_attrs (libs w ! i) n = None"
  shows "world_ok (new_func_attr i n w) \<and> extends w (new_func_attr i n w)"
  using assms by (auto simp: world_ok_def extends_def new_func_attr_libs nth_append less_Suc_eq split: if_splits)

lemma loader_attribute_ok:
  assumes "world_ok w" "i < length (loaders w)" "loader_attribute d mode i n w = (r, u)"
  shows "world_ok u \<and> extends w u"
  using loader_attribute_cases [OF assms(3)] assms(1) extends_refl new_lib_attr_ok [OF assms(1,2)] by blast

lemma dll_attribute_ok:
  assumes "world_ok w" "i < length (libs w)" "dll_attribute d i n w = (r, u)"
  shows "world_ok u \<and> extends w u"
  using dll_attribute_cases [OF assms(3)] assms(1) extends_refl new_func_attr_ok [OF assms(1,2)] by blast

lemma lib_step_ok:
  assumes "world_ok w"
  shows "world_ok (lib_step d mode q w) \<and> extends w (lib_step d mode q w)"
proof -
  have init: "world_ok (snd (dll_init d k n m h w)) \<and> extends w (snd (dll_init d k n m h w))" for k n m h
    using dll_init_cases [of d k n m h w] add_lib_ok [OF assms] assms extends_refl by (metis prod.collapse)
  have item: "world_ok (snd (dll_getitem d i s w)) \<and> extends w (snd (dll_getitem d i s w))" for i s
    using dll_getitem_cases [of d i s w] add_func_ok [OF assms] assms extends_refl by (metis prod.collapse)
  have la: "world_ok (snd (loader_attribute d mode i n w)) \<and> extends w (snd (loader_attribute d mode i n w))"
    if "i < length (loaders w)" for i n using loader_attribute_ok [OF assms that] by (metis prod.collapse)
  have da: "world_ok (snd (dll_attribute d i n w)) \<and> extends w (snd (dll_attribute d i n w))"
    if "i < length (libs w)" for i n using dll_attribute_ok [OF assms that] by (metis prod.collapse)
  show ?thesis
    using assms extends_refl init item la da loader_init_ok [OF assms]
    by (cases q) (simp_all add: loader_getitem_def LoadLibrary_def)
qed

interpretation loaded: memo_world "\<lambda>w. world_ok w \<and> self < length (loaders w)" "\<lambda>w. ld_attrs (loaders w ! self)"
    "loader_attribute d mode self" "lib_step d mode" for self d mode
proof (unfold_locales, goal_cases)
  case (1 w n l)
  then show ?case by (simp add: loader_attribute_def)
next
  case (2 w n l u)
  with loader_attribute_cases [OF 2(2)] show ?case by (auto simp: new_lib_attr_loaders)
next
  case (3 w n r u m)
  with loader_attribute_cases [OF 3(2)] show ?case by (auto simp: new_lib_attr_loaders)
next
  case (4 w n r u)
  with loader_attribute_ok [of w self d mode n r u] show ?case by (auto simp: extends_def)
next
  case (5 w n l m)
  then show ?case using world_ok_loader(2) by (metis option.inject)
next
  case (6 w q)
  with lib_step_ok [of w d mode q] show ?case by (auto simp: extends_def)
next
  case (7 w n l q)
  with lib_step_ok [of w d mode q] show ?case by (auto simp: extends_def)
qed

interpretation found: memo_world "\<lambda>w. world_ok w \<and> lib < length (libs w)" "\<lambda>w. l_attrs (libs w ! lib)"
    "dll_attribute d lib" "lib_step d mode" for lib d mode
proof (unfold_locales, goal_cases)
  case (1 w n f)
  then show ?case by (simp add: dll_attribute_def)
next
  case (2 w n f u)
  with dll_attribute_cases [OF 2(2)] show ?case by (auto simp: new_func_attr_libs)
next
  case (3 w n r u m)
  with dll_attribute_cases [OF 3(2)] show ?case by (auto simp: new_func_attr_libs)
next
  case (4 w n r u)
  with dll_attribute_ok [of w lib d n r u] show ?case by (auto simp: extends_def)
next
  case (5 w n f m)
  then show ?case using world_ok_library(3) by (metis symbol.inject(1))
next
  case (6 w q)
  with lib_step_ok [of w d mode q] show ?case by (auto simp: extends_def)
next
  case (7 w n f q)
  with lib_step_ok [of w d mode q] show ?case by (auto simp: extends_def)
qed

text \<open>Before the module makes anything.\<close>

definition empty_world :: world where
  "empty_world = \<lparr>libs = [], funcs = [], loaders = []\<rparr>"

lemma lib_requests_ok: "world_ok (lib_requests d mode rs empty_world)"
proof -
  have "world_ok w \<Longrightarrow> world_ok (fold (lib_step d mode) rs w)" for w
    by (induction rs arbitrary: w) (auto simp: lib_step_ok)
  then show ?thesis by (simp add: lib_requests_def empty_world_def world_ok_def)
qed

lemma LoadLibrary_new: "fst (LoadLibrary d mode self n w) = Inr l \<Longrightarrow> l = length (libs w)"
  unfolding LoadLibrary_def using dll_init_cases by (metis prod.collapse sum.inject(2) sum.distinct(1))

lemma dll_getitem_new: "fst (dll_getitem d i s w) = Inr f \<Longrightarrow> f = length (funcs w)"
  using dll_getitem_cases by (metis prod.collapse sum.inject(2) sum.distinct(1))

section \<open>Properties\<close>


text \<open>A system where every library opens and has every symbol.\<close>

definition demo_dl :: dl where
  "demo_dl = \<lparr>dlopen = (\<lambda>n m. Inr 7), dlsym = (\<lambda>h s. True), dl_os = ''posix''\<rparr>"

lemma demo_dl: "dlopen demo_dl n m = Inr 7" "dlsym demo_dl h s"
  by (simp_all add: demo_dl_def)

definition demo_world :: world where
  "demo_world = lib_requests demo_dl RTLD_LOCAL [RLoader CDLL] empty_world"

lemma demo_world: "demo_world = \<lparr>libs = [], funcs = [], loaders = [\<lparr>ld_kind = CDLL, ld_attrs = Map.empty\<rparr>]\<rparr>"
  by (simp add: demo_world_def lib_requests_def empty_world_def loader_init_def)


end
