(* ===== verification/Ctypes_Module.thy ===== *)
theory Ctypes_Module
  imports Ctypes_Props Ctypes_World
begin

text \<open>
  The body of module ctypes (ctypes/__init__.py), statement by statement: what importing it defines, and when the
  import fails. The version check, the simple types under their names, the codec of unicode strings, the loaders and
  \<open>GetLastError\<close>, \<open>c_size_t\<close>, and the functions of the C part with their prototypes. A name that is not bound raises
  \<open>NameError\<close>, as in the source.
\<close>

section \<open>State\<close>

text \<open>The platform: the system, what the C part exports, and the sizes of the C types.\<close>

record platform =
  os_dl :: dl
  sys_platform :: string
  calcsize :: "char \<Rightarrow> nat"
  c_version :: string
  has_conversion :: bool
  has_wstring :: bool
  dllhandle :: int
  version_info :: string
  sysv :: nat

text \<open>The module: the classes and tables, the libraries, the names bound to classes, the classes whose \<open>from_param\<close> was
  replaced and by which class's, the conversion mode, the names bound to objects, and the functions of the C part,
  each an instance of a function class at the address of that name.\<close>

record module =
  m_types :: interp
  m_world :: world
  m_names :: "string \<Rightarrow> ty option"
  m_from_param :: "ty \<Rightarrow> ty option"
  m_conv :: "(string \<times> string) option"
  m_objs :: "string \<Rightarrow> nat option"
  m_funcs :: "string \<Rightarrow> (ty \<times> string) option"

type_synonym 'a body = "(module, 'a) py"

definition fresh_module :: module where
  "fresh_module = \<lparr>m_types = start [], m_world = empty_world, m_names = Map.empty, m_from_param = Map.empty,
     m_conv = None, m_objs = Map.empty, m_funcs = Map.empty\<rparr>"

abbreviation is_windows :: "platform \<Rightarrow> bool" where
  "is_windows p \<equiv> dl_os (os_dl p) \<in> {''nt'', ''ce''}"

section \<open>Statements\<close>

definition on_types :: "(interp \<Rightarrow> (exn + 'a) \<times> interp) \<Rightarrow> 'a body" where
  "on_types f m = (case f (m_types m) of (r, s) \<Rightarrow> (r, m\<lparr>m_types := s\<rparr>))"

definition on_world :: "(world, 'a) py \<Rightarrow> 'a body" where
  "on_world f m = (case f (m_world m) of (r, w) \<Rightarrow> (r, m\<lparr>m_world := w\<rparr>))"

definition name_of :: "string \<Rightarrow> ty body" where
  "name_of n m = (case m_names m n of None \<Rightarrow> (Inl NameError, m) | Some k \<Rightarrow> (Inr k, m))"

fun names_of :: "string list \<Rightarrow> ty list body" where
  "names_of [] m = (Inr [], m)"
| "names_of (n # ns) m = py_bind (name_of n) (\<lambda>k. py_bind (names_of ns) (\<lambda>ks. py_ret (k # ks))) m"

definition bind_name :: "string \<Rightarrow> ty \<Rightarrow> unit body" where
  "bind_name n k = py_modify (\<lambda>m. m\<lparr>m_names := (m_names m)(n \<mapsto> k)\<rparr>)"

text \<open>\<open>class n(_SimpleCData): _type_ = code\<close>, and an assignment of one name to another.\<close>

definition class_stmt :: "string \<Rightarrow> char \<Rightarrow> unit body" where
  "class_stmt n code =
     py_bind (on_types (\<lambda>s. let (k, s1) = new_class n (Simple code) s in (Inr k, s1))) (bind_name n)"

definition alias_stmt :: "string \<Rightarrow> string \<Rightarrow> unit body" where
  "alias_stmt n old = py_bind (name_of old) (bind_name n)"

definition code_of :: "interp \<Rightarrow> ty \<Rightarrow> char option" where
  "code_of s k = (if k < length (classes s) then (case cls_spec (classes s ! k) of Simple c \<Rightarrow> Some c | _ \<Rightarrow> None) else None)"

definition size_of :: "platform \<Rightarrow> string \<Rightarrow> nat body" where
  "size_of p n = py_bind (name_of n) (\<lambda>k.
     py_get (\<lambda>m. case code_of (m_types m) k of Some c \<Rightarrow> calcsize p c | None \<Rightarrow> 0))"

text \<open>\<open>POINTER(n).from_param = other.from_param\<close>.\<close>

definition from_param_stmt :: "string \<Rightarrow> string \<Rightarrow> unit body" where
  "from_param_stmt n other =
     py_bind (name_of other) (\<lambda>k. py_bind (name_of n) (\<lambda>c. py_bind (on_types (POINTER (AType c))) (\<lambda>ptr.
     py_modify (\<lambda>m. m\<lparr>m_from_param := (m_from_param m)(ptr \<mapsto> k)\<rparr>))))"

section \<open>The body\<close>

definition version_check :: "platform \<Rightarrow> unit body" where
  "version_check p = (if c_version p \<noteq> ''1.0.1'' then py_raise VersionMismatch else py_ret ())"

datatype type_stmt = Class string char | Alias string string

fun run_type :: "type_stmt \<Rightarrow> unit body" where
  "run_type (Class n c) = class_stmt n c"
| "run_type (Alias n old) = alias_stmt n old"

definition simple_stmts :: "(char \<Rightarrow> nat) \<Rightarrow> type_stmt list" where
  "simple_stmts csize =
     [Class ''py_object'' (CHR ''O''), Class ''c_short'' (CHR ''h''), Class ''c_ushort'' (CHR ''H''),
      Class ''c_long'' (CHR ''l''), Class ''c_ulong'' (CHR ''L'')]
     @ (if csize (CHR ''i'') = csize (CHR ''l'') then [Alias ''c_int'' ''c_long'', Alias ''c_uint'' ''c_ulong'']
        else [Class ''c_int'' (CHR ''i''), Class ''c_uint'' (CHR ''I'')])
     @ [Class ''c_float'' (CHR ''f''), Class ''c_double'' (CHR ''d'')]
     @ (if csize (CHR ''l'') = csize (CHR ''q'') then [Alias ''c_longlong'' ''c_long'', Alias ''c_ulonglong'' ''c_ulong'']
        else [Class ''c_longlong'' (CHR ''q''), Class ''c_ulonglong'' (CHR ''Q'')])
     @ [Class ''c_ubyte'' (CHR ''B''), Class ''c_byte'' (CHR ''b''), Class ''c_char'' (CHR ''c''),
        Class ''c_char_p'' (CHR ''z''), Class ''c_void_p'' (CHR ''P''), Alias ''c_voidp'' ''c_void_p'']"

definition unicode_body :: "platform \<Rightarrow> unit body" where
  "unicode_body p =
     (if \<not> has_conversion p then py_ret ()
      else py_block
        [py_modify (\<lambda>m. m\<lparr>m_conv := Some (if is_windows p then (''mbcs'', ''ignore'') else (''ascii'', ''strict''))\<rparr>),
         class_stmt ''c_wchar_p'' (CHR ''Z''), class_stmt ''c_wchar'' (CHR ''u''),
         from_param_stmt ''c_wchar'' ''c_wchar_p''])"

definition char_param :: "unit body" where
  "char_param = from_param_stmt ''c_char'' ''c_char_p''"

text \<open>\<open>_check_retval_\<close> is a function of the C part; the class is its type code.\<close>

definition hresult_body :: "platform \<Rightarrow> unit body" where
  "hresult_body p = (if is_windows p then class_stmt ''HRESULT'' (CHR ''l'') else py_ret ())"

definition platform_mode :: "platform \<Rightarrow> rtld" where
  "platform_mode p = DEFAULT_MODE (dl_os (os_dl p)) (sys_platform p) (sysv p)"

definition get_last_error :: "platform \<Rightarrow> nat \<Rightarrow> (world, nat) py" where
  "get_last_error p windll =
     py_bind (loader_attribute (os_dl p) (platform_mode p) windll
                (if dl_os (os_dl p) = ''nt'' then ''kernel32'' else ''coredll''))
       (\<lambda>lib. dll_attribute (os_dl p) lib ''GetLastError'')"

definition make_loaders :: "platform \<Rightarrow> (world, (string \<times> nat) list) py" where
  "make_loaders p =
     py_bind (loader_init CDLL) (\<lambda>cdll. py_bind (loader_init PyDLL) (\<lambda>pydll.
     py_bind (pythonapi (os_dl p) (sys_platform p) (platform_mode p) (dllhandle p) (version_info p)) (\<lambda>api.
     if \<not> is_windows p then py_ret [(''cdll'', cdll), (''pydll'', pydll), (''pythonapi'', api)]
     else py_bind (loader_init WinDLL) (\<lambda>windll. py_bind (loader_init OleDLL) (\<lambda>oledll.
          py_bind (get_last_error p windll) (\<lambda>f.
          py_ret [(''cdll'', cdll), (''pydll'', pydll), (''pythonapi'', api), (''windll'', windll),
                  (''oledll'', oledll), (''GetLastError'', f)]))))))"

definition loaders_body :: "platform \<Rightarrow> unit body" where
  "loaders_body p = py_bind (on_world (make_loaders p)) (\<lambda>bs. py_modify (\<lambda>m. m\<lparr>m_objs := map_of bs\<rparr>))"

definition pointer_none :: "unit body" where
  "pointer_none = py_bind (name_of ''c_void_p'') (\<lambda>k. on_types (\<lambda>s. (Inr (), set_void_pointer k s)))"

definition size_t_body :: "platform \<Rightarrow> unit body" where
  "size_t_body p =
     py_bind (size_of p ''c_uint'') (\<lambda>i. py_bind (size_of p ''c_void_p'') (\<lambda>v.
     if i = v then alias_stmt ''c_size_t'' ''c_uint''
     else py_bind (size_of p ''c_ulong'') (\<lambda>l. py_bind (size_of p ''c_void_p'') (\<lambda>v.
          if l = v then alias_stmt ''c_size_t'' ''c_ulong'' else py_ret ()))))"

text \<open>\<open>name = FUNCTYPE(restype, argtypes)(addr)\<close>.\<close>

definition func_stmt :: "string \<Rightarrow> bool \<Rightarrow> string \<Rightarrow> string list \<Rightarrow> string \<Rightarrow> unit body" where
  "func_stmt n python res args addr =
     py_bind (name_of res) (\<lambda>r. py_bind (names_of args) (\<lambda>as.
     py_bind (on_types (\<lambda>s. let (k, s1) = (if python then PYFUNCTYPE else CFUNCTYPE) (Some r) as s in (Inr k, s1))) (\<lambda>k.
     py_modify (\<lambda>m. m\<lparr>m_funcs := (m_funcs m)(n \<mapsto> (k, addr))\<rparr>))))"

definition mem_funcs :: "unit body list" where
  "mem_funcs =
     [func_stmt ''memmove'' False ''c_void_p'' [''c_void_p'', ''c_void_p'', ''c_size_t''] ''_memmove_addr'',
      func_stmt ''memset'' False ''c_void_p'' [''c_void_p'', ''c_int'', ''c_size_t''] ''_memset_addr'']"

definition cast_func :: "unit body" where
  "cast_func = func_stmt ''_cast'' True ''py_object'' [''c_void_p'', ''py_object'', ''py_object''] ''_cast_addr''"

definition string_at_func :: "unit body" where
  "string_at_func = func_stmt ''_string_at'' False ''py_object'' [''c_void_p'', ''c_int''] ''_string_at_addr''"

definition wstring_at_funcs :: "platform \<Rightarrow> unit body list" where
  "wstring_at_funcs p =
     (if has_wstring p then [func_stmt ''_wstring_at'' False ''py_object'' [''c_void_p'', ''c_int''] ''_wstring_at_addr''] else [])"

definition functions_body :: "platform \<Rightarrow> unit body" where
  "functions_body p = py_block (mem_funcs @ [cast_func, string_at_func] @ wstring_at_funcs p)"

lemmas functions_body_defs = functions_body_def mem_funcs_def cast_func_def string_at_func_def wstring_at_funcs_def

text \<open>The loop that names a kind by its size.\<close>

definition sized_stmt :: "platform \<Rightarrow> string \<Rightarrow> string \<Rightarrow> string \<Rightarrow> string \<Rightarrow> unit body" where
  "sized_stmt p n16 n32 n64 kind =
     py_bind (size_of p kind) (\<lambda>n.
     if n = 2 then alias_stmt n16 kind else if n = 4 then alias_stmt n32 kind
     else if n = 8 then alias_stmt n64 kind else py_ret ())"

definition sized_body :: "platform \<Rightarrow> unit body" where
  "sized_body p = py_block
     ([alias_stmt ''c_int8'' ''c_byte'', alias_stmt ''c_uint8'' ''c_ubyte'']
      @ map (sized_stmt p ''c_int16'' ''c_int32'' ''c_int64'') [''c_short'', ''c_int'', ''c_long'', ''c_longlong'']
      @ map (sized_stmt p ''c_uint16'' ''c_uint32'' ''c_uint64'') [''c_ushort'', ''c_uint'', ''c_ulong'', ''c_ulonglong''])"

definition import_ctypes :: "platform \<Rightarrow> unit body" where
  "import_ctypes p = py_block
     [version_check p, py_block (map run_type (simple_stmts (calcsize p))), unicode_body p, char_param, hresult_body p,
      loaders_body p, pointer_none, size_t_body p, functions_body p, sized_body p]"

section \<open>Functions of the module\<close>

text \<open>\<open>call\<close> is a call of a foreign function: its class, its address and its arguments. Without a second argument
  \<open>string_at\<close> passes 0.\<close>

definition call_func :: "(ty \<Rightarrow> string \<Rightarrow> 'v list \<Rightarrow> exn + 'v) \<Rightarrow> string \<Rightarrow> 'v list \<Rightarrow> module \<Rightarrow> exn + 'v" where
  "call_func call n args m = (case m_funcs m n of None \<Rightarrow> Inl NameError | Some (k, addr) \<Rightarrow> call k addr args)"

definition cast :: "(ty \<Rightarrow> string \<Rightarrow> 'v list \<Rightarrow> exn + 'v) \<Rightarrow> 'v \<Rightarrow> 'v \<Rightarrow> module \<Rightarrow> exn + 'v" where
  "cast call obj typ = call_func call ''_cast'' [obj, obj, typ]"

definition string_at :: "(ty \<Rightarrow> string \<Rightarrow> 'v list \<Rightarrow> exn + 'v) \<Rightarrow> (int \<Rightarrow> 'v) \<Rightarrow> 'v \<Rightarrow> 'v option \<Rightarrow> module \<Rightarrow> exn + 'v" where
  "string_at call int_val ptr sz =
     call_func call ''_string_at'' [ptr, case sz of None \<Rightarrow> int_val 0 | Some v \<Rightarrow> v]"

definition wstring_at :: "(ty \<Rightarrow> string \<Rightarrow> 'v list \<Rightarrow> exn + 'v) \<Rightarrow> (int \<Rightarrow> 'v) \<Rightarrow> 'v \<Rightarrow> 'v option \<Rightarrow> module \<Rightarrow> exn + 'v" where
  "wstring_at call int_val ptr sz =
     call_func call ''_wstring_at'' [ptr, case sz of None \<Rightarrow> int_val 0 | Some v \<Rightarrow> v]"

text \<open>\<open>py_object.__repr__\<close>: \<open>inherited\<close> is what the method of the base class does.\<close>

definition py_object_repr :: "exn + string \<Rightarrow> string \<Rightarrow> exn + string" where
  "py_object_repr inherited type_name =
     (case inherited of Inl ValueError \<Rightarrow> Inr (type_name @ ''(<NULL>)'') | r \<Rightarrow> r)"

end
