(* ===== verification/Ctypes_Import.thy ===== *)
theory Ctypes_Import
  imports Ctypes_Module
begin

text \<open>
  What importing module ctypes does: each part of the body by the type codes of the names it binds, then the outcome of
  the whole import on every platform and the names and function classes a successful one leaves.
\<close>

lemma py_block_prefix: "py_block ms s = (Inr (), t) \<Longrightarrow> py_block (ms @ ns) s = py_block ns t"
  by (simp add: py_block_append py_bind_def)

section \<open>Names and their type codes\<close>

definition codes :: "module \<Rightarrow> string \<Rightarrow> char option" where
  "codes m n = (case m_names m n of None \<Rightarrow> None | Some k \<Rightarrow> code_of (m_types m) k)"

definition names_ok :: "string \<Rightarrow> module \<Rightarrow> bool" where
  "names_ok os m \<longleftrightarrow> types_ok os (m_types m) \<and> (\<forall>n k. m_names m n = Some k \<longrightarrow> code_of (m_types m) k \<noteq> None)"

lemma names_ok_name:
  assumes "names_ok os m" "codes m n = Some c"
  shows "\<exists>k. m_names m n = Some k \<and> name_of n m = (Inr k, m) \<and> code_of (m_types m) k = Some c"
  using assms by (auto simp: codes_def name_of_def split: option.splits)

lemma names_ok_unbound: "names_ok os m \<Longrightarrow> codes m n = None \<Longrightarrow> name_of n m = (Inl NameError, m)"
  by (cases "m_names m n") (simp_all add: codes_def names_ok_def name_of_def, metis option.distinct(1))

lemma bind_name_codes:
  assumes "names_ok os m" "code_of (m_types m) k = Some c"
  shows "names_ok os (m\<lparr>m_names := (m_names m)(n \<mapsto> k)\<rparr>)" "codes (m\<lparr>m_names := (m_names m)(n \<mapsto> k)\<rparr>) = (codes m)(n \<mapsto> c)"
  using assms by (auto simp: names_ok_def codes_def fun_eq_iff split: option.split)

text \<open>The tables only grow: a class keeps its type code.\<close>

definition same_codes :: "interp \<Rightarrow> interp \<Rightarrow> bool" where
  "same_codes s t \<longleftrightarrow> (\<forall>k c. code_of s k = Some c \<longrightarrow> code_of t k = Some c)"

lemma same_codes_append: "classes t = classes s @ cs \<Longrightarrow> same_codes s t"
  by (auto simp: same_codes_def code_of_def nth_append split: if_splits)

lemma same_codes_eq: "classes t = classes s \<Longrightarrow> same_codes s t"
  by (simp add: same_codes_def code_of_def)

lemma step_same_codes:
  "same_codes s (snd (new_class n sp s))" "same_codes s (snd (POINTER a s))" "same_codes s (snd (CFUNCTYPE r as s))"
  "same_codes s (snd (PYFUNCTYPE r as s))" "same_codes s (set_void_pointer k s)"
  by (auto simp: new_class_def POINTER_def CFUNCTYPE_def PYFUNCTYPE_def set_void_pointer_def
      intro: same_codes_append same_codes_eq split: option.split ptr_arg.split)

lemma step_types_ok:
  assumes "types_ok os s"
  shows "types_ok os (snd (new_class n (Simple c) s))" "types_ok os (snd (POINTER a s))" "types_ok os (snd (CFUNCTYPE r as s))"
    "types_ok os (snd (PYFUNCTYPE r as s))" "types_ok os (set_void_pointer k s)"
  using types_ok_step [OF assms, of "RPtr a"] types_ok_step [OF assms, of "RFunc r as"] types_ok_step [OF assms, of "RPy r as"]
    types_ok_step [OF assms, of "RVoid k"] assms
  by (simp_all add: new_class_def types_ok_def nth_append less_SucI)

lemma keep_names:
  assumes "names_ok os m" "same_codes (m_types m) (m_types m1)" "types_ok os (m_types m1)" "m_names m1 = m_names m"
  shows "names_ok os m1 \<and> codes m1 = codes m"
proof -
  have k: "code_of (m_types m1) k = code_of (m_types m) k" if "m_names m n = Some k" for n k
  proof -
    from assms(1) that obtain c where "code_of (m_types m) k = Some c" unfolding names_ok_def by blast
    with assms(2) show ?thesis by (simp add: same_codes_def)
  qed
  have "codes m1 n = codes m n" for n
    using k assms(4) by (cases "m_names m n") (simp_all add: codes_def)
  moreover have "names_ok os m1" using assms(1,3,4) k unfolding names_ok_def by simp
  ultimately show ?thesis by blast
qed

lemma codes_eq: "m_types m1 = m_types m \<Longrightarrow> m_names m1 = m_names m \<Longrightarrow> codes m1 = codes m \<and> names_ok os m1 = names_ok os m"
  by (auto simp: codes_def names_ok_def fun_eq_iff split: option.split)

text \<open>The rest of the module, which the type statements leave alone.\<close>

definition rest where
  "rest m = (m_world m, m_objs m, m_funcs m)"

lemma class_stmt_codes:
  assumes "names_ok os m"
  shows "\<exists>m1. class_stmt n c m = (Inr (), m1) \<and> names_ok os m1 \<and> codes m1 = (codes m)(n \<mapsto> c) \<and> rest m1 = rest m"
proof -
  let ?s = "snd (new_class n (Simple c) (m_types m))" and ?k = "length (classes (m_types m))"
  let ?m = "m\<lparr>m_types := ?s\<rparr>"
  have "names_ok os ?m \<and> codes ?m = codes m"
    by (rule keep_names [OF assms]) (use assms in \<open>simp_all add: step_same_codes step_types_ok names_ok_def\<close>)
  moreover have "code_of ?s ?k = Some c" by (simp add: code_of_def new_class_def)
  ultimately have "names_ok os (?m\<lparr>m_names := (m_names ?m)(n \<mapsto> ?k)\<rparr>)" "codes (?m\<lparr>m_names := (m_names ?m)(n \<mapsto> ?k)\<rparr>) = (codes m)(n \<mapsto> c)"
    using bind_name_codes [of os ?m ?k c n] by simp_all
  then show ?thesis
    by (simp add: class_stmt_def on_types_def new_class_def py_bind_def bind_name_def rest_def)
qed

lemma alias_stmt_codes:
  assumes "names_ok os m" "codes m old = Some c"
  shows "\<exists>m1. alias_stmt n old m = (Inr (), m1) \<and> names_ok os m1 \<and> codes m1 = (codes m)(n \<mapsto> c) \<and> rest m1 = rest m
    \<and> m_types m1 = m_types m \<and> (\<forall>x. x \<noteq> n \<longrightarrow> m_names m1 x = m_names m x)"
proof -
  from names_ok_name [OF assms] obtain k where k: "m_names m old = Some k" "name_of old m = (Inr k, m)" "code_of (m_types m) k = Some c"
    by blast
  from bind_name_codes [OF assms(1) k(3), of n] k(2) show ?thesis by (simp add: alias_stmt_def py_bind_def bind_name_def rest_def)
qed

lemma size_of_codes:
  assumes "names_ok os m" "codes m n = Some c"
  shows "size_of p n m = (Inr (calcsize p c), m)"
  using names_ok_name [OF assms] by (auto simp: size_of_def py_bind_def)

section \<open>The simple types\<close>

fun run_codes :: "type_stmt list \<Rightarrow> (string \<Rightarrow> char option) \<Rightarrow> string \<Rightarrow> char option" where
  "run_codes [] f = f"
| "run_codes (Class n c # ss) f = run_codes ss (f(n \<mapsto> c))"
| "run_codes (Alias n old # ss) f = run_codes ss (f(n := f old))"

fun old_bound :: "type_stmt list \<Rightarrow> (string \<Rightarrow> char option) \<Rightarrow> bool" where
  "old_bound [] f = True"
| "old_bound (Class n c # ss) f = old_bound ss (f(n \<mapsto> c))"
| "old_bound (Alias n old # ss) f = (f old \<noteq> None \<and> old_bound ss (f(n := f old)))"

lemma run_types_codes:
  assumes "names_ok os m" "old_bound ss (codes m)"
  shows "\<exists>m1. py_block (map run_type ss) m = (Inr (), m1) \<and> names_ok os m1 \<and> codes m1 = run_codes ss (codes m) \<and> rest m1 = rest m"
  using assms
proof (induction ss arbitrary: m)
  case Nil
  then show ?case by simp
next
  case (Cons s ss)
  show ?case
  proof (cases s)
    case (Class n c)
    from class_stmt_codes [OF Cons.prems(1), of n c] obtain m1 where
      m1: "class_stmt n c m = (Inr (), m1)" "names_ok os m1" "codes m1 = (codes m)(n \<mapsto> c)" "rest m1 = rest m" by blast
    have b: "old_bound ss (codes m1)" unfolding m1(3) using Cons.prems(2) Class by simp
    have "run_codes (s # ss) (codes m) = run_codes ss (codes m1)" unfolding m1(3) using Class by simp
    with Cons.IH [OF m1(2) b] m1(1,4) Class show ?thesis by (simp add: py_bind_Inr)
  next
    case (Alias n old)
    with Cons.prems(2) obtain c where c: "codes m old = Some c" by auto
    from alias_stmt_codes [OF Cons.prems(1) c, of n] obtain m1 where
      m1: "alias_stmt n old m = (Inr (), m1)" "names_ok os m1" "codes m1 = (codes m)(n \<mapsto> c)" "rest m1 = rest m" by blast
    have b: "old_bound ss (codes m1)" unfolding m1(3) using Cons.prems(2) Alias c by simp
    have "run_codes (s # ss) (codes m) = run_codes ss (codes m1)" unfolding m1(3) using Alias c by simp
    with Cons.IH [OF m1(2) b] m1(1,4) Alias show ?thesis by (simp add: py_bind_Inr)
  qed
qed

text \<open>The table of simple types is what the class statements leave, the two unicode types apart.\<close>

lemma simple_stmts_bound: "old_bound (simple_stmts cs) f"
  by (simp add: simple_stmts_def)

lemma simple_stmts_codes:
  "list_all (\<lambda>(n, c). run_codes (simple_stmts cs) f n = Some c) (butlast (butlast (simple_types cs)))"
  by (cases "cs (CHR ''i'') = cs (CHR ''l'')"; cases "cs (CHR ''l'') = cs (CHR ''q'')")
    (simp_all add: simple_types_def simple_stmts_def c_int_def c_uint_def c_longlong_def c_ulonglong_def)

lemma simple_stmts_other: "n \<notin> fst ` set (simple_types cs) \<Longrightarrow> run_codes (simple_stmts cs) f n = f n"
  by (simp add: simple_types_def simple_stmts_def)

section \<open>The other parts of the body\<close>

lemma from_param_codes:
  assumes "names_ok os m" "codes m n = Some c" "codes m other = Some d"
  shows "\<exists>m1. from_param_stmt n other m = (Inr (), m1) \<and> names_ok os m1 \<and> codes m1 = codes m \<and> rest m1 = rest m"
proof -
  from names_ok_name [OF assms(1,2)] names_ok_name [OF assms(1,3)] obtain k l where
    k: "name_of n m = (Inr k, m)" "name_of other m = (Inr l, m)" by blast
  have "\<exists>ptr s. POINTER (AType k) (m_types m) = (Inr ptr, s)"
    by (cases "pointer_type_cache (m_types m) (KType k)") (simp_all add: POINTER_def new_class_def)
  then obtain ptr s where q: "POINTER (AType k) (m_types m) = (Inr ptr, s)" by blast
  let ?m = "m\<lparr>m_types := s, m_from_param := (m_from_param m)(ptr \<mapsto> l)\<rparr>"
  have "types_ok os (m_types m)" using assms(1) by (simp add: names_ok_def)
  then have s: "same_codes (m_types m) s" "types_ok os s"
    using step_same_codes(2) [of "m_types m" "AType k"] step_types_ok(2) [of os "m_types m" "AType k"] by (simp_all add: q)
  have "names_ok os ?m \<and> codes ?m = codes m"
    by (rule keep_names [OF assms(1)]) (simp_all add: s)
  moreover have "from_param_stmt n other m = (Inr (), ?m)"
    using k by (simp add: from_param_stmt_def py_bind_def on_types_def q)
  moreover have "rest ?m = rest m" by (simp add: rest_def)
  ultimately show ?thesis by blast
qed

lemma unicode_body_codes:
  assumes "names_ok os m"
  shows "\<exists>m1. unicode_body p m = (Inr (), m1) \<and> names_ok os m1 \<and> rest m1 = rest m
    \<and> codes m1 = (if has_conversion p then (codes m)(''c_wchar_p'' \<mapsto> CHR ''Z'', ''c_wchar'' \<mapsto> CHR ''u'') else codes m)"
proof (cases "has_conversion p")
  case False
  with assms show ?thesis by (simp add: unicode_body_def)
next
  case True
  let ?m = "m\<lparr>m_conv := Some (if is_windows p then (''mbcs'', ''ignore'') else (''ascii'', ''strict''))\<rparr>"
  have m: "names_ok os ?m" "codes ?m = codes m" "rest ?m = rest m"
    using assms by (simp_all add: names_ok_def codes_def fun_eq_iff rest_def split: option.split)
  from class_stmt_codes [OF m(1), of "''c_wchar_p''" "CHR ''Z''"] obtain m1 where
    m1: "class_stmt ''c_wchar_p'' (CHR ''Z'') ?m = (Inr (), m1)" "names_ok os m1"
        "codes m1 = (codes ?m)(''c_wchar_p'' \<mapsto> CHR ''Z'')" "rest m1 = rest ?m" by blast
  from class_stmt_codes [OF m1(2), of "''c_wchar''" "CHR ''u''"] obtain m2 where
    m2: "class_stmt ''c_wchar'' (CHR ''u'') m1 = (Inr (), m2)" "names_ok os m2"
        "codes m2 = (codes m1)(''c_wchar'' \<mapsto> CHR ''u'')" "rest m2 = rest m1" by blast
  from from_param_codes [OF m2(2), of "''c_wchar''" "CHR ''u''" "''c_wchar_p''" "CHR ''Z''"] m1(3) m2(3) obtain m3 where
    m3: "from_param_stmt ''c_wchar'' ''c_wchar_p'' m2 = (Inr (), m3)" "names_ok os m3" "codes m3 = codes m2" "rest m3 = rest m2"
    by auto
  have "unicode_body p m = (Inr (), m3)"
    using True m1(1) m2(1) m3(1) by (simp add: unicode_body_def py_bind_def)
  with m3 m2(3,4) m1(3,4) m(2,3) True show ?thesis by simp
qed

lemma hresult_body_codes:
  assumes "names_ok os m"
  shows "\<exists>m1. hresult_body p m = (Inr (), m1) \<and> names_ok os m1 \<and> rest m1 = rest m
    \<and> codes m1 = (if is_windows p then (codes m)(''HRESULT'' \<mapsto> CHR ''l'') else codes m)"
  using assms class_stmt_codes [OF assms, of "''HRESULT''" "CHR ''l''"] by (auto simp: hresult_body_def)

lemma loaders_body_codes:
  assumes "names_ok os m"
  shows "\<exists>m1. names_ok os m1 \<and> codes m1 = codes m \<and> m_funcs m1 = m_funcs m
    \<and> loaders_body p m = ((case fst (make_loaders p (m_world m)) of Inl e \<Rightarrow> Inl e | Inr _ \<Rightarrow> Inr ()), m1)"
proof -
  obtain r w where r: "make_loaders p (m_world m) = (r, w)" by force
  let ?m = "case r of Inl e \<Rightarrow> m\<lparr>m_world := w\<rparr> | Inr bs \<Rightarrow> m\<lparr>m_world := w, m_objs := map_of bs\<rparr>"
  have "m_types ?m = m_types m" "m_names ?m = m_names m" "m_funcs ?m = m_funcs m" by (simp_all split: sum.split)
  then have "names_ok os ?m" "codes ?m = codes m" "m_funcs ?m = m_funcs m"
    using assms codes_eq [of ?m m os] by blast+
  moreover have "loaders_body p m = ((case r of Inl e \<Rightarrow> Inl e | Inr _ \<Rightarrow> Inr ()), ?m)"
    using r by (simp add: loaders_body_def on_world_def py_bind_def split: sum.split)
  ultimately show ?thesis using r by auto
qed

lemma pointer_none_codes:
  assumes "names_ok os m" "codes m ''c_void_p'' = Some c"
  shows "\<exists>m1 v. pointer_none m = (Inr (), m1) \<and> names_ok os m1 \<and> codes m1 = codes m \<and> m_funcs m1 = m_funcs m
    \<and> m_names m1 ''c_void_p'' = Some v \<and> pointer_type_cache (m_types m1) KNone = Some v"
proof -
  from names_ok_name [OF assms] obtain v where v: "m_names m ''c_void_p'' = Some v" "name_of ''c_void_p'' m = (Inr v, m)" by blast
  let ?m = "m\<lparr>m_types := set_void_pointer v (m_types m)\<rparr>"
  have "names_ok os ?m \<and> codes ?m = codes m"
    by (rule keep_names [OF assms(1)]) (use assms(1) in \<open>simp_all add: step_same_codes step_types_ok names_ok_def\<close>)
  moreover have "pointer_none m = (Inr (), ?m)" using v by (simp add: pointer_none_def py_bind_def on_types_def)
  moreover have "pointer_type_cache (m_types ?m) KNone = Some v" by (simp add: set_void_pointer_def)
  ultimately show ?thesis using v(1) by fastforce
qed

lemma size_t_body_codes:
  assumes "names_ok os m" "codes m ''c_uint'' = Some (c_uint (calcsize p))" "codes m ''c_ulong'' = Some (CHR ''L'')"
    "codes m ''c_void_p'' = Some (CHR ''P'')" "codes m ''c_size_t'' = None"
  shows "\<exists>m1. size_t_body p m = (Inr (), m1) \<and> names_ok os m1 \<and> codes m1 = (codes m)(''c_size_t'' := c_size_t (calcsize p))
    \<and> m_types m1 = m_types m \<and> m_funcs m1 = m_funcs m \<and> (\<forall>x. x \<noteq> ''c_size_t'' \<longrightarrow> m_names m1 x = m_names m x)"
proof -
  note sz = size_of_codes [OF assms(1,2), of p] size_of_codes [OF assms(1,3), of p] size_of_codes [OF assms(1,4), of p]
  note al = alias_stmt_codes [OF assms(1,2), of "''c_size_t''"] alias_stmt_codes [OF assms(1,3), of "''c_size_t''"]
  show ?thesis
    using al assms(1,5) by (auto simp: size_t_body_def py_bind_def sz c_size_t_def rest_def)
qed

section \<open>The functions of the C part\<close>

text \<open>An unbound argument type ends the body at the first function.\<close>

lemma functions_body_unbound:
  assumes "m_names m ''c_void_p'' = Some v" "m_names m ''c_size_t'' = None"
  shows "functions_body p m = (Inl NameError, m)"
  using assms by (simp add: functions_body_defs func_stmt_def py_bind_def name_of_def)

lemma functions_body_run:
  assumes "types_ok os (m_types m)" "m_names m ''c_void_p'' = Some v" "m_names m ''c_size_t'' = Some z"
    "m_names m ''c_int'' = Some i" "m_names m ''py_object'' = Some ob"
  shows "\<exists>m1 k1 k4. functions_body p m = (Inr (), m1) \<and> m_names m1 = m_names m \<and> types_ok os (m_types m1)
    \<and> same_codes (m_types m) (m_types m1) \<and> pointer_type_cache (m_types m1) = pointer_type_cache (m_types m)
    \<and> m_funcs m1 ''memmove'' = Some (k1, ''_memmove_addr'')
    \<and> CFUNCTYPE (Some v) [v, v, z] (m_types m1) = (k1, m_types m1)
    \<and> m_funcs m1 ''_string_at'' = Some (k4, ''_string_at_addr'')
    \<and> CFUNCTYPE (Some ob) [v, i] (m_types m1) = (k4, m_types m1)
    \<and> (has_wstring p \<longrightarrow> m_funcs m1 ''_wstring_at'' = Some (k4, ''_wstring_at_addr''))"
proof -
  let ?s0 = "m_types m"
  obtain k1 s1 where c1: "CFUNCTYPE (Some v) [v, v, z] ?s0 = (k1, s1)" by force
  obtain k2 s2 where c2: "CFUNCTYPE (Some v) [v, i, z] s1 = (k2, s2)" by force
  obtain k3 s3 where c3: "PYFUNCTYPE (Some ob) [v, ob, ob] s2 = (k3, s3)" by force
  obtain k4 s4 where c4: "CFUNCTYPE (Some ob) [v, i] s3 = (k4, s4)" by force
  have e: "s1 = snd (CFUNCTYPE (Some v) [v, v, z] ?s0)" "s2 = snd (CFUNCTYPE (Some v) [v, i, z] s1)"
    "s3 = snd (PYFUNCTYPE (Some ob) [v, ob, ob] s2)" "s4 = snd (CFUNCTYPE (Some ob) [v, i] s3)"
    using c1 c2 c3 c4 by simp_all
  have ok: "types_ok os s1" using step_types_ok(3) [OF assms(1), of "Some v" "[v, v, z]"] c1 by simp
  have ok2: "types_ok os s2" using step_types_ok(3) [OF ok, of "Some v" "[v, i, z]"] c2 by simp
  have ok3: "types_ok os s3" using step_types_ok(4) [OF ok2, of "Some ob" "[v, ob, ob]"] c3 by simp
  have ok4: "types_ok os s4" using step_types_ok(3) [OF ok3, of "Some ob" "[v, i]"] c4 by simp
  have tr: "same_codes a b \<Longrightarrow> same_codes b c \<Longrightarrow> same_codes a c" for a b c by (simp add: same_codes_def)
  have "same_codes ?s0 s1" "same_codes s1 s2" "same_codes s2 s3" "same_codes s3 s4"
    using step_same_codes(3) [of ?s0 "Some v" "[v, v, z]"] step_same_codes(3) [of s1 "Some v" "[v, i, z]"]
      step_same_codes(4) [of s2 "Some ob" "[v, ob, ob]"] step_same_codes(3) [of s3 "Some ob" "[v, i]"] c1 c2 c3 c4
    by simp_all
  then have sc: "same_codes ?s0 s4" using tr by metis
  have "pointer_type_cache (snd (CFUNCTYPE q as s)) = pointer_type_cache s"
    "pointer_type_cache (snd (PYFUNCTYPE q as s)) = pointer_type_cache s" for q as s
    by (simp_all add: CFUNCTYPE_def PYFUNCTYPE_def new_class_def split: option.split)
  then have pc: "pointer_type_cache s4 = pointer_type_cache ?s0" using e by metis
  have g1: "functype_for (Some v, [v, v, z]) ?s0 = (Inr k1, s1)" "functype_for (Some ob, [v, i]) s3 = (Inr k4, s4)"
    using c1 c4 by (simp_all add: functype_for_Inr)
  have "s4 = fold (type_step os) [RFunc (Some v) [v, i, z], RPy (Some ob) [v, ob, ob], RFunc (Some ob) [v, i]] s1"
    using e by simp
  with functypes.get_stable [OF assms(1) g1(1)] have "functype_for (Some v, [v, v, z]) s4 = (Inr k1, s4)" by metis
  then have h1: "CFUNCTYPE (Some v) [v, v, z] s4 = (k1, s4)" by (simp add: functype_for_Inr prod_eq_iff)
  from functypes.get_idem [OF ok3 g1(2)] have h4: "CFUNCTYPE (Some ob) [v, i] s4 = (k4, s4)"
    by (simp add: functype_for_Inr prod_eq_iff)
  let ?f = "(m_funcs m)(''memmove'' \<mapsto> (k1, ''_memmove_addr''), ''memset'' \<mapsto> (k2, ''_memset_addr''),
      ''_cast'' \<mapsto> (k3, ''_cast_addr''), ''_string_at'' \<mapsto> (k4, ''_string_at_addr''))"
  let ?g = "if has_wstring p then ?f(''_wstring_at'' \<mapsto> (k4, ''_wstring_at_addr'')) else ?f"
  have "functions_body p m = (Inr (), m\<lparr>m_types := s4, m_funcs := ?g\<rparr>)"
    using assms(2-5) by (simp add: functions_body_defs func_stmt_def py_bind_def name_of_def on_types_def c1 c2 c3 c4 h4)
  with ok4 sc pc h1 h4 show ?thesis by (intro exI [of _ "m\<lparr>m_types := s4, m_funcs := ?g\<rparr>"] exI [of _ k1] exI [of _ k4]) simp
qed

section \<open>The sized types\<close>

text \<open>Only the names \<open>ns\<close> change.\<close>

definition only_names :: "string list \<Rightarrow> module \<Rightarrow> module \<Rightarrow> bool" where
  "only_names ns m m1 \<longleftrightarrow> m_types m1 = m_types m \<and> m_funcs m1 = m_funcs m \<and> (\<forall>x. x \<notin> set ns \<longrightarrow> m_names m1 x = m_names m x)"

lemma only_names_codes: "only_names ns m m1 \<Longrightarrow> x \<notin> set ns \<Longrightarrow> codes m1 x = codes m x"
  by (auto simp: only_names_def codes_def split: option.split)

lemma only_names_trans: "only_names ns m m1 \<Longrightarrow> only_names ns m1 m2 \<Longrightarrow> only_names ns m m2"
  by (simp add: only_names_def)

lemma sized_stmt_codes:
  assumes "names_ok os m" "codes m kind = Some c" "distinct [n16, n32, n64]"
    and "codes m n16 = s16 s" "codes m n32 = s32 s" "codes m n64 = s64 s"
  shows "\<exists>m1. sized_stmt p n16 n32 n64 kind m = (Inr (), m1) \<and> names_ok os m1 \<and> only_names [n16, n32, n64] m m1
    \<and> codes m1 n16 = s16 (fill_sized (calcsize p) [c] s) \<and> codes m1 n32 = s32 (fill_sized (calcsize p) [c] s)
    \<and> codes m1 n64 = s64 (fill_sized (calcsize p) [c] s)"
proof -
  have sz: "size_of p kind m = (Inr (calcsize p c), m)" by (rule size_of_codes [OF assms(1,2)])
  have al: "\<exists>m1. alias_stmt n kind m = (Inr (), m1) \<and> names_ok os m1 \<and> only_names [n16, n32, n64] m m1 \<and> codes m1 = (codes m)(n \<mapsto> c)"
    if "n \<in> {n16, n32, n64}" for n
    using alias_stmt_codes [OF assms(1,2), of n] that by (fastforce simp: only_names_def rest_def)
  consider (two) "calcsize p c = 2" | (four) "calcsize p c = 4" | (eight) "calcsize p c = 8" | (none) "calcsize p c \<notin> {2, 4, 8}" by blast
  then show ?thesis
  proof cases
    case two
    from al [of n16] obtain m1 where "alias_stmt n16 kind m = (Inr (), m1)" "names_ok os m1" "only_names [n16, n32, n64] m m1"
      "codes m1 = (codes m)(n16 \<mapsto> c)" by blast
    with two sz assms(3-6) show ?thesis by (auto simp: sized_stmt_def py_bind_Inr)
  next
    case four
    from al [of n32] obtain m1 where "alias_stmt n32 kind m = (Inr (), m1)" "names_ok os m1" "only_names [n16, n32, n64] m m1"
      "codes m1 = (codes m)(n32 \<mapsto> c)" by blast
    with four sz assms(3-6) show ?thesis by (auto simp: sized_stmt_def py_bind_Inr)
  next
    case eight
    from al [of n64] obtain m1 where "alias_stmt n64 kind m = (Inr (), m1)" "names_ok os m1" "only_names [n16, n32, n64] m m1"
      "codes m1 = (codes m)(n64 \<mapsto> c)" by blast
    with eight sz assms(3-6) show ?thesis by (auto simp: sized_stmt_def py_bind_Inr)
  next
    case none
    with sz assms(1,4-6) show ?thesis by (simp add: sized_stmt_def py_bind_Inr only_names_def)
  qed
qed

lemma sized_loop_codes:
  assumes "names_ok os m" "\<forall>(n, c) \<in> set ks. codes m n = Some c \<and> n \<notin> {n16, n32, n64}" "distinct [n16, n32, n64]"
    and "codes m n16 = s16 s" "codes m n32 = s32 s" "codes m n64 = s64 s"
  shows "\<exists>m1. py_block (map (sized_stmt p n16 n32 n64) (map fst ks)) m = (Inr (), m1) \<and> names_ok os m1 \<and> only_names [n16, n32, n64] m m1
    \<and> codes m1 n16 = s16 (fill_sized (calcsize p) (map snd ks) s) \<and> codes m1 n32 = s32 (fill_sized (calcsize p) (map snd ks) s)
    \<and> codes m1 n64 = s64 (fill_sized (calcsize p) (map snd ks) s)"
  using assms
proof (induction ks arbitrary: m s)
  case Nil
  then show ?case by (simp add: only_names_def)
next
  case (Cons k ks)
  obtain n c where k: "k = (n, c)" by force
  with Cons.prems(2) have c: "codes m n = Some c" by simp
  let ?s = "fill_sized (calcsize p) [c] s"
  from sized_stmt_codes [OF Cons.prems(1) c Cons.prems(3-6), of p] obtain m1 where
    m1: "sized_stmt p n16 n32 n64 n m = (Inr (), m1)" "names_ok os m1" "only_names [n16, n32, n64] m m1"
      "codes m1 n16 = s16 ?s" "codes m1 n32 = s32 ?s" "codes m1 n64 = s64 ?s" by blast
  have "\<forall>(n, c) \<in> set ks. codes m1 n = Some c \<and> n \<notin> {n16, n32, n64}"
    using Cons.prems(2) only_names_codes [OF m1(3)] by auto
  from Cons.IH [OF m1(2) this Cons.prems(3) m1(4-6)] obtain m2 where
    m2: "py_block (map (sized_stmt p n16 n32 n64) (map fst ks)) m1 = (Inr (), m2)" "names_ok os m2" "only_names [n16, n32, n64] m1 m2"
      "codes m2 n16 = s16 (fill_sized (calcsize p) (map snd ks) ?s)" "codes m2 n32 = s32 (fill_sized (calcsize p) (map snd ks) ?s)"
      "codes m2 n64 = s64 (fill_sized (calcsize p) (map snd ks) ?s)" by blast
  have "py_block (map (sized_stmt p n16 n32 n64) (map fst (k # ks))) m = (Inr (), m2)"
    using k m1(1) m2(1) by (simp add: py_bind_Inr)
  moreover have "fill_sized (calcsize p) (map snd (k # ks)) s = fill_sized (calcsize p) (map snd ks) ?s" by (simp add: k)
  ultimately show ?case using m2(2,4-6) only_names_trans [OF m1(3) m2(3)] by metis
qed

section \<open>The whole import\<close>

text \<open>The names of the table, the two unicode types apart, are bound to their types.\<close>

definition base_names :: "(char \<Rightarrow> nat) \<Rightarrow> (string \<Rightarrow> char option) \<Rightarrow> bool" where
  "base_names cs f \<longleftrightarrow> list_all (\<lambda>(n, c). f n = Some c) (butlast (butlast (simple_types cs)))"

definition later_names :: "string list" where
  "later_names = [''c_size_t'', ''c_int8'', ''c_uint8'', ''c_int16'', ''c_int32'', ''c_int64'', ''c_uint16'', ''c_uint32'', ''c_uint64'']"

lemma base_names_other:
  assumes "\<And>x. x \<in> fst ` set (butlast (butlast (simple_types cs))) \<Longrightarrow> g x = f x" "base_names cs f"
  shows "base_names cs g"
  using assms by (fastforce simp: base_names_def list_all_iff)

lemma table_names: "fst ` set (butlast (butlast (simple_types cs))) =
    {''py_object'', ''c_short'', ''c_ushort'', ''c_long'', ''c_ulong'', ''c_int'', ''c_uint'', ''c_float'', ''c_double'',
     ''c_longlong'', ''c_ulonglong'', ''c_ubyte'', ''c_byte'', ''c_char'', ''c_char_p'', ''c_void_p'', ''c_voidp''}"
  by (simp add: simple_types_def insert_commute)

lemma base_names_upd:
  assumes "n \<notin> fst ` set (butlast (butlast (simple_types cs)))" "base_names cs f"
  shows "base_names cs (f(n := x))"
  by (rule base_names_other [OF _ assms(2)]) (use assms(1) in auto)

lemma base_namesD:
  assumes "base_names cs f"
  shows "f ''py_object'' = Some (CHR ''O'')" "f ''c_short'' = Some (CHR ''h'')" "f ''c_ushort'' = Some (CHR ''H'')"
    "f ''c_long'' = Some (CHR ''l'')" "f ''c_ulong'' = Some (CHR ''L'')" "f ''c_int'' = Some (c_int cs)" "f ''c_uint'' = Some (c_uint cs)"
    "f ''c_longlong'' = Some (c_longlong cs)" "f ''c_ulonglong'' = Some (c_ulonglong cs)" "f ''c_ubyte'' = Some (CHR ''B'')"
    "f ''c_byte'' = Some (CHR ''b'')" "f ''c_char'' = Some (CHR ''c'')" "f ''c_char_p'' = Some (CHR ''z'')" "f ''c_void_p'' = Some (CHR ''P'')"
  using assms by (simp_all add: base_names_def simple_types_def)

lemma import_prefix:
  "\<exists>m. py_block [py_block (map run_type (simple_stmts (calcsize p))), unicode_body p, char_param, hresult_body p] fresh_module = (Inr (), m)
    \<and> names_ok os m \<and> base_names (calcsize p) (codes m) \<and> list_all (\<lambda>n. codes m n = None) later_names
    \<and> (has_conversion p \<longrightarrow> codes m ''c_wchar_p'' = Some (CHR ''Z'') \<and> codes m ''c_wchar'' = Some (CHR ''u''))
    \<and> m_world m = empty_world \<and> m_funcs m = Map.empty"
proof -
  let ?cs = "calcsize p"
  have f: "names_ok os fresh_module" "codes fresh_module = Map.empty"
    by (simp_all add: names_ok_def fresh_module_def types_ok_start codes_def fun_eq_iff)
  from run_types_codes [OF f(1) simple_stmts_bound] obtain m1 where
    m1: "py_block (map run_type (simple_stmts ?cs)) fresh_module = (Inr (), m1)" "names_ok os m1"
      "codes m1 = run_codes (simple_stmts ?cs) Map.empty" "rest m1 = rest fresh_module" unfolding f(2) by blast
  have b1: "base_names ?cs (codes m1)" unfolding m1(3) base_names_def by (rule simple_stmts_codes)
  have u1: "list_all (\<lambda>n. codes m1 n = None) later_names"
    unfolding m1(3) by (simp add: later_names_def simple_stmts_def)
  from unicode_body_codes [OF m1(2), of p] obtain m2 where
    m2: "unicode_body p m1 = (Inr (), m2)" "names_ok os m2" "rest m2 = rest m1"
      "codes m2 = (if has_conversion p then (codes m1)(''c_wchar_p'' \<mapsto> CHR ''Z'', ''c_wchar'' \<mapsto> CHR ''u'') else codes m1)" by blast
  have b2: "base_names ?cs (codes m2)"
    unfolding m2(4) using b1 by (simp add: base_names_upd table_names)
  from from_param_codes [OF m2(2) base_namesD(12) [OF b2] base_namesD(13) [OF b2]] obtain m3 where
    m3: "char_param m2 = (Inr (), m3)" "names_ok os m3" "codes m3 = codes m2" "rest m3 = rest m2"
    unfolding char_param_def by blast
  from hresult_body_codes [OF m3(2), of p] obtain m4 where
    m4: "hresult_body p m3 = (Inr (), m4)" "names_ok os m4" "rest m4 = rest m3"
      "codes m4 = (if is_windows p then (codes m3)(''HRESULT'' \<mapsto> CHR ''l'') else codes m3)" by blast
  have b4: "base_names ?cs (codes m4)"
    unfolding m4(4) m3(3) using b2 by (simp add: base_names_upd table_names)
  have u4: "list_all (\<lambda>n. codes m4 n = None) later_names"
    using u1 unfolding m4(4) m3(3) m2(4) by (simp add: later_names_def)
  have w4: "has_conversion p \<longrightarrow> codes m4 ''c_wchar_p'' = Some (CHR ''Z'') \<and> codes m4 ''c_wchar'' = Some (CHR ''u'')"
    unfolding m4(4) m3(3) m2(4) by simp
  have "rest m4 = rest fresh_module" using m1(4) m2(3) m3(4) m4(3) by simp
  then have "m_world m4 = empty_world" "m_funcs m4 = Map.empty" by (simp_all add: rest_def fresh_module_def)
  with m1(1) m2(1) m3(1) m4(1,2) b4 u4 w4 show ?thesis by (simp add: py_bind_Inr)
qed

text \<open>What the last loop leaves: the sized types, and all else as it was.\<close>

definition sized_names :: "(char \<Rightarrow> nat) \<Rightarrow> (string \<Rightarrow> char option) \<Rightarrow> bool" where
  "sized_names cs f \<longleftrightarrow> f ''c_int8'' = Some (CHR ''b'') \<and> f ''c_uint8'' = Some (CHR ''B'')
     \<and> f ''c_int16'' = s16 (signed_sized cs) \<and> f ''c_int32'' = s32 (signed_sized cs) \<and> f ''c_int64'' = s64 (signed_sized cs)
     \<and> f ''c_uint16'' = s16 (unsigned_sized cs) \<and> f ''c_uint32'' = s32 (unsigned_sized cs) \<and> f ''c_uint64'' = s64 (unsigned_sized cs)"

lemma only_names_mono: "only_names ns m m1 \<Longrightarrow> set ns \<subseteq> set ns' \<Longrightarrow> only_names ns' m m1"
  by (auto simp: only_names_def)

lemma sized_body_codes:
  assumes "names_ok os m" "base_names (calcsize p) (codes m)" "list_all (\<lambda>n. codes m n = None) (tl later_names)"
  shows "\<exists>m1. sized_body p m = (Inr (), m1) \<and> names_ok os m1 \<and> only_names (tl later_names) m m1
    \<and> sized_names (calcsize p) (codes m1)"
proof -
  let ?cs = "calcsize p"
  let ?i = "[(''c_short'', CHR ''h''), (''c_int'', c_int ?cs), (''c_long'', CHR ''l''), (''c_longlong'', c_longlong ?cs)]"
  let ?u = "[(''c_ushort'', CHR ''H''), (''c_uint'', c_uint ?cs), (''c_ulong'', CHR ''L''), (''c_ulonglong'', c_ulonglong ?cs)]"
  note b = base_namesD [OF assms(2)]
  from alias_stmt_codes [OF assms(1) b(11), of "''c_int8''"] obtain m1 where
    m1: "alias_stmt ''c_int8'' ''c_byte'' m = (Inr (), m1)" "names_ok os m1" "codes m1 = (codes m)(''c_int8'' \<mapsto> CHR ''b'')"
      "only_names [''c_int8''] m m1" by (fastforce simp: only_names_def rest_def)
  have "codes m1 ''c_ubyte'' = Some (CHR ''B'')" unfolding m1(3) using b(10) by simp
  from alias_stmt_codes [OF m1(2) this, of "''c_uint8''"] obtain m2 where
    m2: "alias_stmt ''c_uint8'' ''c_ubyte'' m1 = (Inr (), m2)" "names_ok os m2" "codes m2 = (codes m1)(''c_uint8'' \<mapsto> CHR ''B'')"
      "only_names [''c_uint8''] m1 m2" by (fastforce simp: only_names_def rest_def)
  have c2: "codes m2 = (codes m)(''c_int8'' \<mapsto> CHR ''b'', ''c_uint8'' \<mapsto> CHR ''B'')" unfolding m2(3) m1(3) ..
  have "\<forall>(n, c) \<in> set ?i. codes m2 n = Some c \<and> n \<notin> {''c_int16'', ''c_int32'', ''c_int64''}"
    using b unfolding c2 by simp
  moreover have "codes m2 ''c_int16'' = s16 no_sized" "codes m2 ''c_int32'' = s32 no_sized" "codes m2 ''c_int64'' = s64 no_sized"
    using assms(3) unfolding c2 by (simp_all add: later_names_def no_sized_def)
  ultimately obtain m3 where
    m3: "py_block (map (sized_stmt p ''c_int16'' ''c_int32'' ''c_int64'') (map fst ?i)) m2 = (Inr (), m3)" "names_ok os m3"
      "only_names [''c_int16'', ''c_int32'', ''c_int64''] m2 m3"
      "codes m3 ''c_int16'' = s16 (fill_sized ?cs (map snd ?i) no_sized)" "codes m3 ''c_int32'' = s32 (fill_sized ?cs (map snd ?i) no_sized)"
      "codes m3 ''c_int64'' = s64 (fill_sized ?cs (map snd ?i) no_sized)"
    using sized_loop_codes [OF m2(2), of ?i "''c_int16''" "''c_int32''" "''c_int64''" no_sized p] by auto
  have c3: "codes m3 n = codes m2 n" if "n \<notin> {''c_int16'', ''c_int32'', ''c_int64''}" for n
    using only_names_codes [OF m3(3)] that by simp
  have "\<forall>(n, c) \<in> set ?u. codes m3 n = Some c \<and> n \<notin> {''c_uint16'', ''c_uint32'', ''c_uint64''}"
    using b by (simp add: c3 c2)
  moreover have "codes m3 ''c_uint16'' = s16 no_sized" "codes m3 ''c_uint32'' = s32 no_sized" "codes m3 ''c_uint64'' = s64 no_sized"
    using assms(3) by (simp_all add: c3 c2 later_names_def no_sized_def)
  ultimately obtain m4 where
    m4: "py_block (map (sized_stmt p ''c_uint16'' ''c_uint32'' ''c_uint64'') (map fst ?u)) m3 = (Inr (), m4)" "names_ok os m4"
      "only_names [''c_uint16'', ''c_uint32'', ''c_uint64''] m3 m4"
      "codes m4 ''c_uint16'' = s16 (fill_sized ?cs (map snd ?u) no_sized)" "codes m4 ''c_uint32'' = s32 (fill_sized ?cs (map snd ?u) no_sized)"
      "codes m4 ''c_uint64'' = s64 (fill_sized ?cs (map snd ?u) no_sized)"
    using sized_loop_codes [OF m3(2), of ?u "''c_uint16''" "''c_uint32''" "''c_uint64''" no_sized p] by auto
  have c4: "codes m4 n = codes m3 n" if "n \<notin> {''c_uint16'', ''c_uint32'', ''c_uint64''}" for n
    using only_names_codes [OF m4(3)] that by simp
  have a: "py_block [alias_stmt ''c_int8'' ''c_byte'', alias_stmt ''c_uint8'' ''c_ubyte''] m = (Inr (), m2)"
    using m1(1) m2(1) by (simp add: py_bind_Inr)
  have "sized_body p m = py_block ([alias_stmt ''c_int8'' ''c_byte'', alias_stmt ''c_uint8'' ''c_ubyte'']
      @ map (sized_stmt p ''c_int16'' ''c_int32'' ''c_int64'') (map fst ?i)
      @ map (sized_stmt p ''c_uint16'' ''c_uint32'' ''c_uint64'') (map fst ?u)) m" by (simp add: sized_body_def)
  also have "\<dots> = (Inr (), m4)"
    by (simp only: py_block_prefix [OF a] py_block_prefix [OF m3(1)] m4(1))
  finally have "sized_body p m = (Inr (), m4)" .
  moreover have "only_names (tl later_names) m m4"
    using m1(4) m2(4) m3(3) m4(3) by (simp add: only_names_def later_names_def)
  moreover have "sized_names ?cs (codes m4)"
    using m3(4-6) m4(4-6) by (simp add: sized_names_def c4 c3 c2 signed_sized_def unsigned_sized_def)
  ultimately show ?thesis using m4(2) by blast
qed

text \<open>The part after the loaders.\<close>

abbreviation import_rest :: "platform \<Rightarrow> unit body" where
  "import_rest p \<equiv> py_block [pointer_none, size_t_body p, functions_body p, sized_body p]"

lemma size_t_reached:
  assumes "names_ok os m" "base_names (calcsize p) (codes m)" "list_all (\<lambda>n. codes m n = None) later_names"
  shows "\<exists>m2 v. py_block [pointer_none, size_t_body p] m = (Inr (), m2) \<and> names_ok os m2
    \<and> codes m2 = (codes m)(''c_size_t'' := c_size_t (calcsize p))
    \<and> m_names m2 ''c_void_p'' = Some v \<and> pointer_type_cache (m_types m2) KNone = Some v"
proof -
  note b = base_namesD [OF assms(2)]
  from pointer_none_codes [OF assms(1) b(14)] obtain m1 v where
    m1: "pointer_none m = (Inr (), m1)" "names_ok os m1" "codes m1 = codes m" "m_names m1 ''c_void_p'' = Some v"
      "pointer_type_cache (m_types m1) KNone = Some v" by blast
  have "codes m1 ''c_size_t'' = None" using assms(3) unfolding m1(3) by (simp add: later_names_def)
  from size_t_body_codes [OF m1(2) _ _ _ this, unfolded m1(3), OF b(7,5,14)] obtain m2 where
    m2: "size_t_body p m1 = (Inr (), m2)" "names_ok os m2" "codes m2 = (codes m)(''c_size_t'' := c_size_t (calcsize p))"
      "m_types m2 = m_types m1" "\<forall>x. x \<noteq> ''c_size_t'' \<longrightarrow> m_names m2 x = m_names m1 x" by blast
  have "m_names m2 ''c_void_p'' = Some v" using m2(5) m1(4) by simp
  with m1(1,5) m2(1-4) show ?thesis by (simp add: py_bind_Inr)
qed

lemma import_rest_unbound:
  assumes "names_ok os m" "base_names (calcsize p) (codes m)" "list_all (\<lambda>n. codes m n = None) later_names" "c_size_t (calcsize p) = None"
  shows "\<exists>m1. import_rest p m = (Inl NameError, m1)"
proof -
  from size_t_reached [OF assms(1-3)] assms(4) obtain m2 v where
    m2: "py_block [pointer_none, size_t_body p] m = (Inr (), m2)" "names_ok os m2" "codes m2 ''c_size_t'' = None" "m_names m2 ''c_void_p'' = Some v"
    by auto
  from m2(2,3) have "m_names m2 ''c_size_t'' = None" 
    by (cases "m_names m2 ''c_size_t''") (simp_all add: names_ok_def codes_def, metis option.distinct(1))
  from functions_body_unbound [OF m2(4) this, of p] have f: "functions_body p m2 = (Inl NameError, m2)" .
  have "import_rest p m = py_block ([pointer_none, size_t_body p] @ [functions_body p, sized_body p]) m" by simp
  also have "\<dots> = py_block [functions_body p, sized_body p] m2" by (rule py_block_prefix [OF m2(1)])
  also have "\<dots> = (Inl NameError, m2)" using f by (simp add: py_bind_Inl)
  finally show ?thesis by blast
qed

text \<open>What a successful import leaves.\<close>

definition imported :: "platform \<Rightarrow> module \<Rightarrow> bool" where
  "imported p m \<longleftrightarrow> base_names (calcsize p) (codes m) \<and> codes m ''c_size_t'' = c_size_t (calcsize p) \<and> sized_names (calcsize p) (codes m)
   \<and> (\<exists>v z i ob k1 k4. m_names m ''c_void_p'' = Some v \<and> m_names m ''c_size_t'' = Some z
      \<and> m_names m ''c_int'' = Some i \<and> m_names m ''py_object'' = Some ob
      \<and> POINTER ANone (m_types m) = (Inr v, m_types m)
      \<and> m_funcs m ''memmove'' = Some (k1, ''_memmove_addr'') \<and> CFUNCTYPE (Some v) [v, v, z] (m_types m) = (k1, m_types m)
      \<and> m_funcs m ''_string_at'' = Some (k4, ''_string_at_addr'') \<and> CFUNCTYPE (Some ob) [v, i] (m_types m) = (k4, m_types m)
      \<and> (has_wstring p \<longrightarrow> m_funcs m ''_wstring_at'' = Some (k4, ''_wstring_at_addr'')))"

lemma import_rest_runs:
  assumes "names_ok os m" "base_names (calcsize p) (codes m)" "list_all (\<lambda>n. codes m n = None) later_names" "c_size_t (calcsize p) = Some c"
  shows "\<exists>m1. import_rest p m = (Inr (), m1) \<and> names_ok os m1 \<and> imported p m1"
proof -
  from size_t_reached [OF assms(1-3)] obtain m2 v where
    m2: "py_block [pointer_none, size_t_body p] m = (Inr (), m2)" "names_ok os m2"
      "codes m2 = (codes m)(''c_size_t'' := c_size_t (calcsize p))"
      "m_names m2 ''c_void_p'' = Some v" "pointer_type_cache (m_types m2) KNone = Some v" by blast
  have b2: "base_names (calcsize p) (codes m2)" unfolding m2(3) by (rule base_names_upd [OF _ assms(2)]) (simp add: table_names)
  have "codes m2 ''c_size_t'' = Some c" unfolding m2(3) using assms(4) by simp
  then obtain z i ob where n2: "m_names m2 ''c_size_t'' = Some z" "m_names m2 ''c_int'' = Some i" "m_names m2 ''py_object'' = Some ob"
    using names_ok_name [OF m2(2)] base_namesD(1,6) [OF b2] by blast
  have "types_ok os (m_types m2)" using m2(2) by (simp add: names_ok_def)
  from functions_body_run [OF this m2(4) n2, of p] obtain m3 k1 k4 where
    m3: "functions_body p m2 = (Inr (), m3)" "m_names m3 = m_names m2" "types_ok os (m_types m3)" "same_codes (m_types m2) (m_types m3)"
      "pointer_type_cache (m_types m3) = pointer_type_cache (m_types m2)"
    and k: "m_funcs m3 ''memmove'' = Some (k1, ''_memmove_addr'')" "CFUNCTYPE (Some v) [v, v, z] (m_types m3) = (k1, m_types m3)"
      "m_funcs m3 ''_string_at'' = Some (k4, ''_string_at_addr'')" "CFUNCTYPE (Some ob) [v, i] (m_types m3) = (k4, m_types m3)"
      "has_wstring p \<longrightarrow> m_funcs m3 ''_wstring_at'' = Some (k4, ''_wstring_at_addr'')" by blast
  from keep_names [OF m2(2) m3(4,3,2)] have c3: "names_ok os m3" "codes m3 = codes m2" by blast+
  have "list_all (\<lambda>n. codes m3 n = None) (tl later_names)" using assms(3) unfolding c3(2) m2(3) by (simp add: later_names_def)
  from sized_body_codes [OF c3(1) b2 [folded c3(2)] this] obtain m4 where
    m4: "sized_body p m3 = (Inr (), m4)" "names_ok os m4" "only_names (tl later_names) m3 m4" "sized_names (calcsize p) (codes m4)" by blast
  have same: "codes m4 x = codes m2 x \<and> m_names m4 x = m_names m2 x" if "x \<notin> set (tl later_names)" for x
    using only_names_codes [OF m4(3) that] m4(3) that m3(2) c3(2) by (simp add: only_names_def)
  have "base_names (calcsize p) (codes m4)"
    by (rule base_names_other [OF _ b2]) (rule same [THEN conjunct1], auto simp: table_names later_names_def)
  moreover have "codes m4 ''c_size_t'' = c_size_t (calcsize p)" using same [of "''c_size_t''"] m2(3) by (simp add: later_names_def)
  moreover have "m_names m4 ''c_void_p'' = Some v" "m_names m4 ''c_size_t'' = Some z" "m_names m4 ''c_int'' = Some i" "m_names m4 ''py_object'' = Some ob"
    using same n2 m2(4) by (simp_all add: later_names_def)
  moreover have t4: "m_types m4 = m_types m3" "m_funcs m4 = m_funcs m3" using m4(3) by (simp_all add: only_names_def)
  moreover have "POINTER ANone (m_types m4) = (Inr v, m_types m4)" using t4 m3(5) m2(5) by (simp add: POINTER_def)
  ultimately have imp: "imported p m4" unfolding imported_def using m4(4) k by (simp only: t4) blast
  have "import_rest p m = py_block ([pointer_none, size_t_body p] @ [functions_body p, sized_body p]) m" by simp
  also have "\<dots> = py_block [functions_body p, sized_body p] m2" by (rule py_block_prefix [OF m2(1)])
  also have "\<dots> = (Inr (), m4)" using m3(1) m4(1) by (simp add: py_bind_Inr)
  finally show ?thesis using imp m4(2) by blast
qed

text \<open>The import up to the loaders, and how it goes on.\<close>

lemma import_to_loaders:
  assumes "c_version p = ''1.0.1''"
  shows "\<exists>m. names_ok os m \<and> base_names (calcsize p) (codes m) \<and> list_all (\<lambda>n. codes m n = None) later_names
    \<and> import_ctypes p fresh_module = (case fst (make_loaders p empty_world) of Inl e \<Rightarrow> (Inl e, m) | Inr _ \<Rightarrow> import_rest p m)"
proof -
  let ?first = "[py_block (map run_type (simple_stmts (calcsize p))), unicode_body p, char_param, hresult_body p]"
  from import_prefix [of p os] obtain m where
    m: "py_block ?first fresh_module = (Inr (), m)" "names_ok os m" "base_names (calcsize p) (codes m)"
      "list_all (\<lambda>n. codes m n = None) later_names" "m_world m = empty_world" by blast
  from loaders_body_codes [OF m(2), of p] obtain m1 where
    m1: "names_ok os m1" "codes m1 = codes m"
      "loaders_body p m = ((case fst (make_loaders p (m_world m)) of Inl e \<Rightarrow> Inl e | Inr _ \<Rightarrow> Inr ()), m1)" by blast
  have v: "py_block [version_check p] fresh_module = (Inr (), fresh_module)"
    using assms by (simp add: version_check_def py_bind_def)
  have "import_ctypes p fresh_module = py_block ([version_check p] @ ?first @ loaders_body p # [pointer_none, size_t_body p, functions_body p, sized_body p]) fresh_module"
    by (simp add: import_ctypes_def)
  also have "\<dots> = py_block (loaders_body p # [pointer_none, size_t_body p, functions_body p, sized_body p]) m"
    by (simp only: py_block_prefix [OF v] py_block_prefix [OF m(1)])
  also have "\<dots> = (case fst (make_loaders p empty_world) of Inl e \<Rightarrow> (Inl e, m1) | Inr _ \<Rightarrow> import_rest p m1)"
    unfolding py_block.simps(2) [of "loaders_body p"] using m1(3) m(5)
    by (cases "fst (make_loaders p empty_world)") (simp_all add: py_bind_def)
  finally show ?thesis using m(3,4) m1(1,2) by auto
qed

lemma import_no_size_t:
  assumes "c_version p = ''1.0.1''" "fst (make_loaders p empty_world) = Inr bs" "c_size_t (calcsize p) = None"
  shows "fst (import_ctypes p fresh_module) = Inl NameError"
proof -
  from import_to_loaders [OF assms(1)] assms(2) obtain m where
    m: "names_ok ''nt'' m" "base_names (calcsize p) (codes m)" "list_all (\<lambda>n. codes m n = None) later_names"
      "import_ctypes p fresh_module = import_rest p m" by auto
  from import_rest_unbound [OF m(1-3) assms(3)] m(4) show ?thesis by auto
qed

lemma import_runs:
  assumes "c_version p = ''1.0.1''" "fst (make_loaders p empty_world) = Inr bs" "c_size_t (calcsize p) = Some c"
  shows "\<exists>m. import_ctypes p fresh_module = (Inr (), m) \<and> names_ok os m \<and> imported p m"
proof -
  from import_to_loaders [OF assms(1), of os] assms(2) obtain m where
    m: "names_ok os m" "base_names (calcsize p) (codes m)" "list_all (\<lambda>n. codes m n = None) later_names"
      "import_ctypes p fresh_module = import_rest p m" by auto
  from import_rest_runs [OF m(1-3) assms(3)] m(4) show ?thesis by auto
qed

lemma import_stops:
  "c_version p = ''1.0.1'' \<Longrightarrow> fst (make_loaders p empty_world) = Inl e \<Longrightarrow> fst (import_ctypes p fresh_module) = Inl e"
  "c_version p \<noteq> ''1.0.1'' \<Longrightarrow> fst (import_ctypes p fresh_module) = Inl VersionMismatch"
  using import_to_loaders [of p "''nt''"] by (auto simp: import_ctypes_def version_check_def py_bind_def)

text \<open>On 64-bit Windows a pointer is longer than any of the two candidates for \<open>c_size_t\<close>, and \<open>memmove\<close> needs it.\<close>

lemma import_win64:
  assumes "c_version p = ''1.0.1''" "fst (make_loaders p empty_world) = Inr bs"
    "calcsize p (CHR ''i'') = 4" "calcsize p (CHR ''l'') = 4" "calcsize p (CHR ''L'') = 4" "calcsize p (CHR ''P'') = 8"
  shows "fst (import_ctypes p fresh_module) = Inl NameError"
  using import_no_size_t [OF assms(1,2) c_size_t_undefined] assms(3-6) by simp

lemma sized_sizes:
  "s16 (signed_sized cs) = None \<or> cs (the (s16 (signed_sized cs))) = 2" "s32 (signed_sized cs) = None \<or> cs (the (s32 (signed_sized cs))) = 4"
  "s64 (signed_sized cs) = None \<or> cs (the (s64 (signed_sized cs))) = 8" "s16 (unsigned_sized cs) = None \<or> cs (the (s16 (unsigned_sized cs))) = 2"
  "s32 (unsigned_sized cs) = None \<or> cs (the (s32 (unsigned_sized cs))) = 4" "s64 (unsigned_sized cs) = None \<or> cs (the (s64 (unsigned_sized cs))) = 8"
proof -
  have "let u = fill_sized cs ks no_sized
      in (s16 u = None \<or> cs (the (s16 u)) = 2) \<and> (s32 u = None \<or> cs (the (s32 u)) = 4) \<and> (s64 u = None \<or> cs (the (s64 u)) = 8)" for ks
    by (rule fill_sized_sizes) (simp_all add: no_sized_def)
  then show "s16 (signed_sized cs) = None \<or> cs (the (s16 (signed_sized cs))) = 2" "s32 (signed_sized cs) = None \<or> cs (the (s32 (signed_sized cs))) = 4"
    "s64 (signed_sized cs) = None \<or> cs (the (s64 (signed_sized cs))) = 8" "s16 (unsigned_sized cs) = None \<or> cs (the (s16 (unsigned_sized cs))) = 2"
    "s32 (unsigned_sized cs) = None \<or> cs (the (s32 (unsigned_sized cs))) = 4" "s64 (unsigned_sized cs) = None \<or> cs (the (s64 (unsigned_sized cs))) = 8"
    unfolding Let_def signed_sized_def unsigned_sized_def by blast+
qed

text \<open>How the import ends, and what it leaves when it succeeds.\<close>

lemma import_ends:
  "fst (import_ctypes p fresh_module) =
     (if c_version p \<noteq> ''1.0.1'' then Inl VersionMismatch
      else case fst (make_loaders p empty_world) of
             Inl e \<Rightarrow> Inl e
           | Inr _ \<Rightarrow> if c_size_t (calcsize p) = None then Inl NameError else Inr ())"
proof (cases "c_version p = ''1.0.1''")
  case False
  then show ?thesis by (simp add: import_stops)
next
  case True
  show ?thesis
  proof (cases "fst (make_loaders p empty_world)")
    case (Inl e)
    with True show ?thesis by (simp add: import_stops)
  next
    case (Inr bs)
    show ?thesis
    proof (cases "c_size_t (calcsize p)")
      case None
      with True Inr import_no_size_t [OF True Inr] show ?thesis by simp
    next
      case (Some c)
      from import_runs [OF True Inr Some] obtain m where "import_ctypes p fresh_module = (Inr (), m)" by blast
      with True Inr Some show ?thesis by simp
    qed
  qed
qed

lemma import_leaves:
  assumes "import_ctypes p fresh_module = (Inr (), m)"
  shows "imported p m
    \<and> (\<exists>c. codes m ''c_size_t'' = Some c \<and> calcsize p c = calcsize p (CHR ''P''))
    \<and> list_all (\<lambda>(n, b). codes m n = None \<or> calcsize p (the (codes m n)) = b)
        [(''c_int16'', 2), (''c_int32'', 4), (''c_int64'', 8), (''c_uint16'', 2), (''c_uint32'', 4), (''c_uint64'', 8)]"
proof -
  have v: "c_version p = ''1.0.1''" using assms import_stops(2) [of p] by (cases "c_version p = ''1.0.1''") auto
  obtain bs where l: "fst (make_loaders p empty_world) = Inr bs"
    using assms import_stops(1) [OF v] by (cases "fst (make_loaders p empty_world)") auto
  obtain c where c: "c_size_t (calcsize p) = Some c"
    using assms import_no_size_t [OF v l] by (cases "c_size_t (calcsize p)") auto
  from import_runs [OF v l c] assms have i: "imported p m" by auto
  then have s: "codes m ''c_size_t'' = Some c" "sized_names (calcsize p) (codes m)" using c by (simp_all add: imported_def)
  have "calcsize p c = calcsize p (CHR ''P'')" using c by (auto simp: c_size_t_def split: if_splits)
  with i s sized_sizes [of "calcsize p"] show ?thesis by (simp add: sized_names_def)
qed

section \<open>Properties\<close>

text \<open>C36: how importing the module ends, on every platform, and what it leaves. It ends with the version error when the C part is
  of another version; else with the error that opening the interpreter's own library, or on Windows the library of
  \<open>GetLastError\<close>, raises; else with \<open>NameError\<close> when no unsigned type has the size of a pointer, since \<open>c_size_t\<close> is then
  unbound and used; and it succeeds in every other case. Then the names of the simple types are bound to their types; \<open>c_size_t\<close> has
  the size of a pointer and each sized type its size; \<open>POINTER(None)\<close> is \<open>c_void_p\<close>; \<open>memmove\<close> and \<open>string_at\<close> are of the class
  \<open>CFUNCTYPE\<close> gives for their prototypes, made already; and \<open>wstring_at\<close> shares the class of \<open>string_at\<close>.\<close>

theorem import_outcome:
  assumes "import_ctypes p fresh_module = (r, m)"
  shows "r = (if c_version p \<noteq> ''1.0.1'' then Inl VersionMismatch
      else case fst (make_loaders p empty_world) of
             Inl e \<Rightarrow> Inl e
           | Inr _ \<Rightarrow> if c_size_t (calcsize p) = None then Inl NameError else Inr ())
    \<and> (r = Inr () \<longrightarrow> imported p m
      \<and> (\<exists>c. codes m ''c_size_t'' = Some c \<and> calcsize p c = calcsize p (CHR ''P''))
      \<and> list_all (\<lambda>(n, b). codes m n = None \<or> calcsize p (the (codes m n)) = b)
          [(''c_int16'', 2), (''c_int32'', 4), (''c_int64'', 8), (''c_uint16'', 2), (''c_uint32'', 4), (''c_uint64'', 8)])"
  using import_ends [of p] import_leaves [of p m] assms by simp

text \<open>A 64-bit Unix system.\<close>

definition demo_platform :: platform where
  "demo_platform = \<lparr>os_dl = demo_dl, sys_platform = ''linux2'',
     calcsize = (\<lambda>c. if c \<in> set ''lLqQPzZO'' then 8 else if c \<in> set ''iIu'' then 4 else if c \<in> set ''hH'' then 2 else 1),
     c_version = ''1.0.1'', has_conversion = True, has_wstring = True, dllhandle = 0, version_info = ''2.5'', sysv = 0\<rparr>"

theorem import_outcome_witness:
  "\<exists>m. import_ctypes demo_platform fresh_module = (Inr (), m) \<and> imported demo_platform m"
proof -
  have "c_version demo_platform = ''1.0.1''" by (simp add: demo_platform_def)
  moreover have "\<exists>bs. fst (make_loaders demo_platform empty_world) = Inr bs"
    by (simp add: make_loaders_def demo_platform_def demo_dl_def loader_init_def pythonapi_def dll_init_def py_bind_def)
  moreover have "c_size_t (calcsize demo_platform) = Some (CHR ''L'')"
    by (simp add: c_size_t_def c_uint_def demo_platform_def)
  ultimately obtain m where m: "import_ctypes demo_platform fresh_module = (Inr (), m)" using import_runs by blast
  from import_outcome [OF m] m show ?thesis by blast
qed

end
