(* ===== verification/Ctypes_Util.thy ===== *)
theory Ctypes_Util
  imports Macholib
begin

text \<open>
  Finding a library by name (sw/gnurabbit/python/ctypes/util.py), one function per system. The search on Mac OS
  is the one of theory Macholib. On other Unix systems the library is found in the output of the linker's cache
  listing, of \<open>ldd\<close> or of the compiler; the commands, the temporary files and the compilation of a pattern from text (the name
  is put into the pattern as it is) are parameters. The temporary files are the state.
\<close>

section \<open>Windows\<close>

record nt_host =
  nt_environ :: "string \<Rightarrow> string option"
  nt_exists :: "string \<Rightarrow> bool"
  nt_join :: "string \<Rightarrow> string \<Rightarrow> string"
  pathsep :: char

definition lower_char :: "char \<Rightarrow> char" where
  "lower_char c = (let n = of_char c :: nat in if 65 \<le> n \<and> n \<le> 90 then char_of (n + 32) else c)"

fun search_dirs :: "nt_host \<Rightarrow> string \<Rightarrow> string list \<Rightarrow> string option" where
  "search_dirs h name [] = None"
| "search_dirs h name (directory # ds) =
     (let fname = nt_join h directory name
      in if nt_exists h fname then Some fname
         else if ends_with ''.dll'' (map lower_char fname) then search_dirs h name ds
         else let fname1 = fname @ ''.dll''
              in if nt_exists h fname1 then Some fname1 else search_dirs h name ds)"

definition find_library_nt :: "nt_host \<Rightarrow> string \<Rightarrow> exn + string option" where
  "find_library_nt h name =
     (case nt_environ h ''PATH'' of
        None \<Rightarrow> Inl KeyError
      | Some path \<Rightarrow> Inr (search_dirs h name (split_on (pathsep h) path)))"

definition find_library_ce :: "string \<Rightarrow> string option" where
  "find_library_ce name = Some name"

section \<open>Mac OS\<close>

fun first_found :: "host \<Rightarrow> string list \<Rightarrow> exn + string option" where
  "first_found h [] = Inr None"
| "first_found h (name # possible) =
     (case dyld_find h (Bytes name) None None of
        Inr path \<Rightarrow> Inr (Some path)
      | Inl e \<Rightarrow> if e = ValueError then first_found h possible else Inl e)"

definition find_library_darwin :: "host \<Rightarrow> string \<Rightarrow> exn + string option" where
  "find_library_darwin h name =
     first_found h [''lib'' @ name @ ''.dylib'', name @ ''.dylib'', name @ ''.framework/'' @ name]"

section \<open>Other Unix systems\<close>

type_synonym files = "string \<Rightarrow> bool"

text \<open>\<open>mkstemp\<close> names a new file or raises, \<open>popen\<close> is what a command printed and the files it left, \<open>denied\<close> the files that
  exist but cannot be removed.\<close>

record unix_host =
  mkstemp :: "files \<Rightarrow> exn + string"
  popen :: "string \<Rightarrow> files \<Rightarrow> (exn + string) \<times> files"
  denied :: "string \<Rightarrow> bool"
  re_compile :: "string \<Rightarrow> exn + rx"
  executable :: string

definition backslash :: char where "backslash = char_of (92 :: nat)"

definition new_temp :: "unix_host \<Rightarrow> (files, string) py" where
  "new_temp h fs = (case mkstemp h fs of Inl e \<Rightarrow> (Inl e, fs) | Inr f \<Rightarrow> (Inr f, fs(f := True)))"

text \<open>\<open>try: os.unlink(f) except OSError, e: if e.errno != errno.ENOENT: raise\<close>\<close>

definition unlink_quietly :: "unix_host \<Rightarrow> string \<Rightarrow> (files, unit) py" where
  "unlink_quietly h f fs =
     (if \<not> fs f then (Inr (), fs)
      else if denied h f then (Inl (OSError 13), fs)
      else (Inr (), fs(f := False)))"

text \<open>\<open>try: m finally: c\<close>: an exception of the clean-up replaces the one of the body.\<close>

definition try_finally :: "('s, 'a) py \<Rightarrow> ('s, unit) py \<Rightarrow> ('s, 'a) py" where
  "try_finally m c s = (case m s of (r, t) \<Rightarrow> (case c t of (Inl e, u) \<Rightarrow> (Inl e, u) | (Inr x, u) \<Rightarrow> (r, u)))"

definition search_text :: "unix_host \<Rightarrow> string \<Rightarrow> string \<Rightarrow> exn + string option" where
  "search_text h expr trace =
     (case re_compile h expr of
        Inl e \<Rightarrow> Inl e
      | Inr r \<Rightarrow> Inr (case re_search r trace of None \<Rightarrow> None | Some (i, j, c) \<Rightarrow> Some (py_slice trace i j)))"

definition no_parens :: string where
  "no_parens = ''[^'' @ [backslash] @ ''('' @ [backslash] @ '')'' @ [backslash] @ ''s]*''"

definition gcc_expr :: "string \<Rightarrow> string" where
  "gcc_expr name = no_parens @ ''lib'' @ name @ [backslash] @ ''.'' @ no_parens"

definition gcc_cmd :: "string \<Rightarrow> string \<Rightarrow> string" where
  "gcc_cmd ccout name =
     ''if type gcc &>/dev/null; then CC=gcc; else CC=cc; fi;'' @ ''$CC -Wl,-t -o '' @ ccout @ '' 2>&1 -l'' @ name"

text \<open>The body of the \<open>try\<close> block after the second file is there; without it the clean-up finds the name of
  that file unbound.\<close>

definition findLib_gcc :: "unix_host \<Rightarrow> string \<Rightarrow> (files, string option) py" where
  "findLib_gcc h name =
     py_bind (new_temp h) (\<lambda>ccout.
     py_bind
       (\<lambda>fs. case new_temp h fs of
          (Inl e, fs1) \<Rightarrow> (Inl NameError, fs1)
        | (Inr outfile, fs1) \<Rightarrow>
            try_finally (popen h (gcc_cmd ccout name))
              (py_seq (unlink_quietly h outfile) (unlink_quietly h ccout)) fs1)
       (\<lambda>trace. py_lift (search_text h (gcc_expr name) trace)))"

definition findLib_ld :: "unix_host \<Rightarrow> string \<Rightarrow> (files, string option) py" where
  "findLib_ld h name =
     (let expr = ''/'' @ gcc_expr name
      in py_bind (popen h ''/sbin/ldconfig -p 2>/dev/null'') (\<lambda>trace.
         py_bind (py_lift (search_text h expr trace)) (\<lambda>res.
         case res of
           Some lib \<Rightarrow> py_ret (Some lib)
         | None \<Rightarrow> py_bind (popen h (''ldd '' @ executable h @ '' 2>/dev/null'')) (\<lambda>trace1.
                  py_lift (search_text h expr trace1)))))"

definition rx_soname :: rx where
  "rx_soname = cats [Rep 1 (Some 1) True is_space, Lit ''SONAME'', Rep 1 None True is_space,
     Grp ''1'' (Rep 1 None True (\<lambda>c. \<not> is_space c))]"

definition get_soname :: "unix_host \<Rightarrow> string \<Rightarrow> (files, string option) py" where
  "get_soname h f =
     py_bind (popen h (''objdump -p -j .dynamic 2>/dev/null '' @ f)) (\<lambda>trace.
     py_ret (case re_search rx_soname trace of None \<Rightarrow> None | Some (i, j, c) \<Rightarrow> map_of c ''1''))"

definition find_library_posix :: "unix_host \<Rightarrow> string \<Rightarrow> (files, string option) py" where
  "find_library_posix h name =
     py_bind (findLib_ld h name) (\<lambda>lib.
     py_bind (if lib = None \<or> lib = Some [] then findLib_gcc h name else py_ret lib) (\<lambda>lib1.
     case lib1 of
       None \<Rightarrow> py_ret None
     | Some l \<Rightarrow> if l = [] then py_ret None else get_soname h l))"

section \<open>Properties\<close>

text \<open>What the search on Windows tries in one directory.\<close>

definition nt_candidates :: "nt_host \<Rightarrow> string \<Rightarrow> string list \<Rightarrow> string list" where
  "nt_candidates h name ds = concat (map (\<lambda>d.
     let fname = nt_join h d name
     in fname # (if ends_with ''.dll'' (map lower_char fname) then [] else [fname @ ''.dll''])) ds)"

interpretation nt: finder "nt_exists h" "\<lambda>(name, ds). nt_candidates h name ds" "\<lambda>(name, ds). search_dirs h name ds" for h
proof (unfold_locales, goal_cases)
  case (1 n)
  obtain name ds where n: "n = (name, ds)" by force
  have "search_dirs h name ds = List.find (nt_exists h) (nt_candidates h name ds)"
    by (induction ds) (auto simp: nt_candidates_def Let_def)
  with n show ?case by simp
qed

text \<open>C39: the search on Windows is equivalent to listing, directory by directory of the path, the name and, unless it
  ends in \<open>.dll\<close> in any case, the name with \<open>.dll\<close> added, and taking the first of these that exists.\<close>

theorem find_library_nt_reference:
  "find_library_nt h name =
    (case nt_environ h ''PATH'' of
       None \<Rightarrow> Inl KeyError
     | Some path \<Rightarrow> Inr (List.find (nt_exists h)
         (concat (map (\<lambda>d. nt_join h d name
              # (if ends_with ''.dll'' (map lower_char (nt_join h d name)) then [] else [nt_join h d name @ ''.dll'']))
            (split_on (pathsep h) path)))))"
  using nt.find_law [of h "(name, ds)" for ds]
  by (simp add: find_library_nt_def nt_candidates_def Let_def split: option.split)

lemma try_finally_result: "try_finally m c s = (r, u) \<Longrightarrow> u = snd (c (snd (m s)))"
  by (auto simp: try_finally_def split: prod.splits sum.splits)

lemma unlink_gone:
  assumes "\<not> denied h f"
  shows "unlink_quietly h f fs = (Inr (), fs(f := False))"
  using assms by (auto simp: unlink_quietly_def fun_upd_idem)

text \<open>C40: the temporary files of the compiler search. When both were made and may be removed, both are gone at the end, whatever
  the compiler did with them and however the search ends. When the second cannot be made, the clean-up fails on its
  unbound name: the error is \<open>NameError\<close> instead of the real one and the first file stays.\<close>

theorem gcc_temp_files:
  assumes "mkstemp h fs = Inr ccout" "findLib_gcc h name fs = (r, fs1)"
  shows "case mkstemp h (fs(ccout := True)) of
      Inl e \<Rightarrow> r = Inl NameError \<and> fs1 ccout
    | Inr outfile \<Rightarrow> denied h ccout \<or> denied h outfile \<or> \<not> fs1 ccout \<and> \<not> fs1 outfile"
proof (cases "mkstemp h (fs(ccout := True))")
  case (Inl e)
  with assms show ?thesis by (auto simp: findLib_gcc_def new_temp_def py_bind_def)
next
  case (Inr outfile)
  let ?fs = "fs(ccout := True, outfile := True)" and ?c = "py_seq (unlink_quietly h outfile) (unlink_quietly h ccout)"
  have "fs1 = snd (try_finally (popen h (gcc_cmd ccout name)) ?c ?fs)"
    using assms Inr by (auto simp: findLib_gcc_def new_temp_def py_bind_def split: prod.splits sum.splits)
  then have "fs1 = snd (?c (snd (popen h (gcc_cmd ccout name) ?fs)))" by (metis try_finally_result prod.collapse)
  moreover have "\<not> u ccout \<and> \<not> u outfile" if "\<not> denied h ccout" "\<not> denied h outfile" "u = snd (?c fs2)" for u fs2
    using that by (simp add: unlink_gone py_seq_def py_bind_def)
  ultimately show ?thesis using Inr by auto
qed

text \<open>A host where temporary files are called \<open>a\<close> and \<open>b\<close> and the compiler leaves them alone.\<close>

definition demo_unix :: unix_host where
  "demo_unix = \<lparr>mkstemp = (\<lambda>fs. if fs ''a'' then Inr ''b'' else Inr ''a''), popen = (\<lambda>cmd fs. (Inr [], fs)),
     denied = (\<lambda>f. False), re_compile = (\<lambda>t. Inr (Lit t)), executable = ''python''\<rparr>"

theorem gcc_temp_files_witness:
  "\<not> snd (findLib_gcc demo_unix ''m'' (\<lambda>f. False)) ''a'' \<and> \<not> snd (findLib_gcc demo_unix ''m'' (\<lambda>f. False)) ''b''"
proof -
  have m: "mkstemp demo_unix (\<lambda>f. False) = Inr ''a''"
    and n: "mkstemp demo_unix ((\<lambda>f. False)(''a'' := True)) = Inr ''b''"
    and d: "denied demo_unix = (\<lambda>f. False)" by (simp_all add: demo_unix_def)
  obtain r fs1 where f: "findLib_gcc demo_unix ''m'' (\<lambda>f. False) = (r, fs1)" by force
  show ?thesis using gcc_temp_files [OF m f] by (simp add: n d f)
qed

end
