(* ===== verification/Ctypes_Selftest.thy ===== *)
theory Ctypes_Selftest
  imports Ctypes_Util Ctypes_World
begin

text \<open>
  The function \<open>find_library\<close> a system gets from util.py, and the self-test of that module, which prints libraries and
  the results of searches.
\<close>

section \<open>The search of each system\<close>

record util_env =
  ue_dl :: dl
  ue_platform :: string
  ue_mode :: rtld
  ue_nt :: nt_host
  ue_mac :: host
  ue_unix :: unix_host

text \<open>On another system the name is unbound.\<close>

definition find_library :: "util_env \<Rightarrow> string \<Rightarrow> (files, string option) py" where
  "find_library e name =
     (if dl_os (ue_dl e) = ''nt'' then py_lift (find_library_nt (ue_nt e) name)
      else if dl_os (ue_dl e) = ''ce'' then py_ret (find_library_ce name)
      else if dl_os (ue_dl e) = ''posix'' \<and> ue_platform e = ''darwin'' then py_lift (find_library_darwin (ue_mac e) name)
      else if dl_os (ue_dl e) = ''posix'' then find_library_posix (ue_unix e) name
      else py_raise NameError)"

section \<open>The self-test\<close>

datatype printed = PLib nat | PName "string option"

record util_state =
  us_world :: world
  us_files :: files
  us_out :: "printed list"

definition print_item :: "printed \<Rightarrow> (util_state, unit) py" where
  "print_item x = py_modify (\<lambda>s. s\<lparr>us_out := us_out s @ [x]\<rparr>)"

definition print_lib :: "(world, nat) py \<Rightarrow> (util_state, unit) py" where
  "print_lib m = py_bind (\<lambda>s. case m (us_world s) of (r, w) \<Rightarrow> (r, s\<lparr>us_world := w\<rparr>)) (\<lambda>l. print_item (PLib l))"

definition print_name :: "(files, string option) py \<Rightarrow> (util_state, unit) py" where
  "print_name m = py_bind (\<lambda>s. case m (us_files s) of (r, fs) \<Rightarrow> (r, s\<lparr>us_files := fs\<rparr>)) (\<lambda>n. print_item (PName n))"

text \<open>\<open>cdll.load(\<open>name\<close>)\<close>: an attribute of the loader is a library, and a library cannot be called.\<close>

definition call_attribute :: "dl \<Rightarrow> rtld \<Rightarrow> nat \<Rightarrow> string \<Rightarrow> (world, nat) py" where
  "call_attribute d mode self name = py_seq (loader_attribute d mode self name) (py_raise TypeError)"

definition util_test :: "util_env \<Rightarrow> nat \<Rightarrow> (util_state, unit) py" where
  "util_test e cdll =
     (let attr = loader_attribute (ue_dl e) (ue_mode e) cdll; load = LoadLibrary (ue_dl e) (ue_mode e) cdll in
      py_seq
       (if dl_os (ue_dl e) = ''nt'' then
          py_block [print_lib (attr ''msvcrt''), print_lib (call_attribute (ue_dl e) (ue_mode e) cdll ''load''),
                    print_name (find_library e ''msvcrt'')]
        else py_ret ())
       (if dl_os (ue_dl e) = ''posix'' then
          py_block ([print_name (find_library e ''m''), print_name (find_library e ''c''), print_name (find_library e ''bz2'')]
            @ (if ue_platform e = ''darwin'' then
                 [print_lib (load ''libm.dylib''), print_lib (load ''libcrypto.dylib''), print_lib (load ''libSystem.dylib''),
                  print_lib (load ''System.framework/System'')]
               else [print_lib (load ''libm.so''), print_lib (load ''libcrypt.so''), print_name (find_library e ''crypt'')]))
        else py_ret ()))"

text \<open>On Windows the self-test always ends with an exception, whatever libraries there are, and prints one library at most:
  \<open>load\<close> was the name of a method once, and is now taken for a library.\<close>

lemma call_attribute_fails: "\<exists>x. fst (call_attribute d mode self n w) = Inl x"
  by (cases "loader_attribute d mode self n w"; cases "fst (loader_attribute d mode self n w)")
    (simp_all add: call_attribute_def py_seq_def py_bind_def)

lemma util_test_nt_fails:
  assumes "dl_os (ue_dl e) = ''nt''"
  shows "\<exists>x t. util_test e cdll s = (Inl x, t) \<and> length (us_out t) \<le> length (us_out s) + 1"
proof -
  let ?p = "print_lib (loader_attribute (ue_dl e) (ue_mode e) cdll ''msvcrt'')"
  let ?q = "print_lib (call_attribute (ue_dl e) (ue_mode e) cdll ''load'')"
  have p: "length (us_out (snd (?p s))) \<le> length (us_out s) + 1"
    by (auto simp: print_lib_def print_item_def py_bind_def split: prod.splits sum.splits)
  have q: "\<exists>x t. ?q u = (Inl x, t) \<and> us_out t = us_out u" for u
    using call_attribute_fails [of "ue_dl e" "ue_mode e" cdll "''load''" "us_world u"]
    by (auto simp: print_lib_def py_bind_def split: prod.splits)
  have "\<exists>x t. py_block [?p, ?q, print_name (find_library e ''msvcrt'')] s = (Inl x, t) \<and> length (us_out t) \<le> length (us_out s) + 1"
    using p q by (auto simp: py_bind_def split: prod.splits sum.splits) (metis Inl_Inr_False prod.inject)+
  then obtain x t where b: "py_block [?p, ?q, print_name (find_library e ''msvcrt'')] s = (Inl x, t)" "length (us_out t) \<le> length (us_out s) + 1"
    by blast
  have "util_test e cdll s = (Inl x, t)"
    unfolding util_test_def Let_def by (simp del: py_block.simps add: assms b(1) py_seq_Inl)
  with b(2) show ?thesis by blast
qed

end
