(* ===== verification/Wintypes.thy ===== *)
theory Wintypes
  imports Ctypes_Endian
begin

text \<open>
  The Windows data types (sw/gnurabbit/python/ctypes/wintypes.py). The module is a list of assignments and class
  definitions over the names that \<open>from ctypes import *\<close> brings; it is written here as that list, in the
  order of the file, and run by a small evaluator in which a name that is not bound yet raises \<open>NameError\<close>. A type
  is the tree \<open>cty\<close> of theory Ctypes_Endian: an alias is the type it stands for.
\<close>

section \<open>Statements of a module\<close>

datatype expr = Ref string | Num int | Times expr expr

datatype stmt =
    Bind "string list" expr
  | Class string "(string \<times> expr) list"
  | SimpleClass string char
  | Def string

datatype wval = WType cty | WNum int | WFun string

type_synonym names = "string \<Rightarrow> wval option"

fun eval_expr :: "names \<Rightarrow> expr \<Rightarrow> exn + wval" where
  "eval_expr env (Ref n) = (case env n of None \<Rightarrow> Inl NameError | Some v \<Rightarrow> Inr v)"
| "eval_expr env (Num i) = Inr (WNum i)"
| "eval_expr env (Times a b) =
     (case eval_expr env a of
        Inl e \<Rightarrow> Inl e
      | Inr x \<Rightarrow> (case eval_expr env b of
          Inl e \<Rightarrow> Inl e
        | Inr y \<Rightarrow> (case (x, y) of
            (WType t, WNum n) \<Rightarrow> if n < 0 then Inl ValueError else Inr (WType (CArray t (nat n)))
          | _ \<Rightarrow> Inl TypeError)))"

fun eval_fields :: "names \<Rightarrow> (string \<times> expr) list \<Rightarrow> exn + (string \<times> cty) list" where
  "eval_fields env [] = Inr []"
| "eval_fields env ((n, e) # fs) =
     (case eval_expr env e of
        Inl x \<Rightarrow> Inl x
      | Inr (WType t) \<Rightarrow> (case eval_fields env fs of Inl x \<Rightarrow> Inl x | Inr ts \<Rightarrow> Inr ((n, t) # ts))
      | Inr _ \<Rightarrow> Inl TypeError)"

definition bind_all :: "string list \<Rightarrow> wval \<Rightarrow> names \<Rightarrow> names" where
  "bind_all ns v env = fold (\<lambda>n e. e(n \<mapsto> v)) ns env"

fun exec_stmt :: "stmt \<Rightarrow> names \<Rightarrow> exn + names" where
  "exec_stmt (Bind ns e) env = (case eval_expr env e of Inl x \<Rightarrow> Inl x | Inr v \<Rightarrow> Inr (bind_all ns v env))"
| "exec_stmt (Class n fs) env =
     (case eval_fields env fs of Inl x \<Rightarrow> Inl x | Inr ts \<Rightarrow> Inr (env(n \<mapsto> WType (CStruct n ts))))"
| "exec_stmt (SimpleClass n c) env = Inr (env(n \<mapsto> WType (CSimple c)))"
| "exec_stmt (Def n) env = Inr (env(n \<mapsto> WFun n))"

fun exec_body :: "stmt list \<Rightarrow> names \<Rightarrow> exn + names" where
  "exec_body [] env = Inr env"
| "exec_body (s # ss) env = (case exec_stmt s env of Inl x \<Rightarrow> Inl x | Inr env1 \<Rightarrow> exec_body ss env1)"

section \<open>The module\<close>

definition wt_simple :: "stmt list" where
  "wt_simple =
    [Bind [''BYTE''] (Ref ''c_byte''), Bind [''WORD''] (Ref ''c_ushort''), Bind [''DWORD''] (Ref ''c_ulong''),
     Bind [''WCHAR''] (Ref ''c_wchar''), Bind [''UINT''] (Ref ''c_uint''), Bind [''DOUBLE''] (Ref ''c_double''),
     Bind [''BOOLEAN''] (Ref ''BYTE''), Bind [''BOOL''] (Ref ''c_long''), SimpleClass ''VARIANT_BOOL'' (CHR ''v''),
     Bind [''ULONG''] (Ref ''c_ulong''), Bind [''LONG''] (Ref ''c_long''),
     Bind [''_LARGE_INTEGER'', ''LARGE_INTEGER''] (Ref ''c_longlong''),
     Bind [''_ULARGE_INTEGER'', ''ULARGE_INTEGER''] (Ref ''c_ulonglong''),
     Bind [''LPCOLESTR'', ''LPOLESTR'', ''OLESTR''] (Ref ''c_wchar_p''),
     Bind [''LPCWSTR'', ''LPWSTR''] (Ref ''c_wchar_p''), Bind [''LPCSTR'', ''LPSTR''] (Ref ''c_char_p''),
     Bind [''WPARAM''] (Ref ''c_uint''), Bind [''LPARAM''] (Ref ''c_long''), Bind [''ATOM''] (Ref ''WORD''),
     Bind [''LANGID''] (Ref ''WORD''), Bind [''COLORREF''] (Ref ''DWORD''), Bind [''LGRPID''] (Ref ''DWORD''),
     Bind [''LCTYPE''] (Ref ''DWORD''), Bind [''LCID''] (Ref ''DWORD'')]"

definition wt_handles :: "stmt list" where
  "wt_handles =
    [Bind [''HANDLE''] (Ref ''c_ulong''), Bind [''HACCEL''] (Ref ''HANDLE''), Bind [''HBITMAP''] (Ref ''HANDLE''),
     Bind [''HBRUSH''] (Ref ''HANDLE''), Bind [''HCOLORSPACE''] (Ref ''HANDLE''), Bind [''HDC''] (Ref ''HANDLE''),
     Bind [''HDESK''] (Ref ''HANDLE''), Bind [''HDWP''] (Ref ''HANDLE''), Bind [''HENHMETAFILE''] (Ref ''HANDLE''),
     Bind [''HFONT''] (Ref ''HANDLE''), Bind [''HGDIOBJ''] (Ref ''HANDLE''), Bind [''HGLOBAL''] (Ref ''HANDLE''),
     Bind [''HHOOK''] (Ref ''HANDLE''), Bind [''HICON''] (Ref ''HANDLE''), Bind [''HINSTANCE''] (Ref ''HANDLE''),
     Bind [''HKEY''] (Ref ''HANDLE''), Bind [''HKL''] (Ref ''HANDLE''), Bind [''HLOCAL''] (Ref ''HANDLE''),
     Bind [''HMENU''] (Ref ''HANDLE''), Bind [''HMETAFILE''] (Ref ''HANDLE''), Bind [''HMODULE''] (Ref ''HANDLE''),
     Bind [''HMONITOR''] (Ref ''HANDLE''), Bind [''HPALETTE''] (Ref ''HANDLE''), Bind [''HPEN''] (Ref ''HANDLE''),
     Bind [''HRGN''] (Ref ''HANDLE''), Bind [''HRSRC''] (Ref ''HANDLE''), Bind [''HSTR''] (Ref ''HANDLE''),
     Bind [''HTASK''] (Ref ''HANDLE''), Bind [''HWINSTA''] (Ref ''HANDLE''), Bind [''HWND''] (Ref ''HANDLE''),
     Bind [''SC_HANDLE''] (Ref ''HANDLE''), Bind [''SERVICE_STATUS_HANDLE''] (Ref ''HANDLE'')]"

definition wt_structs :: "stmt list" where
  "wt_structs =
    [Class ''RECT''
       [(''left'', Ref ''c_long''), (''top'', Ref ''c_long''), (''right'', Ref ''c_long''),
        (''bottom'', Ref ''c_long'')],
     Bind [''tagRECT'', ''_RECTL'', ''RECTL''] (Ref ''RECT''),
     Class ''_SMALL_RECT''
       [(''Left'', Ref ''c_short''), (''Top'', Ref ''c_short''), (''Right'', Ref ''c_short''),
        (''Bottom'', Ref ''c_short'')],
     Bind [''SMALL_RECT''] (Ref ''_SMALL_RECT''),
     Class ''_COORD''
       [(''X'', Ref ''c_short''), (''Y'', Ref ''c_short'')],
     Class ''POINT''
       [(''x'', Ref ''c_long''), (''y'', Ref ''c_long'')],
     Bind [''tagPOINT'', ''_POINTL'', ''POINTL''] (Ref ''POINT''),
     Class ''SIZE''
       [(''cx'', Ref ''c_long''), (''cy'', Ref ''c_long'')],
     Bind [''tagSIZE'', ''SIZEL''] (Ref ''SIZE''), Def ''RGB'',
     Class ''FILETIME''
       [(''dwLowDateTime'', Ref ''DWORD''), (''dwHighDateTime'', Ref ''DWORD'')],
     Bind [''_FILETIME''] (Ref ''FILETIME''),
     Class ''MSG''
       [(''hWnd'', Ref ''HWND''), (''message'', Ref ''c_uint''), (''wParam'', Ref ''WPARAM''),
        (''lParam'', Ref ''LPARAM''), (''time'', Ref ''DWORD''), (''pt'', Ref ''POINT'')],
     Bind [''tagMSG''] (Ref ''MSG''), Bind [''MAX_PATH''] (Num 260),
     Class ''WIN32_FIND_DATAA''
       [(''dwFileAttributes'', Ref ''DWORD''), (''ftCreationTime'', Ref ''FILETIME''),
        (''ftLastAccessTime'', Ref ''FILETIME''), (''ftLastWriteTime'', Ref ''FILETIME''),
        (''nFileSizeHigh'', Ref ''DWORD''), (''nFileSizeLow'', Ref ''DWORD''), (''dwReserved0'', Ref ''DWORD''),
        (''dwReserved1'', Ref ''DWORD''), (''cFileName'', Times (Ref ''c_char'') (Ref ''MAX_PATH'')),
        (''cAlternameFileName'', Times (Ref ''c_char'') (Num 14))],
     Class ''WIN32_FIND_DATAW''
       [(''dwFileAttributes'', Ref ''DWORD''), (''ftCreationTime'', Ref ''FILETIME''),
        (''ftLastAccessTime'', Ref ''FILETIME''), (''ftLastWriteTime'', Ref ''FILETIME''),
        (''nFileSizeHigh'', Ref ''DWORD''), (''nFileSizeLow'', Ref ''DWORD''), (''dwReserved0'', Ref ''DWORD''),
        (''dwReserved1'', Ref ''DWORD''), (''cFileName'', Times (Ref ''c_wchar'') (Ref ''MAX_PATH'')),
        (''cAlternameFileName'', Times (Ref ''c_wchar'') (Num 14))]]"

definition wt_all :: "string list" where
  "wt_all =
     [''ATOM'', ''BOOL'', ''BOOLEAN'', ''BYTE'', ''COLORREF'', ''DOUBLE'', ''DWORD'', ''FILETIME'', ''HACCEL'',
      ''HANDLE'', ''HBITMAP'', ''HBRUSH'', ''HCOLORSPACE'', ''HDC'', ''HDESK'', ''HDWP'', ''HENHMETAFILE'',
      ''HFONT'', ''HGDIOBJ'', ''HGLOBAL'', ''HHOOK'', ''HICON'', ''HINSTANCE'', ''HKEY'', ''HKL'', ''HLOCAL'',
      ''HMENU'', ''HMETAFILE'', ''HMODULE'', ''HMONITOR'', ''HPALETTE'', ''HPEN'', ''HRGN'', ''HRSRC'', ''HSTR'',
      ''HTASK'', ''HWINSTA'', ''HWND'', ''LANGID'', ''LARGE_INTEGER'', ''LCID'', ''LCTYPE'', ''LGRPID'', ''LONG'',
      ''LPARAM'', ''LPCOLESTR'', ''LPCSTR'', ''LPCWSTR'', ''LPOLESTR'', ''LPSTR'', ''LPWSTR'', ''MAX_PATH'', ''MSG'',
      ''OLESTR'', ''POINT'', ''POINTL'', ''RECT'', ''RECTL'', ''RGB'', ''SC_HANDLE'', ''SERVICE_STATUS_HANDLE'',
      ''SIZE'', ''SIZEL'', ''SMALL_RECT'', ''UINT'', ''ULARGE_INTEGER'', ''ULONG'', ''VARIANT_BOOL'', ''WCHAR'',
      ''WIN32_FIND_DATAA'', ''WIN32_FIND_DATAW'', ''WORD'', ''WPARAM'', ''_COORD'', ''_FILETIME'',
      ''_LARGE_INTEGER'', ''_POINTL'', ''_RECTL'', ''_SMALL_RECT'', ''_ULARGE_INTEGER'', ''tagMSG'', ''tagPOINT'',
      ''tagRECT'', ''tagSIZE'']"

definition RGB :: "int \<Rightarrow> int \<Rightarrow> int \<Rightarrow> int" where
  "RGB red green blue = red + push_bit 8 green + push_bit 16 blue"

text \<open>\<open>VARIANT_BOOL.__repr__\<close>, given the text of the value.\<close>

definition variant_bool_repr :: "string \<Rightarrow> string \<Rightarrow> string" where
  "variant_bool_repr class_name value_repr = class_name @ ''('' @ value_repr @ '')''"

definition ctypes_names :: "(char \<Rightarrow> nat) \<Rightarrow> names" where
  "ctypes_names calcsize n = map_option (\<lambda>c. WType (CSimple c)) (map_of (simple_types calcsize) n)"

definition wintypes :: "names \<Rightarrow> exn + names" where
  "wintypes env = exec_body (wt_simple @ wt_handles @ wt_structs) env"

section \<open>Every name is bound before it is used\<close>

text \<open>A definite-assignment check over the kinds of the values, and its soundness for the evaluator.\<close>

datatype kind = TypeKind | NumKind int | FunKind

fun kind_of :: "wval \<Rightarrow> kind" where
  "kind_of (WType t) = TypeKind"
| "kind_of (WNum i) = NumKind i"
| "kind_of (WFun n) = FunKind"

type_synonym kinds = "(string \<times> kind) list"

fun expr_kind :: "kinds \<Rightarrow> expr \<Rightarrow> kind option" where
  "expr_kind G (Ref n) = map_of G n"
| "expr_kind G (Num i) = Some (NumKind i)"
| "expr_kind G (Times a b) =
     (case (expr_kind G a, expr_kind G b) of
        (Some TypeKind, Some (NumKind i)) \<Rightarrow> if 0 \<le> i then Some TypeKind else None
      | _ \<Rightarrow> None)"

fun body_kinds :: "kinds \<Rightarrow> stmt list \<Rightarrow> kinds option" where
  "body_kinds G [] = Some G"
| "body_kinds G (Bind ns e # ss) =
     (case expr_kind G e of None \<Rightarrow> None | Some k \<Rightarrow> body_kinds (map (\<lambda>n. (n, k)) ns @ G) ss)"
| "body_kinds G (Class n fs # ss) =
     (if list_all (\<lambda>f. expr_kind G (snd f) = Some TypeKind) fs then body_kinds ((n, TypeKind) # G) ss else None)"
| "body_kinds G (SimpleClass n c # ss) = body_kinds ((n, TypeKind) # G) ss"
| "body_kinds G (Def n # ss) = body_kinds ((n, FunKind) # G) ss"

definition agrees :: "kinds \<Rightarrow> names \<Rightarrow> bool" where
  "agrees G env \<longleftrightarrow> (\<forall>n k. map_of G n = Some k \<longrightarrow> map_option kind_of (env n) = Some k)"

lemma agrees_upd: "agrees G env \<Longrightarrow> kind_of v = k \<Longrightarrow> agrees ((n, k) # G) (env(n \<mapsto> v))"
  by (auto simp: agrees_def)

lemma bind_all_apply: "bind_all ns v env n = (if n \<in> set ns then Some v else env n)"
  by (induction ns arbitrary: env) (auto simp: bind_all_def)

lemma agrees_bind: "agrees G env \<Longrightarrow> kind_of v = k \<Longrightarrow> agrees (map (\<lambda>n. (n, k)) ns @ G) (bind_all ns v env)"
  by (induction ns) (auto simp: agrees_def bind_all_apply)

lemma kind_ofE: "kind_of v = TypeKind \<Longrightarrow> (\<And>t. v = WType t \<Longrightarrow> P) \<Longrightarrow> P" "kind_of v = NumKind i \<Longrightarrow> v = WNum i"
  by (cases v; auto)+

lemma eval_expr_kind: "agrees G env \<Longrightarrow> expr_kind G e = Some k \<Longrightarrow> \<exists>v. eval_expr env e = Inr v \<and> kind_of v = k"
proof (induction e arbitrary: k)
  case (Ref n)
  then have "map_option kind_of (env n) = Some k" by (simp add: agrees_def)
  then show ?case by auto
next
  case (Times a b)
  from Times.prems(2) obtain i where
    i: "expr_kind G a = Some TypeKind" "expr_kind G b = Some (NumKind i)" "0 \<le> i" "k = TypeKind"
    by (auto split: option.splits kind.splits if_splits)
  from Times.IH(1) [OF Times.prems(1) i(1)] Times.IH(2) [OF Times.prems(1) i(2)] i(3,4)
  show ?case by (auto elim!: kind_ofE dest!: kind_ofE(2))
qed auto

lemma eval_fields_kind:
  "agrees G env \<Longrightarrow> list_all (\<lambda>f. expr_kind G (snd f) = Some TypeKind) fs \<Longrightarrow> \<exists>ts. eval_fields env fs = Inr ts \<and> map fst ts = map fst fs"
proof (induction fs)
  case (Cons f fs)
  obtain n e where f: "f = (n, e)" by force
  from Cons.prems f obtain v where v: "eval_expr env e = Inr v" "kind_of v = TypeKind"
    using eval_expr_kind [OF Cons.prems(1), of e] by auto
  from v(2) obtain t where "v = WType t" by (rule kind_ofE)
  with v Cons f show ?case by auto
qed simp

lemma body_kinds_sound:
  "body_kinds G ss = Some H \<Longrightarrow> agrees G env \<Longrightarrow> \<exists>env1. exec_body ss env = Inr env1 \<and> agrees H env1"
proof (induction G ss arbitrary: env rule: body_kinds.induct)
  case (2 G ns e ss)
  then obtain k where k: "expr_kind G e = Some k" by (auto split: option.splits)
  from eval_expr_kind [OF 2(3) k] obtain v where "eval_expr env e = Inr v" "kind_of v = k" by blast
  with 2 k agrees_bind [OF 2(3)] show ?case by simp
next
  case (3 G n fs ss)
  then have l: "list_all (\<lambda>f. expr_kind G (snd f) = Some TypeKind) fs" by (auto split: if_splits)
  from eval_fields_kind [OF 3(3) l] 3 l show ?case by (auto simp: agrees_upd)
qed (simp_all add: agrees_upd)

text \<open>What \<open>from ctypes import *\<close> brings is enough for the module on every platform, and every name it exports
  is bound at its end.\<close>

definition ctypes_kinds :: kinds where
  "ctypes_kinds = map (\<lambda>n. (n, TypeKind))
     [''py_object'', ''c_short'', ''c_ushort'', ''c_long'', ''c_ulong'', ''c_int'', ''c_uint'', ''c_float'', ''c_double'', ''c_longlong'',
      ''c_ulonglong'', ''c_ubyte'', ''c_byte'', ''c_char'', ''c_char_p'', ''c_void_p'', ''c_voidp'', ''c_wchar_p'', ''c_wchar'']"

lemma ctypes_kinds_agree: "agrees ctypes_kinds (ctypes_names calcsize)"
  unfolding agrees_def ctypes_names_def simple_types_def ctypes_kinds_def by simp

lemma wintypes_kinds:
  "case body_kinds ctypes_kinds (wt_simple @ wt_handles @ wt_structs) of
     None \<Rightarrow> False | Some H \<Rightarrow> list_all (\<lambda>n. map_of H n \<noteq> None) wt_all"
  by code_simp

lemma wintypes_complete:
  "\<exists>e. wintypes (ctypes_names calcsize) = Inr e \<and> set wt_all \<subseteq> dom e"
proof -
  from wintypes_kinds obtain H where H: "body_kinds ctypes_kinds (wt_simple @ wt_handles @ wt_structs) = Some H"
    "list_all (\<lambda>n. map_of H n \<noteq> None) wt_all" by (auto split: option.splits)
  from body_kinds_sound [OF H(1) ctypes_kinds_agree] obtain e
    where e: "wintypes (ctypes_names calcsize) = Inr e" "agrees H e" unfolding wintypes_def by blast
  have "n \<in> dom e" if "n \<in> set wt_all" for n
    using that H(2) e(2) unfolding agrees_def list_all_iff by fastforce
  with e(1) show ?thesis by blast
qed

section \<open>Aliases\<close>

fun bound_names :: "stmt list \<Rightarrow> string list" where
  "bound_names [] = []"
| "bound_names (Bind ns e # ss) = ns @ bound_names ss"
| "bound_names (Class n fs # ss) = n # bound_names ss"
| "bound_names (SimpleClass n c # ss) = n # bound_names ss"
| "bound_names (Def n # ss) = n # bound_names ss"

lemma exec_body_frame: "exec_body ss env = Inr e \<Longrightarrow> n \<notin> set (bound_names ss) \<Longrightarrow> e n = env n"
  by (induction ss arbitrary: env rule: bound_names.induct) (auto simp: bind_all_apply split: sum.splits)

lemma exec_body_append:
  "exec_body (ss @ ts) env = (case exec_body ss env of Inl x \<Rightarrow> Inl x | Inr e \<Rightarrow> exec_body ts e)"
  by (induction ss arbitrary: env) (auto split: sum.splits)

lemma exec_aliases:
  "env m = Some v \<Longrightarrow> m \<notin> set ns \<Longrightarrow> exec_body (map (\<lambda>n. Bind [n] (Ref m)) ns) env = Inr (bind_all ns v env)"
  by (induction ns arbitrary: env) (auto simp: bind_all_def)

definition handle_names :: "string list" where
  "handle_names = concat (map (\<lambda>s. case s of Bind ns e \<Rightarrow> ns | _ \<Rightarrow> []) (tl wt_handles))"

lemma wt_handles_aliases:
  "wt_handles = Bind [''HANDLE''] (Ref ''c_ulong'') # map (\<lambda>n. Bind [n] (Ref ''HANDLE'')) handle_names"
  by (simp add: wt_handles_def handle_names_def)

text \<open>Every handle type is \<open>c_ulong\<close>, and not a pointer as in the C headers: where \<open>long\<close> has four bytes and a
  pointer eight, a handle is cut.\<close>

lemma handles_are_ulong:
  assumes e: "wintypes (ctypes_names calcsize) = Inr e" and n: "n = ''HANDLE'' \<or> n \<in> set handle_names"
  shows "e n = Some (WType (CSimple (CHR ''L'')))"
proof -
  let ?v = "WType (CSimple (CHR ''L''))"
  from e obtain e1 e2 where s: "exec_body wt_simple (ctypes_names calcsize) = Inr e1" "exec_body wt_handles e1 = Inr e2"
    "exec_body wt_structs e2 = Inr e" unfolding wintypes_def exec_body_append by (auto split: sum.splits)
  have "''c_ulong'' \<notin> set (bound_names wt_simple)" by code_simp
  from exec_body_frame [OF s(1) this] have u: "e1 ''c_ulong'' = Some ?v"
    by (simp add: ctypes_names_def simple_types_def)
  have h: "''HANDLE'' \<notin> set handle_names" by code_simp
  have "e2 = bind_all handle_names ?v (bind_all [''HANDLE''] ?v e1)"
    using s(2) u exec_aliases [OF _ h, of "bind_all [''HANDLE''] ?v e1" ?v]
    unfolding wt_handles_aliases by (simp add: bind_all_apply)
  with n have "e2 n = Some ?v" by (auto simp: bind_all_apply)
  moreover have "list_all (\<lambda>m. m \<notin> set (bound_names wt_structs)) (''HANDLE'' # handle_names)" by code_simp
  then have "n \<notin> set (bound_names wt_structs)" using n unfolding list_all_iff by auto
  ultimately show ?thesis using exec_body_frame [OF s(3)] by simp
qed

text \<open>The colour of three bytes holds them, red lowest.\<close>

lemma RGB_bytes:
  assumes "0 \<le> r" "r < 256" "0 \<le> g" "g < 256" "0 \<le> b" "b < 256"
  shows "RGB r g b mod 256 = r" "RGB r g b div 256 mod 256 = g" "RGB r g b div 65536 = b" "RGB r g b < 2 ^ 24"
proof -
  have parts: "(x + 256 * y) mod 256 = x" "(x + 256 * y) div 256 = y" if "0 \<le> x" "x < 256" for x y :: int
    using that by simp_all
  have e: "RGB r g b = r + 256 * (g + 256 * b)" by (simp add: RGB_def push_bit_eq_mult algebra_simps)
  have d: "RGB r g b div 256 = g + 256 * b" unfolding e by (rule parts(2) [OF assms(1,2)])
  show "RGB r g b mod 256 = r" unfolding e by (rule parts(1) [OF assms(1,2)])
  show "RGB r g b div 256 mod 256 = g" unfolding d by (rule parts(1) [OF assms(3,4)])
  have "RGB r g b div 65536 = RGB r g b div 256 div 256" by (simp add: zdiv_zmult2_eq [symmetric])
  also have "\<dots> = b" unfolding d by (rule parts(2) [OF assms(3,4)])
  finally show "RGB r g b div 65536 = b" .
  show "RGB r g b < 2 ^ 24" unfolding e using assms by simp
qed

end
