(* ===== verification/Spec2Isabelle.thy ===== *)
theory Spec2Isabelle
  imports Eeprom_Theorems Gennum_Theorems Driver_Irq Rrcmd_Props Dmatest_Props Macholib_Props
    Driver_Module Driver_Session Ctypes_Endian Ctypes_Props Ctypes_Import Ctypes_Selftest Wintypes
begin

text \<open>
  The software of the GN4124 core (src/sw/gnurabbit): the Python programs that reach a PCI board through the
  rawrabbit driver, and the copy of module ctypes they carry.

  \<^bold>\<open>The parts and how they interact.\<close> The class \<open>Gennum\<close> (python/rr.py) opens the device file and calls a small C library
  (python/rrlib.c), which issues ioctls to the driver (kernel/rawrabbit.c); the driver keeps the bound
  device, a DMA buffer and the state of the interrupt line. Three programs use the class: the EEPROM utility
  (python/eeprom_utils.py), the command interpreter (python/rrcmd.py) and the DMA test (python/dmatest.py).
  Module ctypes (python/ctypes) makes the foreign function and data types; its submodules find libraries.

  \<^bold>\<open>Shared theories.\<close> Prelude: the outcome of Python code is a function from the state to a result or
  exception and a new state (\<open>py\<close>), with rules for what code keeps (\<open>keeps\<close>) and how it can end (\<open>escapes\<close>).
  PyText: the conversions, \<open>split\<close>, \<open>strip\<close> and console of Python 2. Regex: the backtracking matcher of module re, for
  the patterns of the sources, with captures. Interfaces: the contracts as locales, \<open>word_store\<close>
  (a store of independent words), \<open>reg_port\<close> (registers with a trace of accesses), \<open>memo_table\<close> and \<open>memo_world\<close> (a table
  that keeps its answers while others use it), \<open>finder\<close> (the first good candidate).

  \<^bold>\<open>Driver, Rrlib.\<close> \<open>kernel\<close> is struct rr_dev with the open count, the interrupt line and a trace of device accesses
  (\<open>mmio\<close>); one definition per function of rawrabbit.c, and \<open>rr_ioctl\<close> dispatches as the code does. Errors are the negative
  numbers of the code. The hardware and the PCI core are the parameter \<open>kenv\<close>: the answers of the device may depend on all
  earlier accesses. Driver_Irq gives the interrupt line as a step relation over the handler, the ioctls
  and the accesses, its invariant, the round of enabling and waiting, and what the two flags that share a bit do. Driver_Module
  has module entry and exit with the kernel's answers to them (\<open>module_env\<close>), all calls and interrupts between as a step relation, the
  second half of the device selection a step of its own (the source warns of that race), and the invariant of every such
  history: the node, the bounds of the buffer, and which device may be bound.

  \<^bold>\<open>Gennum, Gennum_Access, Gennum_Ports, Gennum_Addr, Gennum_Theorems.\<close> A \<open>machine\<close> holds the kernel, the \<open>Gennum\<close> objects (descriptor,
  errno, attributes) and the console with the files. The lemmas follow an address from the method to the driver, show the
  DMA buffer to be a \<open>word_store\<close> through both the ioctl and the file methods, BAR 4 to be a \<open>reg_port\<close>, and give the outcome
  of every method, errors included; \<open>parse_addr\<close> is solved exactly: the texts it accepts, and its answer for each. Driver_Session
  composes the two sides: a module loaded by \<open>rr_init\<close>, an object created on it, and then the buffer as a zeroed store of the
  size asked for, and the device that \<open>bind\<close> finds for an address and \<open>info\<close> describes.

  \<^bold>\<open>The EEPROM utility.\<close> Eeprom_I2C holds the two transfer functions over an arbitrary \<open>port\<close>; their loops are functions
  with a measure, and the polling loops have the bound of the code (\<open>i2c_timeout\<close>). Eeprom_I2C_Props proves the protocol
  inside a locale \<open>i2c_port\<close>; Eeprom_Gennum interprets it on a \<open>Gennum\<close> object. Eeprom_Frame says what the
  transfers leave alone, Eeprom_Answers what they read from a device with given answers. Eeprom_Files holds the five actions, the
  menu and the main loop, a \<open>partial_function\<close>: that it ends is a theorem, by the lines left to read.
  Eeprom_Text and Eeprom_Files_Props give the file format and its round trip; Eeprom_Theorems the properties. Demo is a concrete board
  for the witnesses.

  \<^bold>\<open>rrcmd and dmatest.\<close> Program extends the machine by console and file statements; \<open>method_frame\<close> is the contract the
  methods of \<open>Gennum\<close> keep towards a program. Rrcmd has one definition per command, the dispatch of class Cmd and the command
  loop, a \<open>partial_function\<close> too; Rrcmd_Props shows that it ends, by the lines left to read, never
  changes the bound device, and that written data is read back. Dmatest and Dmatest_Props: the script phase by phase, what it leaves in
  the DMA buffer, how it can end; also the self-test of rr.py.

  \<^bold>\<open>ctypes.\<close> Macholib: the name patterns of dylib.py and framework.py and the search of dyld.py. Macholib_Names says exactly which
  names the patterns accept and which of the possible readings the backtracking matcher gives; Macholib_Props has the order of
  the search. Both run the self-tests of the modules. Ctypes: the simple and sized types, the tables of function and pointer types, the buffers (\<open>__init__.py\<close>).
  A class is its index in the list of classes made so far, so identity of classes is equality. Ctypes_Libs: libraries, functions and
  loaders as cells. Ctypes_Props: the tables are a \<open>memo_world\<close> under any sequence of requests; the buffers. Ctypes_World: so
  are the attributes of loaders and of libraries, over the requests for libraries and functions. Ctypes_Module has the body of the
  module statement by statement over the state \<open>module\<close>, and Ctypes_Import the outcome of importing it on every platform: each part
  is followed by the type codes of the names it binds (\<open>codes\<close>), and the parts are chained.
  Ctypes_Endian: structures of the other byte order (\<open>_endian.py\<close>). Ctypes_Util: the library search of each
  system (util.py), with its temporary files; Ctypes_Selftest the choice of the system and the self-test. Wintypes: the statements of wintypes.py, run by an evaluator; a definite-assignment check
  proved sound shows that every exported name is bound on every platform, and handles are \<open>c_ulong\<close>.

  \<^bold>\<open>Parameters.\<close> \<open>kenv\<close> (device, PCI core, interrupts, clock, page frames); \<open>host\<close>, \<open>nt_host\<close>, \<open>unix_host\<close> (files, environment,
  commands, encoders, compilation of a pattern from text); \<open>dl\<close> (dlopen and symbols); \<open>platform\<close> (the system, the exports of the C part
  and the sizes of the C types, \<open>calcsize\<close>); calls of foreign functions; the codec of
  unicode texts; the help text of the interpreter; the counterpart of a type in the other byte order. They are code
  outside the repository.

  \<^bold>\<open>Not modelled.\<close> Spin locks of the driver and failures of user memory access: one caller at a time reaches the driver, with good
  buffers; what a caller does after the module is removed under it. \<open>time.sleep\<close> and help texts. What the C part of ctypes does with the memory it is
  given (it is not in the repository; the unit tests of ctypes exercise it). What is left of the Python files are imports,
  documentation and lists of exported names. The manifests of the HDL build are lists of file names; the VHDL cores, vendor
  models and C tools of src/hdl and src/sw/gnurabbit/user and bench are other programs.
\<close>

end
